(* ===== verification/Prelude.thy ===== *)
theory Prelude
  imports Main "HOL-Library.Word"
begin

unbundle bit_operations_syntax

text \<open>
  Shared ground of the development: names for the C types of \<^verbatim>\<open>src/bld/type.h\<close>, a
  byte-addressed 32-bit memory with bulk reads and writes, little-endian words in that
  memory, bit-field access (the packed structs of \<^verbatim>\<open>src/bld/sd/reg.h\<close> and
  \<^verbatim>\<open>src/bld/sd/cmd.h\<close>), and the collections of facts the component theories extend.
\<close>

section \<open>Types and collections of facts\<close>

type_synonym u8 = "8 word"
type_synonym u16 = "16 word"
type_synonym u32 = "32 word"
type_synonym addr = "32 word"
type_synonym ram = "addr \<Rightarrow> u8"

named_theorems run_simps "evaluation of one step of a monadic program"
named_theorems reg_simps "addresses of memory-mapped registers"

section \<open>Little-endian words\<close>

definition byte_of :: "nat \<Rightarrow> u32 \<Rightarrow> u8" where
  "byte_of n w = ucast (drop_bit (8 * n) w)"

definition le32 :: "u8 \<Rightarrow> u8 \<Rightarrow> u8 \<Rightarrow> u8 \<Rightarrow> u32" where
  "le32 b0 b1 b2 b3 =
     ucast b0 OR push_bit 8 (ucast b1) OR push_bit 16 (ucast b2) OR push_bit 24 (ucast b3)"

definition bytes32 :: "u32 \<Rightarrow> u8 list" where
  "bytes32 w = [byte_of 0 w, byte_of 1 w, byte_of 2 w, byte_of 3 w]"

lemma length_bytes32 [simp]: "length (bytes32 w) = 4"
  by (simp add: bytes32_def)

lemma bit_byte_of: "bit (byte_of n w) i \<longleftrightarrow> i < 8 \<and> bit w (8 * n + i)"
  by (auto simp: byte_of_def bit_ucast_iff bit_drop_bit_eq)

lemma bit_le32:
  "bit (le32 b0 b1 b2 b3) i \<longleftrightarrow>
     (i < 8 \<and> bit b0 i) \<or> (8 \<le> i \<and> i < 16 \<and> bit b1 (i - 8)) \<or>
     (16 \<le> i \<and> i < 24 \<and> bit b2 (i - 16)) \<or> (24 \<le> i \<and> i < 32 \<and> bit b3 (i - 24))"
  by (auto simp: le32_def bit_or_iff bit_push_bit_iff bit_ucast_iff
      dest: bit_imp_le_length)

lemma byte_of_le32 [simp]:
  "byte_of 0 (le32 b0 b1 b2 b3) = b0"
  "byte_of (Suc 0) (le32 b0 b1 b2 b3) = b1"
  "byte_of 2 (le32 b0 b1 b2 b3) = b2"
  "byte_of 3 (le32 b0 b1 b2 b3) = b3"
  by (rule bit_word_eqI, auto simp: bit_byte_of bit_le32 dest: bit_imp_le_length)+

lemma le32_byte_of [simp]:
  "le32 (byte_of 0 w) (byte_of (Suc 0) w) (byte_of 2 w) (byte_of 3 w) = w"
proof (rule bit_word_eqI)
  fix n
  assume "n < LENGTH(32)"
  then have "n < 8 \<or> (8 \<le> n \<and> n < 16) \<or> (16 \<le> n \<and> n < 24) \<or> (24 \<le> n \<and> n < 32)" by auto
  then show "bit (le32 (byte_of 0 w) (byte_of (Suc 0) w) (byte_of 2 w) (byte_of 3 w)) n = bit w n"
    by (auto simp: bit_byte_of bit_le32)
qed

lemma bytes32_le32 [simp]: "bytes32 (le32 b0 b1 b2 b3) = [b0, b1, b2, b3]"
  by (simp add: bytes32_def)

lemma bytes32_inject [simp]: "bytes32 v = bytes32 w \<longleftrightarrow> v = w"
proof
  assume "bytes32 v = bytes32 w"
  then have "byte_of 0 v = byte_of 0 w" "byte_of (Suc 0) v = byte_of (Suc 0) w"
    "byte_of 2 v = byte_of 2 w" "byte_of 3 v = byte_of 3 w"
    by (simp_all add: bytes32_def)
  then have "le32 (byte_of 0 v) (byte_of (Suc 0) v) (byte_of 2 v) (byte_of 3 v) =
    le32 (byte_of 0 w) (byte_of (Suc 0) w) (byte_of 2 w) (byte_of 3 w)"
    by simp
  then show "v = w" by (simp only: le32_byte_of)
qed simp

text \<open>The bytes of a list of words.\<close>

abbreviation words_bytes :: "u32 list \<Rightarrow> u8 list" where
  "words_bytes ws \<equiv> concat (map bytes32 ws)"

lemma length_words: "length (words_bytes ws) = 4 * length ws"
  by (induction ws) simp_all

section \<open>Memory\<close>

definition ram_bytes :: "ram \<Rightarrow> addr \<Rightarrow> nat \<Rightarrow> u8 list" where
  "ram_bytes m a n = map (\<lambda>i. m (a + of_nat i)) [0..<n]"

definition ram_write :: "ram \<Rightarrow> addr \<Rightarrow> u8 list \<Rightarrow> ram" where
  "ram_write m a bs = (\<lambda>x. if unat (x - a) < length bs then bs ! unat (x - a) else m x)"

definition ram_get32 :: "ram \<Rightarrow> addr \<Rightarrow> u32" where
  "ram_get32 m a = le32 (m a) (m (a + 1)) (m (a + 2)) (m (a + 3))"

definition ram_get16 :: "ram \<Rightarrow> addr \<Rightarrow> u16" where
  "ram_get16 m a = ucast (m a) OR push_bit 8 (ucast (m (a + 1)))"

definition ram_set32 :: "ram \<Rightarrow> addr \<Rightarrow> u32 \<Rightarrow> ram" where
  "ram_set32 m a w =
     m(a := byte_of 0 w, a + 1 := byte_of 1 w, a + 2 := byte_of 2 w, a + 3 := byte_of 3 w)"

definition region :: "addr \<Rightarrow> nat \<Rightarrow> addr set" where
  "region a n = {x. unat (x - a) < n}"

lemma length_ram_bytes [simp]: "length (ram_bytes m a n) = n"
  by (simp add: ram_bytes_def)

lemma ram_bytes_nth [simp]: "i < n \<Longrightarrow> ram_bytes m a n ! i = m (a + of_nat i)"
  by (simp add: ram_bytes_def)

lemma ram_write_Nil [simp]: "ram_write m a [] = m"
  by (simp add: ram_write_def)

lemma ram_write_outside: "x \<notin> region a (length bs) \<Longrightarrow> ram_write m a bs x = m x"
  by (simp add: ram_write_def region_def)

lemma unat32_lt: "unat (x :: u32) < 2 ^ 32"
  using unsigned_less [of x] by simp

lemma unat_of_nat_lt: "n < 2 ^ 32 \<Longrightarrow> unat (of_nat n :: u32) = n"
  by (simp add: unat_of_nat take_bit_nat_eq_self)

lemma uint_of_int_lt: "0 \<le> k \<Longrightarrow> k < 2 ^ 32 \<Longrightarrow> uint (of_int k :: u32) = k"
  by (simp add: uint_word_of_int_eq take_bit_int_eq_self)

lemma sint_of_nat_lt: "n < 2 ^ 31 \<Longrightarrow> sint (of_nat n :: u32) = int n"
  by (simp add: signed_of_nat signed_take_bit_int_eq_self)

lemma round_up_16: "n + (16 - n mod 16) mod 16 = 16 * ((n + 15) div 16)" for n :: nat
proof -
  define q r where "q = n div 16" and "r = n mod 16"
  have n: "n = 16 * q + r" "r < 16" by (simp_all add: q_def r_def)
  show ?thesis
  proof (cases "r = 0")
    case False
    then have "(n + 15) div 16 = q + 1" using n by (intro div_nat_eqI) auto
    then show ?thesis using False n by (simp add: r_def [symmetric])
  qed (use n in simp)
qed

lemma of_nat_le32: "a < 2 ^ 32 \<Longrightarrow> b < 2 ^ 32 \<Longrightarrow> (of_nat a :: u32) \<le> of_nat b \<longleftrightarrow> a \<le> b"
  by (simp add: word_le_nat_alt unat_of_nat_lt)

lemma of_nat_less32: "a < 2 ^ 32 \<Longrightarrow> b < 2 ^ 32 \<Longrightarrow> (of_nat a :: u32) < of_nat b \<longleftrightarrow> a < b"
  by (simp add: word_less_nat_alt unat_of_nat_lt)

lemma ram_write_at:
  "i < length bs \<Longrightarrow> length bs \<le> 2 ^ 32 \<Longrightarrow> ram_write m a bs (a + of_nat i) = bs ! i"
  by (simp add: ram_write_def unat_of_nat_lt)

lemma ram_bytes_write_sub:
  assumes "k + n \<le> length bs" and "length bs \<le> 2 ^ 32"
  shows "ram_bytes (ram_write m a bs) (a + of_nat k) n = take n (drop k bs)"
proof (rule nth_equalityI)
  show "length (ram_bytes (ram_write m a bs) (a + of_nat k) n) = length (take n (drop k bs))"
    using assms by simp
next
  fix i
  assume "i < length (ram_bytes (ram_write m a bs) (a + of_nat k) n)"
  then have i: "i < n" by simp
  have "ram_write m a bs (a + of_nat (k + i)) = bs ! (k + i)"
    using assms i by (intro ram_write_at) simp_all
  then show "ram_bytes (ram_write m a bs) (a + of_nat k) n ! i = take n (drop k bs) ! i"
    using assms i by (simp add: add.assoc)
qed

lemma ram_bytes_write [simp]:
  "length bs \<le> 2 ^ 32 \<Longrightarrow> ram_bytes (ram_write m a bs) a (length bs) = bs"
  using ram_bytes_write_sub [of 0 "length bs" bs m a] by simp

lemma ram_bytes_append:
  "ram_bytes m a (j + k) = ram_bytes m a j @ ram_bytes m (a + of_nat j) k"
  by (rule nth_equalityI) (auto simp: nth_append add.assoc simp flip: of_nat_add)

lemma unat_offset:
  assumes "n < 2 ^ 32"
  shows "unat (x - (a + of_nat n) :: u32) =
    (if n \<le> unat (x - a) then unat (x - a) - n else unat (x - a) + 2 ^ 32 - n)"
proof -
  have "x - (a + of_nat n) = (x - a) - of_nat n" by simp
  then have "unat (x - (a + of_nat n)) = unat ((x - a) - of_nat n)" by (rule arg_cong)
  then show ?thesis
    using assms unat32_lt [of "x - a"] by (simp add: unat_sub_if' unat_of_nat_lt)
qed

text \<open>Writing two adjacent blocks, in either order, is writing their concatenation.\<close>

lemma ram_write_append:
  assumes "length bs + length cs \<le> 2 ^ 32"
  shows "ram_write (ram_write m a bs) (a + of_nat (length bs)) cs = ram_write m a (bs @ cs)"
proof (cases "cs = []")
  case False
  then have "length bs < 2 ^ 32" using assms by (cases cs) simp_all
  from unat_offset [OF this] show ?thesis
    using assms unat32_lt by (intro ext) (auto simp: ram_write_def nth_append)
qed simp

lemma ram_write_prepend:
  assumes "length bs + length cs \<le> 2 ^ 32"
  shows "ram_write (ram_write m (a + of_nat (length bs)) cs) a bs = ram_write m a (bs @ cs)"
proof (cases "cs = []")
  case False
  then have "length bs < 2 ^ 32" using assms by (cases cs) simp_all
  from unat_offset [OF this] show ?thesis
    using assms unat32_lt by (intro ext) (auto simp: ram_write_def nth_append)
qed simp

text \<open>Writing over the start of a block.\<close>

lemma ram_write_over:
  "length cs \<le> length bs \<Longrightarrow> ram_write (ram_write m a bs) a cs = ram_write m a (cs @ drop (length cs) bs)"
  by (rule ext) (auto simp: ram_write_def nth_append)

lemma ram_write_Cons:
  "length bs < 2 ^ 32 \<Longrightarrow> ram_write m a (b # bs) = ram_write (m(a := b)) (a + 1) bs"
proof -
  assume "length bs < 2 ^ 32"
  then have "ram_write (ram_write m a [b]) (a + of_nat (length [b])) bs = ram_write m a ([b] @ bs)"
    by (intro ram_write_append) simp
  moreover have "ram_write m a [b] = m(a := b)"
    by (rule ext) (auto simp: ram_write_def unat_eq_0)
  ultimately show ?thesis by simp
qed

lemma ram_write_snoc:
  assumes "length bs < 2 ^ 32"
  shows "(ram_write m a bs)(a + of_nat (length bs) := b) = ram_write m a (bs @ [b])"
proof -
  have "ram_write (ram_write m a bs) (a + of_nat (length bs)) [b] = ram_write m a (bs @ [b])"
    using assms by (intro ram_write_append) simp
  then show ?thesis by (simp add: ram_write_Cons)
qed

lemma ram_bytes_0 [simp]: "ram_bytes m a 0 = []"
  by (simp add: ram_bytes_def)

lemma ram_bytes_snoc: "ram_bytes m a (Suc n) = ram_bytes m a n @ [m (a + of_nat n)]"
  by (simp add: ram_bytes_def)

lemma ram_bytes_Cons: "ram_bytes m a (Suc n) = m a # ram_bytes m (a + 1) n"
  using ram_bytes_append [of m a 1 n] by (simp add: ram_bytes_def)

lemma ram_set32_write: "ram_set32 m a w = ram_write m a (bytes32 w)"
  by (simp add: ram_set32_def bytes32_def ram_write_Cons add.assoc)

lemma ram_get32_bytes: "bytes32 (ram_get32 m a) = ram_bytes m a 4"
  by (simp add: ram_get32_def ram_bytes_def upt_conv_Cons eval_nat_numeral)

lemma ram_get32_eqI: "ram_bytes m a 4 = bytes32 w \<Longrightarrow> ram_get32 m a = w"
  by (simp add: ram_get32_bytes [symmetric])

lemma ram_bytes_cong:
  "(\<And>i. i < n \<Longrightarrow> m (a + of_nat i) = m' (a + of_nat i)) \<Longrightarrow> ram_bytes m a n = ram_bytes m' a n"
  by (simp add: ram_bytes_def)

text \<open>Writing over the inside of a block, and reading a word of it.\<close>

lemma ram_write_within:
  assumes "k + length cs \<le> length bs" and "length bs \<le> 2 ^ 32" and "cs \<noteq> []"
  shows "ram_write (ram_write m a bs) (a + of_nat k) cs = ram_write m a (take k bs @ cs @ drop (k + length cs) bs)"
proof -
  have "k < 2 ^ 32" using assms by (cases cs) simp_all
  from unat_offset [OF this] show ?thesis
    using assms(1,2) unat32_lt by (intro ext) (auto simp: ram_write_def nth_append)
qed

lemma ram_get32_within:
  assumes "take 4 (drop k bs) = bytes32 w" and "k + 4 \<le> length bs" and "length bs \<le> 2 ^ 32"
  shows "ram_get32 (ram_write m a bs) (a + of_nat k) = w"
  using ram_bytes_write_sub [OF assms(2,3), of m a] assms(1) by (intro ram_get32_eqI) simp

section \<open>Regions\<close>

lemma region_0 [simp]: "region a 0 = {}"
  by (simp add: region_def)

lemma region_mono: "n \<le> k \<Longrightarrow> region a n \<subseteq> region a k"
  by (auto simp: region_def)

lemma in_region_unat:
  assumes "unat a + n \<le> 2 ^ 32"
  shows "x \<in> region a n \<longleftrightarrow> unat a \<le> unat x \<and> unat x < unat a + n"
  using assms unat32_lt [of x]
  by (auto simp: region_def unat_sub_if' split: if_splits)

lemma region_disjoint:
  assumes "unat a + n \<le> unat b" and "unat b + k \<le> 2 ^ 32"
  shows "region a n \<inter> region b k = {}"
  using assms by (auto simp: in_region_unat)

lemma region_sub:
  assumes "j + n \<le> k" and "k \<le> 2 ^ 32"
  shows "region (a + of_nat j) n \<subseteq> region a k"
proof
  fix x
  assume "x \<in> region (a + of_nat j) n"
  then have *: "unat (x - a - of_nat j) < n" by (simp add: region_def algebra_simps)
  let ?y = "x - a - of_nat j"
  have "unat (?y + of_nat j) = unat ?y + j"
  proof -
    have "n + j \<le> 2 ^ 32" using assms by simp
    then have "unat ?y + j < 2 ^ 32" using * by linarith
    moreover from this have "unat (of_nat j :: u32) = j" by (intro unat_of_nat_lt) linarith
    ultimately show ?thesis by (subst unat_add_lem [THEN iffD1]) simp_all
  qed
  then show "x \<in> region a k" using * assms by (simp add: region_def)
qed

text \<open>What lies below a block is not touched by writing it.\<close>

lemma ram_bytes_below:
  assumes "unat x + n \<le> unat a" and "unat a + length bs \<le> 2 ^ 32"
  shows "ram_bytes (ram_write m a bs) x n = ram_bytes m x n"
proof (rule ram_bytes_cong)
  fix i
  assume "i < n"
  then have "unat x + i < 2 ^ 32" using assms unat32_lt [of a] by linarith
  moreover from this have "unat (of_nat i :: addr) = i" by (intro unat_of_nat_lt) simp
  ultimately have "unat (x + of_nat i) = unat x + i" using unat_add_lem [of x "of_nat i"] by simp
  then have "x + of_nat i \<notin> region a (length bs)"
    using \<open>i < n\<close> assms by (simp add: in_region_unat)
  then show "ram_write m a bs (x + of_nat i) = m (x + of_nat i)" by (rule ram_write_outside)
qed

lemma ram_get32_below:
  "unat x + 4 \<le> unat a \<Longrightarrow> unat a + length bs \<le> 2 ^ 32 \<Longrightarrow> ram_get32 (ram_write m a bs) x = ram_get32 m x"
  using ram_bytes_below [of x 4 a bs m] by (simp flip: ram_get32_bytes)

lemma ram_write_below: "unat x < unat a \<Longrightarrow> unat a + length bs \<le> 2 ^ 32 \<Longrightarrow> ram_write m a bs x = m x"
  using ram_bytes_below [of x 1 a bs m] by (simp add: ram_bytes_def)

section \<open>Bit fields\<close>

text \<open>
  A packed struct of bit-fields is laid out from the least significant bit upwards;
  \<open>fld pos w v\<close> is a \<open>w\<close>-bit field at bit \<open>pos\<close> holding \<open>v\<close> truncated to its
  width, \<open>getfld\<close> reads it back.
\<close>

definition fld :: "nat \<Rightarrow> nat \<Rightarrow> u32 \<Rightarrow> u32" where
  "fld pos w v = push_bit pos (take_bit w v)"

definition getfld :: "nat \<Rightarrow> nat \<Rightarrow> u32 \<Rightarrow> u32" where
  "getfld pos w v = take_bit w (drop_bit pos v)"

lemma bit_fld: "bit (fld pos w v) i \<longleftrightarrow> pos \<le> i \<and> i < 32 \<and> i < pos + w \<and> bit v (i - pos)"
  by (auto simp: fld_def bit_push_bit_iff bit_take_bit_iff dest: bit_imp_le_length)

lemma bit_getfld: "bit (getfld pos w v) i \<longleftrightarrow> i < w \<and> bit v (pos + i)"
  by (auto simp: getfld_def bit_take_bit_iff bit_drop_bit_eq)

lemma getfld_or [simp]: "getfld p w (a OR b) = getfld p w a OR getfld p w b"
  by (rule bit_word_eqI) (auto simp: bit_getfld bit_or_iff)

lemma getfld_0 [simp]: "getfld p w 0 = 0"
  by (simp add: getfld_def)

lemma getfld_fld_same: "p + w \<le> 32 \<Longrightarrow> getfld p w (fld p w v) = take_bit w v"
  by (rule bit_word_eqI) (auto simp: bit_getfld bit_fld bit_take_bit_iff)

lemma getfld_fld_other: "p + w \<le> q \<or> q + k \<le> p \<Longrightarrow> getfld p w (fld q k v) = 0"
  by (rule bit_word_eqI) (auto simp: bit_getfld bit_fld)

end
