(* ===== verification/Machine.thy ===== *)
theory Machine
  imports Prelude
begin

unbundle bit_operations_syntax

text \<open>
  The machine the bootloader runs on and the programs that run on it. A state holds RAM, the
  static variables of the C sources, the CPU's status register, the state of the
  peripherals and the history of bus accesses. The peripherals are not code of the
  repository: they are a parameter \<open>hw\<close> of every definition that touches them, a
  function for a bus read, one for a bus write and one for what the VideoCore writes to
  RAM, over an arbitrary type of peripheral states. A program is a function from a state to
  an outcome and a state.
\<close>

section \<open>Error codes\<close>

text \<open>\<^verbatim>\<open>enum error_code\<close> of \<^verbatim>\<open>src/bld/error.h\<close>, with the explicit values it gives.\<close>

datatype error_code =
    ERROR_VCMAILBOX | ERROR_VC_NOT_INIT_MMC | ERROR_INFINITE_LOOP | ERROR_VSNPRINTF
  | ERROR_SD_INIT | ERROR_SD_READ | ERROR_NO_MBR_MAGIC | ERROR_INVALID_PARTITION
  | ERROR_NO_IMAGE_MAGIC | ERROR_IMAGE_OVERFLOW | ERROR_IMAGE_CONTENTS
  | ERROR_KERN_OVERFLOW | ERROR_SD_RESET

fun error_value :: "error_code \<Rightarrow> nat" where
  "error_value ERROR_VCMAILBOX = 1"
| "error_value ERROR_VC_NOT_INIT_MMC = 2"
| "error_value ERROR_INFINITE_LOOP = 3"
| "error_value ERROR_VSNPRINTF = 4"
| "error_value ERROR_SD_INIT = 5"
| "error_value ERROR_SD_READ = 6"
| "error_value ERROR_NO_MBR_MAGIC = 7"
| "error_value ERROR_INVALID_PARTITION = 8"
| "error_value ERROR_NO_IMAGE_MAGIC = 9"
| "error_value ERROR_IMAGE_OVERFLOW = 10"
| "error_value ERROR_IMAGE_CONTENTS = 11"
| "error_value ERROR_KERN_OVERFLOW = 12"
| "error_value ERROR_SD_RESET = 13"

section \<open>The state\<close>

text \<open>
  \<^verbatim>\<open>enum card_state\<close> and \<^verbatim>\<open>struct card\<close> of \<^verbatim>\<open>src/bld/sd/sd.c\<close>: the
  bookkeeping the driver keeps in its static variable \<^verbatim>\<open>card\<close>.
\<close>

datatype card_state =
    CARD_STATE_INACTIVE | CARD_STATE_IDLE | CARD_STATE_READY | CARD_STATE_IDENTIFICATION
  | CARD_STATE_STANDBY | CARD_STATE_TRANSFER | CARD_STATE_SENDING_DATA
  | CARD_STATE_RECEIVE_DATA | CARD_STATE_PROGRAMMING | CARD_STATE_DISCONNECT

fun card_state_value :: "card_state \<Rightarrow> int" where
  "card_state_value CARD_STATE_INACTIVE = -1"
| "card_state_value CARD_STATE_IDLE = 0"
| "card_state_value CARD_STATE_READY = 1"
| "card_state_value CARD_STATE_IDENTIFICATION = 2"
| "card_state_value CARD_STATE_STANDBY = 3"
| "card_state_value CARD_STATE_TRANSFER = 4"
| "card_state_value CARD_STATE_SENDING_DATA = 5"
| "card_state_value CARD_STATE_RECEIVE_DATA = 6"
| "card_state_value CARD_STATE_PROGRAMMING = 7"
| "card_state_value CARD_STATE_DISCONNECT = 8"

text \<open>The order of the enumeration, which is the order in which the specification takes a card through them.\<close>

lemma card_state_value_inj: "card_state_value x = card_state_value y \<Longrightarrow> x = y"
  by (cases x; cases y) simp_all

instantiation card_state :: linorder
begin

definition less_eq_card_state :: "card_state \<Rightarrow> card_state \<Rightarrow> bool" where
  "less_eq_card_state x y \<longleftrightarrow> card_state_value x \<le> card_state_value y"

definition less_card_state :: "card_state \<Rightarrow> card_state \<Rightarrow> bool" where
  "less_card_state x y \<longleftrightarrow> card_state_value x < card_state_value y"

instance
  by standard (auto simp: less_eq_card_state_def less_card_state_def intro: card_state_value_inj)

end

record card =
  cstate :: card_state
  sdhc_or_sdxc :: bool
  card_rca :: u32
  cmd23_supported :: bool

datatype bus_event = Rd addr u32 | Wr addr u32

text \<open>
  \<open>trace\<close> is the history of bus accesses, the latest first; it is read by no
  definition and lets a theorem speak of the order of accesses.
  \<open>queued_timer_irq_serviced\<close> is the static flag of \<^verbatim>\<open>src/bld/timer.c\<close>.
\<close>

record 'd machine =
  ram :: ram
  dev :: 'd
  sdcard :: card
  queued_timer_irq_serviced :: bool
  cpsr :: u32
  trace :: "bus_event list"

text \<open>
  The hardware: bus reads and writes, and \<open>vc_respond\<close>, the VideoCore's update of the
  property buffer in RAM, which the ARM core sees once a mailbox message has arrived.
  \<open>uninit\<close> gives the bytes of an uninitialised object on the stack.
  \<open>poll_fuel\<close> bounds the number of times a busy-wait loop polls; a loop that would
  poll longer has the outcome \<open>Hang\<close>.
\<close>

record 'd hw =
  mmio_read :: "addr \<Rightarrow> 'd \<Rightarrow> u32 \<times> 'd"
  mmio_write :: "addr \<Rightarrow> u32 \<Rightarrow> 'd \<Rightarrow> 'd"
  vc_respond :: "'d \<Rightarrow> ram \<Rightarrow> ram"
  uninit :: "nat \<Rightarrow> u8"
  poll_fuel :: nat

section \<open>Outcomes and programs\<close>

text \<open>
  The registers at the jump to the kernel (\<^verbatim>\<open>_boot_kernel\<close> of
  \<^verbatim>\<open>src/bld/entry.S\<close>).
\<close>

record kernel_regs =
  reg_r0 :: u32
  reg_r1 :: u32
  reg_r2 :: u32
  reg_pc :: u32

text \<open>
  A program returns, or never returns to its caller: it signals an error code for ever
  (\<^verbatim>\<open>signal_error()\<close>), it jumps to the kernel, it reaches undefined behaviour of C, or it
  polls beyond \<open>poll_fuel\<close>.
\<close>

datatype 'a res = Ret 'a | Signal error_code | Boot kernel_regs | Undef | Hang

type_synonym ('s, 'a) prog = "'s \<Rightarrow> 'a res \<times> 's"
type_synonym ('d, 'a) io = "('d machine, 'a) prog"

definition ret :: "'a \<Rightarrow> ('s, 'a) prog" where
  "ret x = (\<lambda>s. (Ret x, s))"

definition bnd :: "('s, 'a) prog \<Rightarrow> ('a \<Rightarrow> ('s, 'b) prog) \<Rightarrow> ('s, 'b) prog" where
  "bnd m f = (\<lambda>s. case m s of
      (Ret x, t) \<Rightarrow> f x t
    | (Signal e, t) \<Rightarrow> (Signal e, t)
    | (Boot k, t) \<Rightarrow> (Boot k, t)
    | (Undef, t) \<Rightarrow> (Undef, t)
    | (Hang, t) \<Rightarrow> (Hang, t))"

definition stop :: "'a res \<Rightarrow> ('s, 'a) prog" where
  "stop r = (\<lambda>s. (r, s))"

definition gets :: "('s \<Rightarrow> 'a) \<Rightarrow> ('s, 'a) prog" where
  "gets f = (\<lambda>s. (Ret (f s), s))"

definition modify :: "('s \<Rightarrow> 's) \<Rightarrow> ('s, unit) prog" where
  "modify g = (\<lambda>s. (Ret (), g s))"

definition when_io :: "bool \<Rightarrow> ('s, unit) prog \<Rightarrow> ('s, unit) prog" where
  "when_io b m = (if b then m else ret ())"

text \<open>A pure computation that may signal or be undefined, run as a program.\<close>

lemmas prim_defs = ret_def stop_def gets_def modify_def

lemma ret_run [run_simps]: "ret x s = (Ret x, s)"
  by (simp add: ret_def)

lemma stop_run [run_simps]: "stop r s = (r, s)"
  by (simp add: stop_def)

lemma gets_run [run_simps]: "gets f s = (Ret (f s), s)"
  by (simp add: gets_def)

lemma modify_run [run_simps]: "modify g s = (Ret (), g s)"
  by (simp add: modify_def)

lemma when_io_run [run_simps]: "when_io b m s = (if b then m s else (Ret (), s))"
  by (simp add: when_io_def ret_run)

lemma bnd_Ret: "m s = (Ret x, t) \<Longrightarrow> bnd m f s = f x t"
  by (simp add: bnd_def)

lemma bnd_stops: "m s = (r, t) \<Longrightarrow> (\<forall>x. r \<noteq> Ret x) \<Longrightarrow>
    bnd m f s = (case r of Signal e \<Rightarrow> Signal e | Boot k \<Rightarrow> Boot k | Undef \<Rightarrow> Undef | Hang \<Rightarrow> Hang, t)"
  by (cases r) (simp_all add: bnd_def)

lemma bnd_prim_run [run_simps]:
  "bnd (ret x) f s = f x s"
  "bnd (gets g) f s = f (g s) s"
  "bnd (modify h) k s = k () (h s)"
  "bnd (stop (Signal e)) f s = (Signal e, s)"
  "bnd (stop (Boot b)) f s = (Boot b, s)"
  "bnd (stop Undef) f s = (Undef, s)"
  "bnd (stop Hang) f s = (Hang, s)"
  by (simp_all add: bnd_def prim_defs)

lemma bnd_assoc: "bnd (bnd m f) g = bnd m (\<lambda>x. bnd (f x) g)"
  by (rule ext) (simp add: bnd_def split: prod.splits res.splits)

text \<open>Inversion: what a finished sequence says of its parts.\<close>

lemma bnd_Ret_iff:
  "bnd m f s = (Ret y, u) \<longleftrightarrow> (\<exists>x t. m s = (Ret x, t) \<and> f x t = (Ret y, u))"
  by (cases "m s"; cases "fst (m s)") (auto simp: bnd_def)

lemma bnd_ret_iff: "bnd m (\<lambda>_. ret e) s = (Ret x, t) \<longleftrightarrow> x = e \<and> (\<exists>y. m s = (Ret y, t))"
  by (auto simp: bnd_Ret_iff ret_run)

lemma bnd_Boot_iff:
  "bnd m f s = (Boot k, u) \<longleftrightarrow>
     m s = (Boot k, u) \<or> (\<exists>x t. m s = (Ret x, t) \<and> f x t = (Boot k, u))"
  by (cases "m s"; cases "fst (m s)") (auto simp: bnd_def)

lemma bnd_RetE:
  assumes "bnd m f s = (Ret y, u)"
  obtains x t where "m s = (Ret x, t)" and "f x t = (Ret y, u)"
  using assms by (auto simp: bnd_Ret_iff)

section \<open>Relations that every run respects\<close>

text \<open>
  \<open>guar R m\<close>: whatever the outcome, the state in which \<open>m\<close> ends is related by
  \<open>R\<close> to the state in which it starts. The locale collects the rules for a preorder
  \<open>R\<close>; the component theories use them to prove frame properties by following the shape
  of the program.
\<close>

definition guar :: "('s \<Rightarrow> 's \<Rightarrow> bool) \<Rightarrow> ('s, 'a) prog \<Rightarrow> bool" where
  "guar R m \<longleftrightarrow> (\<forall>s. R s (snd (m s)))"

lemma guarD: "guar R m \<Longrightarrow> m s = (r, t) \<Longrightarrow> R s t"
  by (metis guar_def snd_conv)

lemma guar_mono: "guar R m \<Longrightarrow> (\<And>s t. R s t \<Longrightarrow> Q s t) \<Longrightarrow> guar Q m"
  by (simp add: guar_def)

text \<open>
  A program whose result, if it returns one, satisfies \<open>P\<close>; used where what follows respects a
  relation for such results only.
\<close>

definition returns :: "('s, 'a) prog \<Rightarrow> ('a \<Rightarrow> bool) \<Rightarrow> bool" where
  "returns m P \<longleftrightarrow> (\<forall>s x t. m s = (Ret x, t) \<longrightarrow> P x)"

lemma returns_ret: "P x \<Longrightarrow> returns (ret x) P"
  by (simp add: returns_def ret_run)

lemma returns_stop: "(\<forall>x. r \<noteq> Ret x) \<Longrightarrow> returns (stop r) P"
  by (simp add: returns_def stop_def)

lemma returns_bnd: "returns m P \<Longrightarrow> (\<And>x. P x \<Longrightarrow> returns (f x) Q) \<Longrightarrow> returns (bnd m f) Q"
  unfolding returns_def by (blast elim: bnd_RetE)

lemma returns_any: "returns m (\<lambda>_. True)"
  by (simp add: returns_def)

locale run_relation =
  fixes R :: "'s \<Rightarrow> 's \<Rightarrow> bool"
  assumes R_refl: "R s s"
    and R_trans: "R s t \<Longrightarrow> R t u \<Longrightarrow> R s u"
begin

lemma guar_ret: "guar R (ret x)"
  by (simp add: guar_def ret_def R_refl)

lemma guar_stop: "guar R (stop r)"
  by (simp add: guar_def stop_def R_refl)

lemma guar_gets: "guar R (gets f)"
  by (simp add: guar_def gets_def R_refl)

lemma guar_modify: "(\<And>s. R s (g s)) \<Longrightarrow> guar R (modify g)"
  by (simp add: guar_def modify_def)

lemma guar_bnd: "guar R m \<Longrightarrow> (\<And>x. guar R (f x)) \<Longrightarrow> guar R (bnd m f)"
  unfolding guar_def bnd_def
  by (auto split: prod.splits res.splits intro: R_trans) (metis R_trans snd_conv)+

lemma guar_bnd_returns: "guar R m \<Longrightarrow> returns m P \<Longrightarrow> (\<And>x. P x \<Longrightarrow> guar R (f x)) \<Longrightarrow> guar R (bnd m f)"
  unfolding guar_def bnd_def returns_def by (auto split: prod.splits res.splits intro: R_trans) (metis R_trans snd_conv)+

lemma guar_when: "(b \<Longrightarrow> guar R m) \<Longrightarrow> guar R (when_io b m)"
  by (simp add: when_io_def guar_ret)

lemma guar_if: "(b \<Longrightarrow> guar R m) \<Longrightarrow> (\<not> b \<Longrightarrow> guar R n) \<Longrightarrow> guar R (if b then m else n)"
  by simp

lemma guar_option:
  "(x = None \<Longrightarrow> guar R m) \<Longrightarrow> (\<And>y. x = Some y \<Longrightarrow> guar R (f y)) \<Longrightarrow>
     guar R (case x of None \<Rightarrow> m | Some y \<Rightarrow> f y)"
  by (cases x) simp_all

lemmas guar_rules = guar_ret guar_stop guar_gets guar_bnd guar_when
  guar_if guar_option

end

text \<open>Three preorders: the same RAM, the same card bookkeeping, and a history that only grows.\<close>

definition same_ram :: "'d machine \<Rightarrow> 'd machine \<Rightarrow> bool" where
  "same_ram s t \<longleftrightarrow> ram t = ram s"

definition same_card :: "'d machine \<Rightarrow> 'd machine \<Rightarrow> bool" where
  "same_card s t \<longleftrightarrow> sdcard t = sdcard s"

definition same_except :: "addr set \<Rightarrow> 'd machine \<Rightarrow> 'd machine \<Rightarrow> bool" where
  "same_except A s t \<longleftrightarrow> (\<forall>x. x \<notin> A \<longrightarrow> ram t x = ram s x)"

interpretation same_ram: run_relation "same_ram :: 'd machine \<Rightarrow> 'd machine \<Rightarrow> bool"
  by unfold_locales (simp_all add: same_ram_def)

interpretation same_card: run_relation "same_card :: 'd machine \<Rightarrow> 'd machine \<Rightarrow> bool"
  by unfold_locales (simp_all add: same_card_def)

interpretation same_except: run_relation "same_except X :: 'd machine \<Rightarrow> 'd machine \<Rightarrow> bool" for X
  by unfold_locales (simp_all add: same_except_def)

lemma same_ram_same_except: "guar same_ram m \<Longrightarrow> guar (same_except A) m"
  by (erule guar_mono) (simp add: same_ram_def same_except_def)

end
