(* ===== verification/Helpers.thy ===== *)
theory Helpers
  imports Machine
begin

unbundle bit_operations_syntax

text \<open>
  \<^verbatim>\<open>src/bld/help.c\<close> (all but the polling loop, which needs the timer),
  \<^verbatim>\<open>src/bld/bits.h\<close>, \<^verbatim>\<open>src/bld/heap.c\<close> and the address map of
  \<^verbatim>\<open>src/bld/addrmap.h\<close>. The byte loops are written as the loops of the source and proved
  equal to the bulk memory operations of the prelude.
\<close>

section \<open>Bit masks\<close>

definition BITS :: "nat \<Rightarrow> nat \<Rightarrow> u32" where
  "BITS stop_bit start_bit =
     push_bit start_bit 0xffffffff AND drop_bit (31 - stop_bit) 0xffffffff"

definition BIT :: "nat \<Rightarrow> u32" where
  "BIT n = push_bit n 1"

lemma bit_all_ones32: "bit (0xffffffff :: u32) i \<longleftrightarrow> i < 32"
proof -
  have "(0xffffffff :: u32) = - 1" by simp
  then show ?thesis by (simp only: bit_minus_1_iff possible_bit_word) simp
qed

lemma bit_BIT: "bit (BIT n) i \<longleftrightarrow> i = n \<and> n < 32"
  unfolding BIT_def bit_push_bit_iff bit_1_iff by (auto simp: possible_bit_word)

lemma and_BIT_eq_0: "x AND BIT n = 0 \<longleftrightarrow> \<not> bit x n"
proof -
  have "x AND BIT n = (if bit x n then BIT n else 0)"
    by (rule bit_word_eqI) (auto simp: bit_and_iff bit_BIT)
  moreover have "bit x n \<Longrightarrow> BIT n \<noteq> 0"
    using bit_BIT [of n n] bit_imp_le_length [of x n] by auto
  ultimately show ?thesis by auto
qed

section \<open>Numbers\<close>

definition c_min :: "int \<Rightarrow> int \<Rightarrow> int" where
  "c_min n m = (if n < m then n else m)"

definition c_max :: "int \<Rightarrow> int \<Rightarrow> int" where
  "c_max n m = (if n < m then m else n)"

text \<open>C's quotient is truncated towards zero, and its remainder has the sign of the dividend.\<close>

definition c_div :: "int \<Rightarrow> int \<Rightarrow> int" where
  "c_div a b = sgn a * sgn b * (\<bar>a\<bar> div \<bar>b\<bar>)"

definition c_rem :: "int \<Rightarrow> int \<Rightarrow> int" where
  "c_rem a b = sgn a * (\<bar>a\<bar> mod \<bar>b\<bar>)"

definition address_aligned :: "addr \<Rightarrow> int \<Rightarrow> bool" where
  "address_aligned a n \<longleftrightarrow> \<not> (c_rem (sint a) n \<noteq> 0)"

definition bswap32 :: "u32 \<Rightarrow> u32" where
  "bswap32 v =
     push_bit 24 (v AND 0x000000ff) OR push_bit 8 (v AND 0x0000ff00) OR
     drop_bit 8 (v AND 0x00ff0000) OR drop_bit 24 (v AND 0xff000000)"

section \<open>Memory areas\<close>

definition mzero :: "addr \<Rightarrow> int \<Rightarrow> ram \<Rightarrow> ram" where
  "mzero mem n m = fold (\<lambda>i m. m(mem + of_nat i := 0)) [0..<nat n] m"

definition mcopy :: "addr \<Rightarrow> addr \<Rightarrow> int \<Rightarrow> ram \<Rightarrow> ram" where
  "mcopy src dest n m = fold (\<lambda>i m. m(dest + of_nat i := m (src + of_nat i))) [0..<nat n] m"

fun mcmp_loop :: "ram \<Rightarrow> addr \<Rightarrow> addr \<Rightarrow> nat \<Rightarrow> nat \<Rightarrow> bool" where
  "mcmp_loop m mem1 mem2 i 0 = True"
| "mcmp_loop m mem1 mem2 i (Suc k) =
     (if m (mem1 + of_nat i) \<noteq> m (mem2 + of_nat i) then False
      else mcmp_loop m mem1 mem2 (Suc i) k)"

definition mcmp :: "addr \<Rightarrow> addr \<Rightarrow> int \<Rightarrow> ram \<Rightarrow> bool" where
  "mcmp mem1 mem2 n m = mcmp_loop m mem1 mem2 0 (nat n)"

section \<open>Address map\<close>

definition HEAP_RAM_ADDR :: addr where "HEAP_RAM_ADDR = 0x10000000"
definition DTB_RAM_ADDR :: addr where "DTB_RAM_ADDR = 0x8000000"
definition KERN_RAM_ADDR :: addr where "KERN_RAM_ADDR = 0x2000000"
definition IRQ_STACK_START_ADDR :: addr where "IRQ_STACK_START_ADDR = 0x1f00000"
definition SVC_STACK_START_ADDR :: addr where "SVC_STACK_START_ADDR = 0x1e00000"

definition heap_get_base_address :: addr where
  "heap_get_base_address = HEAP_RAM_ADDR"

lemmas addrmap_defs = HEAP_RAM_ADDR_def DTB_RAM_ADDR_def KERN_RAM_ADDR_def
  IRQ_STACK_START_ADDR_def SVC_STACK_START_ADDR_def heap_get_base_address_def

section \<open>Correctness\<close>

lemma c_div_nonneg [simp]: "0 \<le> a \<Longrightarrow> 0 < b \<Longrightarrow> c_div a b = a div b"
  by (simp add: c_div_def sgn_if)

lemma c_rem_nonneg [simp]: "0 \<le> a \<Longrightarrow> 0 < b \<Longrightarrow> c_rem a b = a mod b"
  by (simp add: c_rem_def sgn_if)

text \<open>
  Bit \<open>i\<close> of \<^verbatim>\<open>BITS(stop, start)\<close> is set exactly when it lies between the two
  bits, both inclusive.
\<close>

lemma bit_BITS:
  assumes "stop_bit \<le> 31"
  shows "bit (BITS stop_bit start_bit) i \<longleftrightarrow> start_bit \<le> i \<and> i \<le> stop_bit"
  using assms
  unfolding BITS_def bit_and_iff bit_push_bit_iff bit_drop_bit_eq bit_all_ones32 comp_def
  by (auto simp: possible_bit_word)

lemma bit_byte_masks:
  "bit (0x000000ff :: u32) i \<longleftrightarrow> i < 8"
  "bit (0x0000ff00 :: u32) i \<longleftrightarrow> 8 \<le> i \<and> i < 16"
  "bit (0x00ff0000 :: u32) i \<longleftrightarrow> 16 \<le> i \<and> i < 24"
  "bit (0xff000000 :: u32) i \<longleftrightarrow> 24 \<le> i \<and> i < 32"
proof -
  have eqs: "(0xff :: u32) = mask 8" "(0xff00 :: u32) = push_bit 8 (mask 8)"
    "(0xff0000 :: u32) = push_bit 16 (mask 8)" "(0xff000000 :: u32) = push_bit 24 (mask 8)"
    by (simp_all add: mask_eq_exp_minus_1 push_bit_eq_mult)
  show "bit (0x000000ff :: u32) i \<longleftrightarrow> i < 8"
    "bit (0x0000ff00 :: u32) i \<longleftrightarrow> 8 \<le> i \<and> i < 16"
    "bit (0x00ff0000 :: u32) i \<longleftrightarrow> 16 \<le> i \<and> i < 24"
    "bit (0xff000000 :: u32) i \<longleftrightarrow> 24 \<le> i \<and> i < 32"
    unfolding eqs bit_push_bit_iff bit_mask_iff by (auto simp: possible_bit_word)
qed

lemma bit_bswap32:
  "bit (bswap32 v) i \<longleftrightarrow>
     (i < 8 \<and> bit v (24 + i)) \<or> (8 \<le> i \<and> i < 16 \<and> bit v (8 + i)) \<or>
     (16 \<le> i \<and> i < 24 \<and> bit v (i - 8)) \<or> (24 \<le> i \<and> i < 32 \<and> bit v (i - 24))"
  unfolding bswap32_def bit_or_iff bit_push_bit_iff bit_drop_bit_eq comp_def bit_and_iff
    bit_byte_masks
  by (auto simp: possible_bit_word)

lemma bswap32_bytes: "bytes32 (bswap32 v) = rev (bytes32 v)"
proof -
  have "byte_of 0 (bswap32 v) = byte_of 3 v" "byte_of (Suc 0) (bswap32 v) = byte_of 2 v"
    "byte_of 2 (bswap32 v) = byte_of (Suc 0) v" "byte_of 3 (bswap32 v) = byte_of 0 v"
    by (rule bit_word_eqI, auto simp: bit_byte_of bit_bswap32)+
  then show ?thesis by (simp add: bytes32_def)
qed

lemma bswap32_bswap32 [simp]: "bswap32 (bswap32 v) = v"
proof -
  have "bytes32 (bswap32 (bswap32 v)) = bytes32 v" by (simp add: bswap32_bytes)
  then show ?thesis by (simp only: bytes32_inject)
qed

lemma sint_mod_4: "sint (a :: u32) mod 4 = uint a mod 4"
  by (simp add: uint_sint take_bit_eq_mod mod_mod_cancel)

lemma c_rem_eq_0: "c_rem x n = 0 \<longleftrightarrow> n dvd x"
  by (simp add: c_rem_def sgn_if mod_eq_0_iff_dvd)

lemma address_aligned_4: "address_aligned a 4 \<longleftrightarrow> unat a mod 4 = 0"
proof -
  have "address_aligned a 4 \<longleftrightarrow> sint a mod 4 = 0"
    by (simp add: address_aligned_def c_rem_eq_0 dvd_eq_mod_eq_0)
  also have "\<dots> \<longleftrightarrow> int (unat a mod 4) = 0"
    unfolding sint_mod_4 by (simp add: zmod_int)
  finally show ?thesis by simp
qed

lemma mzero_ram_write:
  assumes "nat n \<le> 2 ^ 32"
  shows "mzero a n m = ram_write m a (replicate (nat n) 0)"
proof -
  define step where "step = (\<lambda>i (m :: ram). m(a + of_nat i := 0))"
  have step: "fold step [0..<Suc k] m = (fold step [0..<k] m)(a + of_nat k := 0)" for k
    by (simp only: upt_Suc_append le0 fold_append fold_simps comp_apply step_def)
  have "k \<le> 2 ^ 32 \<Longrightarrow> fold step [0..<k] m = ram_write m a (replicate k 0)" for k
  proof (induction k)
    case (Suc k)
    then have "fold step [0..<Suc k] m = (ram_write m a (replicate k 0))(a + of_nat k := 0)"
      unfolding step by simp
    also have "\<dots> = ram_write m a (replicate (Suc k) 0)"
      using ram_write_snoc [of "replicate k 0" m a 0] Suc.prems
      by (simp add: replicate_append_same)
    finally show ?case .
  qed simp
  with assms show ?thesis unfolding mzero_def step_def by blast
qed

text \<open>
  C38. \<^verbatim>\<open>mcopy()\<close> copies upwards one byte at a time, so it is the bulk copy whenever no
  byte is overwritten before it has been read.
\<close>

theorem mcopy_spec:
  assumes "nat n \<le> 2 ^ 32" and "\<forall>i j. i < j \<and> j < nat n \<longrightarrow> dest + of_nat i \<noteq> src + of_nat j"
  shows "mcopy src dest n m = ram_write m dest (ram_bytes m src (nat n))"
proof -
  define step where "step = (\<lambda>i (m :: ram). m(dest + of_nat i := m (src + of_nat i)))"
  have step: "fold step [0..<Suc k] m =
      (fold step [0..<k] m)(dest + of_nat k := fold step [0..<k] m (src + of_nat k))" for k
    by (simp only: upt_Suc_append le0 fold_append fold_simps comp_apply step_def)
  have "k \<le> nat n \<Longrightarrow> fold step [0..<k] m = ram_write m dest (ram_bytes m src k)" for k
  proof (induction k)
    case (Suc k)
    have "src + of_nat k \<notin> region dest k"
    proof
      assume "src + of_nat k \<in> region dest k"
      then have "unat (src + of_nat k - dest) < k" by (simp add: region_def)
      moreover have "dest + of_nat (unat (src + of_nat k - dest)) = src + of_nat k" by simp
      ultimately show False using assms(2) Suc.prems by (metis Suc_le_lessD)
    qed
    then have "ram_write m dest (ram_bytes m src k) (src + of_nat k) = m (src + of_nat k)"
      by (intro ram_write_outside) simp
    moreover have "(ram_write m dest (ram_bytes m src k))
        (dest + of_nat (length (ram_bytes m src k)) := m (src + of_nat k)) =
      ram_write m dest (ram_bytes m src k @ [m (src + of_nat k)])"
      using Suc.prems assms(1) by (intro ram_write_snoc) simp
    ultimately show ?case using Suc unfolding step by (simp add: ram_bytes_snoc)
  qed simp
  then show ?thesis unfolding mcopy_def step_def by blast
qed

theorem mcopy_spec_witness:
  "\<forall>m. mcopy 0x8000 0x0 512 m = ram_write m 0x0 (ram_bytes m 0x8000 512)"
proof
  fix m
  have "(0x0 :: addr) + of_nat i \<noteq> 0x8000 + of_nat j" if "i < j \<and> j < nat 512" for i j
  proof
    assume "(0x0 :: addr) + of_nat i = 0x8000 + of_nat j"
    then have "(of_nat i :: addr) = of_nat (0x8000 + j)" by simp
    then have "unat (of_nat i :: addr) = unat (of_nat (0x8000 + j) :: addr)" by (simp only:)
    then show False using that by (simp add: unat_of_nat_lt del: of_nat_add)
  qed
  then show "mcopy 0x8000 0x0 512 m = ram_write m 0x0 (ram_bytes m 0x8000 512)"
    using mcopy_spec [of 512 "0x0" "0x8000" m] by simp
qed

lemma mcmp_spec: "mcmp a b n m \<longleftrightarrow> ram_bytes m a (nat n) = ram_bytes m b (nat n)"
proof -
  have "mcmp_loop m a b i k \<longleftrightarrow>
      ram_bytes m (a + of_nat i) k = ram_bytes m (b + of_nat i) k" for i k
  proof (induction k arbitrary: i)
    case (Suc k)
    have "x + of_nat (Suc i) = x + of_nat i + 1" for x :: addr by simp
    with Suc [of "Suc i"] show ?case by (simp add: ram_bytes_Cons del: of_nat_Suc)
  qed simp
  from this [of 0 "nat n"] show ?thesis by (simp add: mcmp_def)
qed

end
