(* ===== verification/Mmio.thy ===== *)
theory Mmio
  imports Helpers
begin

unbundle bit_operations_syntax

text \<open>
  \<^verbatim>\<open>src/bld/mmio.c\<close> and \<^verbatim>\<open>src/bld/mmio.h\<close>: access to memory-mapped registers. The
  register offsets of a peripheral are indexed by the enumeration of its registers, a
  datatype in this development, so a register selector is always in range. The memory
  barriers order accesses that the model performs in program order anyway.
\<close>

definition ARM_LO_MAIN_PERIPH_BASE_ADDR :: addr where
  "ARM_LO_MAIN_PERIPH_BASE_ADDR = 0xfc000000"

record 'r periph_access =
  periph_base_off :: u32
  register_offsets :: "'r \<Rightarrow> u32"

definition get_peripheral_reg_addr :: "'r periph_access \<Rightarrow> 'r \<Rightarrow> addr" where
  "get_peripheral_reg_addr periph sel =
     ARM_LO_MAIN_PERIPH_BASE_ADDR + periph_base_off periph + register_offsets periph sel"

definition bus_write :: "'d hw \<Rightarrow> addr \<Rightarrow> u32 \<Rightarrow> ('d, unit) io" where
  "bus_write hw a v = modify (\<lambda>s. s\<lparr>dev := mmio_write hw a v (dev s), trace := Wr a v # trace s\<rparr>)"

definition bus_read :: "'d hw \<Rightarrow> addr \<Rightarrow> ('d, u32) io" where
  "bus_read hw a = (\<lambda>s. let (v, d) = mmio_read hw a (dev s)
     in (Ret v, s\<lparr>dev := d, trace := Rd a v # trace s\<rparr>))"

definition register_set :: "'d hw \<Rightarrow> 'r periph_access \<Rightarrow> 'r \<Rightarrow> u32 \<Rightarrow> ('d, unit) io" where
  "register_set hw periph sel value = bus_write hw (get_peripheral_reg_addr periph sel) value"

text \<open>
  The pointer versions move the four bytes of a packed bit-field struct; the struct is
  given by the 32-bit value those bytes make.
\<close>

definition register_set_ptr :: "'d hw \<Rightarrow> 'r periph_access \<Rightarrow> 'r \<Rightarrow> u32 \<Rightarrow> ('d, unit) io" where
  "register_set_ptr hw periph sel value = register_set hw periph sel value"

definition register_get :: "'d hw \<Rightarrow> 'r periph_access \<Rightarrow> 'r \<Rightarrow> ('d, u32) io" where
  "register_get hw periph sel = bus_read hw (get_peripheral_reg_addr periph sel)"

definition register_get_out :: "'d hw \<Rightarrow> 'r periph_access \<Rightarrow> 'r \<Rightarrow> ('d, u32) io" where
  "register_get_out hw periph sel = bnd (register_get hw periph sel) (\<lambda>v. ret v)"

definition register_enable_bits :: "'d hw \<Rightarrow> 'r periph_access \<Rightarrow> 'r \<Rightarrow> u32 \<Rightarrow> ('d, unit) io" where
  "register_enable_bits hw periph sel mask_bits =
     bnd (register_get hw periph sel) (\<lambda>reg.
     register_set hw periph sel (reg OR mask_bits))"

definition register_disable_bits :: "'d hw \<Rightarrow> 'r periph_access \<Rightarrow> 'r \<Rightarrow> u32 \<Rightarrow> ('d, unit) io" where
  "register_disable_bits hw periph sel mask_bits =
     bnd (register_get hw periph sel) (\<lambda>reg.
     register_set hw periph sel (reg AND NOT mask_bits))"

section \<open>One access\<close>

abbreviation dev_read :: "'d hw \<Rightarrow> addr \<Rightarrow> 'd machine \<Rightarrow> u32" where
  "dev_read hw a s \<equiv> fst (mmio_read hw a (dev s))"

definition after_read :: "'d hw \<Rightarrow> addr \<Rightarrow> 'd machine \<Rightarrow> 'd machine" where
  "after_read hw a s = s\<lparr>dev := snd (mmio_read hw a (dev s)), trace := Rd a (dev_read hw a s) # trace s\<rparr>"

definition after_write :: "'d hw \<Rightarrow> addr \<Rightarrow> u32 \<Rightarrow> 'd machine \<Rightarrow> 'd machine" where
  "after_write hw a v s = s\<lparr>dev := mmio_write hw a v (dev s), trace := Wr a v # trace s\<rparr>"

lemma bus_read_run [run_simps]: "bus_read hw a s = (Ret (dev_read hw a s), after_read hw a s)"
  by (simp add: bus_read_def after_read_def split: prod.splits)

lemma bus_write_run [run_simps]: "bus_write hw a v s = (Ret (), after_write hw a v s)"
  by (simp add: bus_write_def after_write_def modify_def)

lemma register_run [run_simps]:
  "register_get hw p r s = (Ret (dev_read hw (get_peripheral_reg_addr p r) s),
     after_read hw (get_peripheral_reg_addr p r) s)"
  "register_get_out hw p r s = (Ret (dev_read hw (get_peripheral_reg_addr p r) s),
     after_read hw (get_peripheral_reg_addr p r) s)"
  "register_set hw p r v s = (Ret (), after_write hw (get_peripheral_reg_addr p r) v s)"
  "register_set_ptr hw p r v s = (Ret (), after_write hw (get_peripheral_reg_addr p r) v s)"
  by (simp_all add: register_get_def register_get_out_def register_set_def
      register_set_ptr_def bus_read_run bus_write_run bnd_def ret_def)

lemma bnd_register_run [run_simps]:
  "bnd (register_get hw p r) f s = f (dev_read hw (get_peripheral_reg_addr p r) s)
     (after_read hw (get_peripheral_reg_addr p r) s)"
  "bnd (register_get_out hw p r) f s = f (dev_read hw (get_peripheral_reg_addr p r) s)
     (after_read hw (get_peripheral_reg_addr p r) s)"
  "bnd (register_set hw p r v) g s = g () (after_write hw (get_peripheral_reg_addr p r) v s)"
  "bnd (register_set_ptr hw p r v) g s = g () (after_write hw (get_peripheral_reg_addr p r) v s)"
  "bnd (bus_read hw a) f s = f (dev_read hw a s) (after_read hw a s)"
  "bnd (bus_write hw a v) g s = g () (after_write hw a v s)"
  by (simp_all add: bnd_def register_run bus_read_run bus_write_run)

lemma after_access_simps [simp]:
  "ram (after_read hw a s) = ram s" "sdcard (after_read hw a s) = sdcard s"
  "cpsr (after_read hw a s) = cpsr s"
  "queued_timer_irq_serviced (after_read hw a s) = queued_timer_irq_serviced s"
  "trace (after_read hw a s) = Rd a (dev_read hw a s) # trace s"
  "dev (after_read hw a s) = snd (mmio_read hw a (dev s))"
  "ram (after_write hw a v s) = ram s" "sdcard (after_write hw a v s) = sdcard s"
  "cpsr (after_write hw a v s) = cpsr s"
  "queued_timer_irq_serviced (after_write hw a v s) = queued_timer_irq_serviced s"
  "trace (after_write hw a v s) = Wr a v # trace s"
  "dev (after_write hw a v s) = mmio_write hw a v (dev s)"
  by (simp_all add: after_read_def after_write_def)

section \<open>Frame rules for register access\<close>

text \<open>
  A relation \<open>R\<close> that every register access respects, but for accesses to the addresses
  \<open>A\<close>. The exceptions lie within the registers of the SD controller, so that everything
  that only uses the other peripherals, the log above all, respects \<open>R\<close> without further ado;
  with no exception, \<open>R\<close> is a frame condition on RAM or on the card bookkeeping, with some,
  it says that a history of accesses to them is unchanged.
\<close>

definition sd_page :: "addr set" where
  "sd_page = {a. 0xfe340000 \<le> a \<and> a < 0xfe340100}"

locale access_relation = run_relation R
  for R :: "'d machine \<Rightarrow> 'd machine \<Rightarrow> bool" +
  fixes hw :: "'d hw" and A :: "addr set"
  assumes A_sd: "A \<subseteq> sd_page"
    and R_read: "a \<notin> A \<Longrightarrow> R s (after_read hw a s)"
    and R_write: "a \<notin> A \<Longrightarrow> R s (after_write hw a v s)"
begin

lemma not_sd: "a \<notin> sd_page \<Longrightarrow> a \<notin> A"
  using A_sd by blast

lemma guar_bus: "a \<notin> A \<Longrightarrow> guar R (bus_read hw a)" "a \<notin> A \<Longrightarrow> guar R (bus_write hw a v)"
  by (simp_all add: guar_def bus_read_run bus_write_run R_read R_write)

lemma guar_register:
  "get_peripheral_reg_addr p r \<notin> A \<Longrightarrow> guar R (register_get hw p r)"
  "get_peripheral_reg_addr p r \<notin> A \<Longrightarrow> guar R (register_get_out hw p r)"
  "get_peripheral_reg_addr p r \<notin> A \<Longrightarrow> guar R (register_set hw p r v)"
  "get_peripheral_reg_addr p r \<notin> A \<Longrightarrow> guar R (register_set_ptr hw p r v)"
  by (simp_all add: guar_def register_run R_read R_write)

lemma guar_register_bits:
  "get_peripheral_reg_addr p r \<notin> A \<Longrightarrow> guar R (register_enable_bits hw p r m)"
  "get_peripheral_reg_addr p r \<notin> A \<Longrightarrow> guar R (register_disable_bits hw p r m)"
  unfolding register_enable_bits_def register_disable_bits_def
  by (intro guar_bnd guar_register; assumption)+

lemmas guar_access = guar_bus guar_register guar_register_bits

end

interpretation same_ram: access_relation same_ram hw "{}" for hw :: "'d hw"
  by unfold_locales (simp_all add: same_ram_def)

interpretation same_card: access_relation same_card hw "{}" for hw :: "'d hw"
  by unfold_locales (simp_all add: same_card_def)

interpretation same_except: access_relation "same_except X" hw "{}" for hw :: "'d hw" and X
  by unfold_locales (simp_all add: same_except_def)

text \<open>The history of accesses to the addresses \<open>A\<close> is unchanged.\<close>

fun event_addr :: "bus_event \<Rightarrow> addr" where
  "event_addr (Rd a v) = a"
| "event_addr (Wr a v) = a"

definition history :: "addr set \<Rightarrow> 'd machine \<Rightarrow> bus_event list" where
  "history A s = rev (filter (\<lambda>e. event_addr e \<in> A) (trace s))"

definition untouched :: "addr set \<Rightarrow> 'd machine \<Rightarrow> 'd machine \<Rightarrow> bool" where
  "untouched A s t \<longleftrightarrow> history A t = history A s"

lemma history_access [simp]:
  "history A (after_read hw a s) = history A s @ (if a \<in> A then [Rd a (dev_read hw a s)] else [])"
  "history A (after_write hw a v s) = history A s @ (if a \<in> A then [Wr a v] else [])"
  by (simp_all add: history_def)

lemma history_update [simp]:
  "history A (s\<lparr>ram := m\<rparr>) = history A s" "history A (s\<lparr>sdcard := c\<rparr>) = history A s"
  "history A (s\<lparr>queued_timer_irq_serviced := b\<rparr>) = history A s"
  by (simp_all add: history_def)

interpretation untouched: access_relation "untouched (A \<inter> sd_page)" hw "A \<inter> sd_page" for hw :: "'d hw" and A
  by unfold_locales (simp_all add: untouched_def)

section \<open>Set and clear bits\<close>

text \<open>A register that reads as it was last written.\<close>

definition storage_register :: "'d hw \<Rightarrow> addr \<Rightarrow> bool" where
  "storage_register hw a \<longleftrightarrow>
     (\<forall>d v. fst (mmio_read hw a (mmio_write hw a v d)) = v)"

text \<open>
  C40. On a register that behaves as plain storage, enabling bits sets exactly the bits of
  the mask and disabling them clears exactly those, and all others keep their value.
\<close>

theorem register_bits_spec:
  assumes "storage_register hw (get_peripheral_reg_addr p r)"
    and "register_enable_bits hw p r m s = (x, t)"
    and "register_disable_bits hw p r m s = (y, u)"
  defines "a \<equiv> get_peripheral_reg_addr p r"
  shows "(bit (dev_read hw a t) i \<longleftrightarrow> bit (dev_read hw a s) i \<or> bit m i) \<and>
    (bit (dev_read hw a u) i \<longleftrightarrow> bit (dev_read hw a s) i \<and> \<not> bit m i)"
  using assms bit_imp_le_length [of "dev_read hw a s" i]
  by (auto simp: register_enable_bits_def register_disable_bits_def run_simps
      storage_register_def bit_or_iff bit_and_iff bit_not_iff possible_bit_word)

text \<open>A board whose only register holds the word \<open>d\<close>, and a state of it.\<close>

definition latch_board :: "u32 hw" where
  "latch_board = \<lparr>mmio_read = (\<lambda>a d. (d, d)), mmio_write = (\<lambda>a v d. v), vc_respond = (\<lambda>d m. m),
     uninit = (\<lambda>_. 0), poll_fuel = 0\<rparr>"

definition latch_access :: "unit periph_access" where
  "latch_access = \<lparr>periph_base_off = 0, register_offsets = (\<lambda>_. 0)\<rparr>"

definition latch_machine :: "u32 machine" where
  "latch_machine = \<lparr>ram = (\<lambda>_. 0), dev = 0x50,
     sdcard = \<lparr>cstate = CARD_STATE_IDLE, sdhc_or_sdxc = False, card_rca = 0, cmd23_supported = False\<rparr>,
     queued_timer_irq_serviced = False, cpsr = 0, trace = []\<rparr>"

theorem register_bits_spec_witness:
  "\<exists>t u. register_enable_bits latch_board latch_access () 0x11 latch_machine = (Ret (), t) \<and>
     register_disable_bits latch_board latch_access () 0x11 latch_machine = (Ret (), u) \<and>
     bit (dev t) 0 \<and> bit (dev t) 6 \<and> \<not> bit (dev u) 4 \<and> bit (dev u) 6"
proof -
  have st: "storage_register latch_board (get_peripheral_reg_addr latch_access ())"
    by (simp add: storage_register_def latch_board_def)
  obtain t where t: "register_enable_bits latch_board latch_access () 0x11 latch_machine = (Ret (), t)"
    by (simp add: register_enable_bits_def run_simps)
  obtain u where u: "register_disable_bits latch_board latch_access () 0x11 latch_machine = (Ret (), u)"
    by (simp add: register_disable_bits_def run_simps)
  show ?thesis
    using t u register_bits_spec [OF st t u, of 0] register_bits_spec [OF st t u, of 4]
      register_bits_spec [OF st t u, of 6]
    by (simp add: latch_board_def latch_machine_def)
qed

end
