(* ===== verification/Timer.thy ===== *)
theory Timer
  imports Mmio
begin

unbundle bit_operations_syntax

text \<open>
  \<^verbatim>\<open>src/bld/timer.c\<close>, \<^verbatim>\<open>src/bld/gic.h\<close>: the 1 MHz system timer. Ticks are the low
  32 bits of the free running counter, so a deadline is computed modulo \<open>2 ^ 32\<close>.
  \<^verbatim>\<open>usleep()\<close> is the polled implementation, the one compiled with \<^verbatim>\<open>ENABLE_GIC\<close>;
  the interrupt-driven parts \<^verbatim>\<open>timer_queue_irq()\<close> and \<^verbatim>\<open>timer_isr()\<close> are modelled
  as operations, the \<^verbatim>\<open>wfi\<close> loop that would wait for them is not compiled.

  \<^verbatim>\<open>timer_poll_start()\<close> and \<^verbatim>\<open>timer_queue_irq()\<close> add a counter value to a delay as
  \<^verbatim>\<open>int\<close>s. C leaves that sum undefined when it crosses \<open>2 ^ 31\<close>, some 36 minutes after the
  counter was reset; the model takes it as the addition instruction does, modulo
  \<open>2 ^ 32\<close>, which is also what the comments of \<^verbatim>\<open>timer.h\<close> on overflow describe.
\<close>

definition ENABLE_GIC :: bool where "ENABLE_GIC = True"

datatype timer_register = CS | CLO | C0 | C1 | C2 | C3

fun timer_register_offset :: "timer_register \<Rightarrow> u32" where
  "timer_register_offset CS = 0x00"
| "timer_register_offset CLO = 0x04"
| "timer_register_offset C0 = 0x0c"
| "timer_register_offset C1 = 0x10"
| "timer_register_offset C2 = 0x14"
| "timer_register_offset C3 = 0x18"

definition timer_access :: "timer_register periph_access" where
  "timer_access = \<lparr>periph_base_off = 0x2003000, register_offsets = timer_register_offset\<rparr>"

definition CS_MATCH1 :: u32 where "CS_MATCH1 = BIT 1"

definition COUNTER_CLK_CPMS :: int where "COUNTER_CLK_CPMS = 1000"

definition ms_to_us :: "int \<Rightarrow> int" where
  "ms_to_us ms = ms * COUNTER_CLK_CPMS"

definition timer_queue_irq :: "'d hw \<Rightarrow> int \<Rightarrow> ('d, unit) io" where
  "timer_queue_irq hw microseconds =
     bnd (register_get hw timer_access CLO) (\<lambda>current_ticks.
     bnd (modify (\<lambda>s. s\<lparr>queued_timer_irq_serviced := False\<rparr>)) (\<lambda>_.
     register_set hw timer_access C1 (current_ticks + of_int microseconds)))"

definition timer_isr :: "'d hw \<Rightarrow> ('d, unit) io" where
  "timer_isr hw =
     bnd (register_set hw timer_access C1 0) (\<lambda>_.
     bnd (register_enable_bits hw timer_access CS CS_MATCH1) (\<lambda>_.
     modify (\<lambda>s. s\<lparr>queued_timer_irq_serviced := True\<rparr>)))"

primrec usleep_loop :: "'d hw \<Rightarrow> u32 \<Rightarrow> nat \<Rightarrow> ('d, unit) io" where
  "usleep_loop hw end_ticks 0 = stop Hang"
| "usleep_loop hw end_ticks (Suc k) =
     bnd (register_get hw timer_access CLO) (\<lambda>now.
     if now < end_ticks then usleep_loop hw end_ticks k else ret ())"

definition usleep :: "'d hw \<Rightarrow> int \<Rightarrow> ('d, unit) io" where
  "usleep hw microseconds =
     bnd (register_get hw timer_access CLO) (\<lambda>now.
     usleep_loop hw (now + of_int microseconds) (poll_fuel hw))"

definition sleep :: "'d hw \<Rightarrow> int \<Rightarrow> ('d, unit) io" where
  "sleep hw milliseconds = usleep hw (ms_to_us milliseconds)"

type_synonym timestamp_t = u32

definition timer_poll_start :: "'d hw \<Rightarrow> int \<Rightarrow> ('d, timestamp_t) io" where
  "timer_poll_start hw milliseconds =
     bnd (register_get hw timer_access CLO) (\<lambda>current_ticks.
     ret (current_ticks + of_int (ms_to_us milliseconds)))"

definition timer_poll_done :: "'d hw \<Rightarrow> timestamp_t \<Rightarrow> ('d, bool) io" where
  "timer_poll_done hw ts =
     bnd (register_get hw timer_access CLO) (\<lambda>current_ticks.
     ret (ts \<le> current_ticks))"

definition timer_current :: "'d hw \<Rightarrow> ('d, timestamp_t) io" where
  "timer_current hw = register_get hw timer_access CLO"

section \<open>Frame\<close>

abbreviation CLO_addr :: addr where
  "CLO_addr \<equiv> get_peripheral_reg_addr timer_access CLO"

lemma timer_run [run_simps]:
  "timer_poll_start hw ms s =
     (Ret (dev_read hw CLO_addr s + of_int (ms_to_us ms)), after_read hw CLO_addr s)"
  "timer_poll_done hw ts s = (Ret (ts \<le> dev_read hw CLO_addr s), after_read hw CLO_addr s)"
  "timer_current hw s = (Ret (dev_read hw CLO_addr s), after_read hw CLO_addr s)"
  by (simp_all add: timer_poll_start_def timer_poll_done_def timer_current_def run_simps)

lemma bnd_timer_run [run_simps]:
  "bnd (timer_poll_start hw ms) f s =
     f (dev_read hw CLO_addr s + of_int (ms_to_us ms)) (after_read hw CLO_addr s)"
  "bnd (timer_poll_done hw ts) g s = g (ts \<le> dev_read hw CLO_addr s) (after_read hw CLO_addr s)"
  "bnd (timer_current hw) h s = h (dev_read hw CLO_addr s) (after_read hw CLO_addr s)"
  by (simp_all add: bnd_def run_simps)

context access_relation
begin

lemma timer_not_A: "get_peripheral_reg_addr timer_access r \<notin> A"
  by (rule not_sd) (cases r; simp add: sd_page_def get_peripheral_reg_addr_def timer_access_def
      ARM_LO_MAIN_PERIPH_BASE_ADDR_def)

lemma guar_timer_poll:
  "guar R (timer_poll_start hw ms)" "guar R (timer_poll_done hw ts)" "guar R (timer_current hw)"
  unfolding timer_poll_start_def timer_poll_done_def timer_current_def
  by (intro guar_rules guar_access timer_not_A)+

lemma guar_usleep_loop: "guar R (usleep_loop hw e k)"
  by (induction k) (auto intro!: guar_rules guar_access timer_not_A)

lemma guar_sleep: "guar R (usleep hw us)" "guar R (sleep hw ms)"
  unfolding usleep_def sleep_def by (intro guar_rules guar_access timer_not_A guar_usleep_loop)+

lemmas guar_timer = guar_timer_poll guar_sleep

end

section \<open>The clock\<close>

text \<open>
  What the driver relies on: \<open>clk\<close> is the full value of the free running counter; a
  read of the low word returns its low 32 bits and takes at least one tick, and no bus
  access takes more than \<open>B\<close> ticks or turns the counter back.
\<close>

definition steady_clock :: "'d hw \<Rightarrow> ('d \<Rightarrow> nat) \<Rightarrow> nat \<Rightarrow> bool" where
  "steady_clock hw clk B \<longleftrightarrow>
     (\<forall>d. fst (mmio_read hw CLO_addr d) = of_nat (clk d) \<and>
          clk d < clk (snd (mmio_read hw CLO_addr d))) \<and>
     (\<forall>a d. clk d \<le> clk (snd (mmio_read hw a d)) \<and> clk (snd (mmio_read hw a d)) \<le> clk d + B) \<and>
     (\<forall>a v d. clk d \<le> clk (mmio_write hw a v d) \<and> clk (mmio_write hw a v d) \<le> clk d + B)"

abbreviation now :: "('d \<Rightarrow> nat) \<Rightarrow> 'd machine \<Rightarrow> nat" where
  "now clk s \<equiv> clk (dev s)"

lemma steady_clockD:
  assumes "steady_clock hw clk B"
  shows "dev_read hw CLO_addr s = of_nat (now clk s)"
    and "now clk s < now clk (after_read hw CLO_addr s)"
    and "now clk s \<le> now clk (after_read hw a s)"
    and "now clk (after_read hw a s) \<le> now clk s + B"
    and "now clk s \<le> now clk (after_write hw a v s)"
    and "now clk (after_write hw a v s) \<le> now clk s + B"
  using assms by (simp_all add: steady_clock_def)

text \<open>A board with nothing but the timer, whose counter takes one tick per read of its low word.\<close>

definition tick_board :: "nat \<Rightarrow> nat hw" where
  "tick_board fuel =
     \<lparr>mmio_read = (\<lambda>a d. if a = CLO_addr then (of_nat d, Suc d) else (0, d)),
      mmio_write = (\<lambda>a v d. d), vc_respond = (\<lambda>d m. m), uninit = (\<lambda>_. 0), poll_fuel = fuel\<rparr>"

definition blank_machine :: "'d \<Rightarrow> 'd machine" where
  "blank_machine d = \<lparr>ram = (\<lambda>_. 0), dev = d,
     sdcard = \<lparr>cstate = CARD_STATE_IDLE, sdhc_or_sdxc = False, card_rca = 0, cmd23_supported = False\<rparr>,
     queued_timer_irq_serviced = False, cpsr = 0, trace = []\<rparr>"

lemma tick_board_steady: "steady_clock (tick_board fuel) id 1"
  by (simp add: steady_clock_def tick_board_def)

lemma blank_machine_simps [simp]:
  "dev (blank_machine d) = d" "trace (blank_machine d) = []" "ram (blank_machine d) a = 0"
  by (simp_all add: blank_machine_def)

lemma usleep_loop_ends:
  assumes "steady_clock hw clk B" and "e + B < 2 ^ 32" and "now clk s \<le> e + B"
    and "e < now clk s + k" and "0 < k"
  shows "\<exists>t. usleep_loop hw (of_nat e) k s = (Ret (), t) \<and> e < now clk t \<and> now clk t \<le> e + 2 * B"
  using assms(3-5)
proof (induction k arbitrary: s)
  case (Suc k)
  let ?s' = "after_read hw CLO_addr s"
  note c = steady_clockD [OF assms(1)]
  have lt: "(of_nat (now clk s) < (of_nat e :: u32)) \<longleftrightarrow> now clk s < e"
    using Suc.prems assms(2) by (simp add: word_less_nat_alt unat_of_nat_lt)
  show ?case
  proof (cases "now clk s < e")
    case True
    have "now clk ?s' \<le> e + B" "e < now clk ?s' + k" "0 < k"
      using c(2) [of s] c(4) [of CLO_addr s] True Suc.prems by linarith+
    from Suc.IH [OF this] show ?thesis using True lt c(1) [of s] by (simp add: run_simps)
  next
    case False
    then show ?thesis using lt c(1) [of s] c(2) [of s] c(4) [of CLO_addr s] Suc.prems
      by (simp add: run_simps)
  qed
qed simp

lemma usleep_waits:
  assumes "steady_clock hw clk B" and "0 \<le> us" and "now clk s + nat us + B < 2 ^ 32"
    and "nat us < poll_fuel hw" and "B \<le> nat us"
  shows "\<exists>t. usleep hw us s = (Ret (), t) \<and>
    now clk s + nat us < now clk t \<and> now clk t \<le> now clk s + nat us + 2 * B"
proof -
  let ?s = "after_read hw CLO_addr s" and ?e = "now clk s + nat us"
  note c = steady_clockD [OF assms(1)]
  have e: "dev_read hw CLO_addr s + of_int us = of_nat ?e"
    using c(1) [of s] assms(2) by simp
  have "now clk ?s \<le> ?e + B" "?e < now clk ?s + poll_fuel hw" "0 < poll_fuel hw"
    using c(2) [of s] c(4) [of CLO_addr s] assms(4,5) by linarith+
  from usleep_loop_ends [OF assms(1) assms(3) this] show ?thesis
    by (simp add: usleep_def run_simps e)
qed

text \<open>
  C25. The polled sleep returns, and it has then waited more than the requested number of
  milliseconds and at most two bus accesses longer, when the low word of the counter does
  not overflow meanwhile.
\<close>

theorem sleep_waits:
  assumes "steady_clock hw clk B" and "0 < ms" and "now clk s + 1000 * nat ms + B < 2 ^ 32"
    and "1000 * nat ms < poll_fuel hw" and "B \<le> 1000"
  shows "\<exists>t. sleep hw ms s = (Ret (), t) \<and>
    now clk s + 1000 * nat ms < now clk t \<and> now clk t \<le> now clk s + 1000 * nat ms + 2 * B"
proof -
  have us: "nat (ms_to_us ms) = 1000 * nat ms" "0 \<le> ms_to_us ms"
    using assms(2) by (simp_all add: ms_to_us_def COUNTER_CLK_CPMS_def nat_mult_distrib)
  have "B \<le> nat (ms_to_us ms)" using assms(2,5) unfolding us by (cases "nat ms") simp_all
  then show ?thesis
    using usleep_waits [OF assms(1) us(2), of s] assms(3,4) unfolding us(1) sleep_def by blast
qed

theorem sleep_waits_witness:
  "\<exists>t. sleep (tick_board 3000) 2 (blank_machine 7) = (Ret (), t) \<and> 2007 < dev t \<and> dev t \<le> 2009"
  using sleep_waits [OF tick_board_steady [of 3000], of 2 "blank_machine 7"]
  by (simp add: tick_board_def)

text \<open>
  C30. A polling deadline: until the low word of the counter overflows,
  \<^verbatim>\<open>timer_poll_done()\<close> answers whether the requested number of milliseconds has passed
  since \<^verbatim>\<open>timer_poll_start()\<close>.
\<close>

theorem timer_poll_spec:
  assumes "steady_clock hw clk B" and "timer_poll_start hw ms s = (Ret ts, s1)" and "0 \<le> ms"
    and "timer_poll_done hw ts u = (Ret b, v)"
    and "now clk s + 1000 * nat ms < 2 ^ 32" and "now clk u < 2 ^ 32"
  shows "b \<longleftrightarrow> now clk s + 1000 * nat ms \<le> now clk u"
proof -
  have ts: "ts = of_nat (now clk s + 1000 * nat ms)"
    using assms(2,3) steady_clockD(1) [OF assms(1), of s]
    by (auto simp: run_simps ms_to_us_def COUNTER_CLK_CPMS_def)
  have "b \<longleftrightarrow> ts \<le> of_nat (now clk u)"
    using assms(4) steady_clockD(1) [OF assms(1), of u] by (auto simp: run_simps)
  then show ?thesis unfolding ts of_nat_le32 [OF assms(5,6)] .
qed

theorem timer_poll_spec_witness:
  "timer_poll_start (tick_board 9) 2 (blank_machine 7) =
     (Ret 2007, after_read (tick_board 9) CLO_addr (blank_machine 7)) \<and>
   timer_poll_done (tick_board 9) 2007 (blank_machine 2006) =
     (Ret False, after_read (tick_board 9) CLO_addr (blank_machine 2006)) \<and>
   (False \<longleftrightarrow> 7 + 1000 * nat 2 \<le> (2006 :: nat))"
proof -
  have 1: "timer_poll_start (tick_board 9) 2 (blank_machine 7) =
     (Ret 2007, after_read (tick_board 9) CLO_addr (blank_machine 7))"
    by (simp add: run_simps tick_board_def ms_to_us_def COUNTER_CLK_CPMS_def)
  have 2: "timer_poll_done (tick_board 9) 2007 (blank_machine 2006) =
     (Ret False, after_read (tick_board 9) CLO_addr (blank_machine 2006))"
    by (simp add: run_simps tick_board_def)
  show ?thesis using 1 2 timer_poll_spec [OF tick_board_steady 1 _ 2] by simp
qed

text \<open>
  C31. The overflow the header file warns of: a deadline that wraps around is taken to have
  passed at once, at every poll from the start until the counter itself wraps.
\<close>

theorem timer_poll_wraps:
  assumes "steady_clock hw clk B" and "timer_poll_start hw ms s = (Ret ts, s1)" and "0 \<le> ms"
    and "1000 * nat ms < 2 ^ 32" and "now clk s < 2 ^ 32" and "2 ^ 32 \<le> now clk s + 1000 * nat ms"
    and "now clk s \<le> now clk u" and "now clk u < 2 ^ 32"
  shows "timer_poll_done hw ts u = (Ret True, after_read hw CLO_addr u)"
proof -
  let ?n = "now clk s + 1000 * nat ms"
  have "ts = of_nat ?n"
    using assms(2,3) steady_clockD(1) [OF assms(1), of s]
    by (auto simp: run_simps ms_to_us_def COUNTER_CLK_CPMS_def)
  moreover have "unat (of_nat ?n :: u32) = ?n - 2 ^ 32"
  proof -
    have "unat (of_nat ?n :: u32) = ?n mod 2 ^ 32"
      by (simp only: unat_of_nat take_bit_eq_mod) simp
    then show ?thesis using assms(4-6) by (simp add: mod_if [of ?n])
  qed
  ultimately have "ts \<le> of_nat (now clk u)"
    using assms(4-8) by (simp add: word_le_nat_alt unat_of_nat_lt)
  then show ?thesis using steady_clockD(1) [OF assms(1), of u] by (simp add: run_simps)
qed

theorem timer_poll_wraps_witness:
  "timer_poll_done (tick_board 9) 999 (blank_machine 4294967295) =
     (Ret True, after_read (tick_board 9) CLO_addr (blank_machine 4294967295))"
proof -
  have 1: "timer_poll_start (tick_board 9) 1 (blank_machine 4294967295) =
     (Ret 999, after_read (tick_board 9) CLO_addr (blank_machine 4294967295))"
    by (simp add: run_simps tick_board_def ms_to_us_def COUNTER_CLK_CPMS_def)
  show ?thesis
    by (rule timer_poll_wraps [OF tick_board_steady 1]) simp_all
qed

end
