(* ===== verification/Gpio.thy ===== *)
theory Gpio
  imports Timer
begin

unbundle bit_operations_syntax

text \<open>
  \<^verbatim>\<open>src/bld/gpio.c\<close>, \<^verbatim>\<open>src/bld/led.c\<close> and \<^verbatim>\<open>src/bld/error.c\<close>: GPIO pins, the LED
  and the error signal. \<^verbatim>\<open>signal_error()\<close> never returns; it initialises the LED and then
  repeats \<open>signal_round\<close> for ever, which is the outcome \<open>Signal\<close> of a program.
\<close>

section \<open>GPIO\<close>

datatype gpio_register =
  GPFSEL0 | GPFSEL1 | GPFSEL2 | GPFSEL3 | GPFSEL4 | GPFSEL5 | GPSET0 | GPSET1 | GPCLR0 | GPCLR1

fun gpio_register_offset :: "gpio_register \<Rightarrow> u32" where
  "gpio_register_offset GPFSEL0 = 0x00"
| "gpio_register_offset GPFSEL1 = 0x04"
| "gpio_register_offset GPFSEL2 = 0x08"
| "gpio_register_offset GPFSEL3 = 0x0c"
| "gpio_register_offset GPFSEL4 = 0x10"
| "gpio_register_offset GPFSEL5 = 0x14"
| "gpio_register_offset GPSET0 = 0x1c"
| "gpio_register_offset GPSET1 = 0x20"
| "gpio_register_offset GPCLR0 = 0x28"
| "gpio_register_offset GPCLR1 = 0x2c"

definition gpio_access :: "gpio_register periph_access" where
  "gpio_access = \<lparr>periph_base_off = 0x2200000, register_offsets = gpio_register_offset\<rparr>"

text \<open>\<^verbatim>\<open>enum gpio_pin\<close> and \<^verbatim>\<open>enum gpio_op\<close>, by their values.\<close>

definition GPIO_PIN_TXD1 :: nat where "GPIO_PIN_TXD1 = 14"
definition GPIO_PIN_LED :: nat where "GPIO_PIN_LED = 42"

datatype gpio_op =
    GPIO_OP_INPUT | GPIO_OP_OUTPUT | GPIO_OP_ALT_FN_0 | GPIO_OP_ALT_FN_1 | GPIO_OP_ALT_FN_2
  | GPIO_OP_ALT_FN_3 | GPIO_OP_ALT_FN_4 | GPIO_OP_ALT_FN_5

fun gpio_op_value :: "gpio_op \<Rightarrow> u32" where
  "gpio_op_value GPIO_OP_INPUT = 0"
| "gpio_op_value GPIO_OP_OUTPUT = 1"
| "gpio_op_value GPIO_OP_ALT_FN_0 = 4"
| "gpio_op_value GPIO_OP_ALT_FN_1 = 5"
| "gpio_op_value GPIO_OP_ALT_FN_2 = 6"
| "gpio_op_value GPIO_OP_ALT_FN_3 = 7"
| "gpio_op_value GPIO_OP_ALT_FN_4 = 3"
| "gpio_op_value GPIO_OP_ALT_FN_5 = 2"

definition PINS_PER_GPFSEL :: nat where "PINS_PER_GPFSEL = 10"
definition GPIO_OP_BITS :: nat where "GPIO_OP_BITS = 3"
definition PINS_PER_SETCLR :: nat where "PINS_PER_SETCLR = 32"

definition gpfsel_regs :: "gpio_register list" where
  "gpfsel_regs = [GPFSEL0, GPFSEL1, GPFSEL2, GPFSEL3, GPFSEL4, GPFSEL5]"

text \<open>A pin beyond the table of six registers would index it out of range.\<close>

definition gpio_pin_select_op :: "'d hw \<Rightarrow> nat \<Rightarrow> gpio_op \<Rightarrow> ('d, unit) io" where
  "gpio_pin_select_op hw pin op =
     (let gpfsel_index = pin div PINS_PER_GPFSEL;
          shift = (pin mod PINS_PER_GPFSEL) * GPIO_OP_BITS
      in if gpfsel_index < length gpfsel_regs
         then register_set hw gpio_access (gpfsel_regs ! gpfsel_index)
                (push_bit shift (gpio_op_value op))
         else stop Undef)"

definition gpio_pin_setclr :: "'d hw \<Rightarrow> nat \<Rightarrow> gpio_register \<Rightarrow> gpio_register \<Rightarrow> ('d, unit) io" where
  "gpio_pin_setclr hw pin reg0 reg1 =
     (let regnr = pin div PINS_PER_SETCLR
      in if regnr = 0 then register_set hw gpio_access reg0 (push_bit pin 1)
         else if regnr = 1 then register_set hw gpio_access reg1 (push_bit (pin mod PINS_PER_SETCLR) 1)
         else ret ())"

definition gpio_pin_set :: "'d hw \<Rightarrow> nat \<Rightarrow> ('d, unit) io" where
  "gpio_pin_set hw pin = gpio_pin_setclr hw pin GPSET0 GPSET1"

definition gpio_pin_clr :: "'d hw \<Rightarrow> nat \<Rightarrow> ('d, unit) io" where
  "gpio_pin_clr hw pin = gpio_pin_setclr hw pin GPCLR0 GPCLR1"

section \<open>LED\<close>

definition led_init :: "'d hw \<Rightarrow> ('d, unit) io" where
  "led_init hw = gpio_pin_select_op hw GPIO_PIN_LED GPIO_OP_OUTPUT"

definition led_turn_on :: "'d hw \<Rightarrow> ('d, unit) io" where
  "led_turn_on hw = gpio_pin_set hw GPIO_PIN_LED"

definition led_turn_off :: "'d hw \<Rightarrow> ('d, unit) io" where
  "led_turn_off hw = gpio_pin_clr hw GPIO_PIN_LED"

section \<open>Error signal\<close>

definition SHORT_PAUSE_MS :: int where "SHORT_PAUSE_MS = 370"
definition LONG_PAUSE_MS :: int where "LONG_PAUSE_MS = 2250"

text \<open>The inner loop \<^verbatim>\<open>for (int i = error; i--;)\<close>; the body sees the decremented counter.\<close>

primrec signal_blinks :: "'d hw \<Rightarrow> nat \<Rightarrow> ('d, unit) io" where
  "signal_blinks hw 0 = ret ()"
| "signal_blinks hw (Suc i) =
     bnd (led_turn_on hw) (\<lambda>_.
     bnd (sleep hw SHORT_PAUSE_MS) (\<lambda>_.
     bnd (led_turn_off hw) (\<lambda>_.
     bnd (when_io (i \<noteq> 0) (sleep hw SHORT_PAUSE_MS)) (\<lambda>_.
     signal_blinks hw i))))"

definition signal_round :: "'d hw \<Rightarrow> error_code \<Rightarrow> ('d, unit) io" where
  "signal_round hw error =
     bnd (sleep hw LONG_PAUSE_MS) (\<lambda>_. signal_blinks hw (error_value error))"

definition signal_error :: "'d hw \<Rightarrow> error_code \<Rightarrow> ('d, 'a) io" where
  "signal_error hw error = bnd (led_init hw) (\<lambda>_. stop (Signal error))"

section \<open>Frame\<close>

context access_relation
begin

lemma gpio_not_A: "get_peripheral_reg_addr gpio_access r \<notin> A"
  by (rule not_sd) (cases r; simp add: sd_page_def get_peripheral_reg_addr_def gpio_access_def
      ARM_LO_MAIN_PERIPH_BASE_ADDR_def)

lemma guar_gpio:
  "guar R (gpio_pin_select_op hw pin op)" "guar R (gpio_pin_setclr hw pin r0 r1)"
  unfolding gpio_pin_select_op_def gpio_pin_setclr_def Let_def
  by (intro guar_rules guar_access gpio_not_A)+

lemma guar_led:
  "guar R (led_init hw)" "guar R (led_turn_on hw)" "guar R (led_turn_off hw)"
  unfolding led_init_def led_turn_on_def led_turn_off_def gpio_pin_set_def gpio_pin_clr_def
  by (rule guar_gpio)+

lemma guar_signal_error: "guar R (signal_error hw e)"
  unfolding signal_error_def by (intro guar_rules guar_led)

lemmas guar_signals = guar_gpio guar_led guar_signal_error

end

lemma led_run [run_simps]:
  "led_init hw s = (Ret (), after_write hw (get_peripheral_reg_addr gpio_access GPFSEL4) (BIT 6) s)"
  "led_turn_on hw s = (Ret (), after_write hw (get_peripheral_reg_addr gpio_access GPSET1) (BIT 10) s)"
  "led_turn_off hw s = (Ret (), after_write hw (get_peripheral_reg_addr gpio_access GPCLR1) (BIT 10) s)"
  by (simp_all add: led_init_def led_turn_on_def led_turn_off_def gpio_pin_select_op_def
      gpio_pin_set_def gpio_pin_clr_def gpio_pin_setclr_def GPIO_PIN_LED_def PINS_PER_GPFSEL_def
      PINS_PER_SETCLR_def GPIO_OP_BITS_def gpfsel_regs_def BIT_def run_simps)

lemma bnd_led_run [run_simps]:
  "bnd (led_turn_on hw) f s = f () (after_write hw (get_peripheral_reg_addr gpio_access GPSET1) (BIT 10) s)"
  "bnd (led_turn_off hw) f s = f () (after_write hw (get_peripheral_reg_addr gpio_access GPCLR1) (BIT 10) s)"
  by (simp_all add: bnd_def run_simps)

lemma signal_error_run [run_simps]:
  "signal_error hw e s = (Signal e, after_write hw (get_peripheral_reg_addr gpio_access GPFSEL4) (BIT 6) s)"
  "bnd (signal_error hw e) f s =
     (Signal e, after_write hw (get_peripheral_reg_addr gpio_access GPFSEL4) (BIT 6) s)"
  by (simp_all add: signal_error_def bnd_def run_simps)

lemma signal_error_never_returns: "signal_error hw e s \<noteq> (Ret x, t)"
  by (simp add: signal_error_run)

section \<open>Pin selection overwrites its register\<close>

text \<open>
  C36. Selecting an operation for one of the 58 pins writes one function-select register:
  the pin's own field gets the operation, and every other field of that register gets the
  value of \<^verbatim>\<open>GPIO_OP_INPUT\<close>, whatever its pin was used for before.
\<close>

theorem gpio_pin_select_op_clobbers:
  assumes "pin < 58"
  shows "\<exists>r v t. gpio_pin_select_op hw pin op s = (Ret (), t) \<and>
    trace t = Wr (get_peripheral_reg_addr gpio_access r) v # trace s \<and>
    r = gpfsel_regs ! (pin div 10) \<and>
    getfld (3 * (pin mod 10)) 3 v = gpio_op_value op \<and>
    (\<forall>k < 10. k \<noteq> pin mod 10 \<longrightarrow> getfld (3 * k) 3 v = gpio_op_value GPIO_OP_INPUT)"
proof -
  have w: "gpio_op_value op = take_bit 3 (gpio_op_value op)" by (cases op) simp_all
  then have v: "push_bit (3 * (pin mod 10)) (gpio_op_value op) = fld (3 * (pin mod 10)) 3 (gpio_op_value op)"
    unfolding fld_def by simp
  have "pin div 10 < length gpfsel_regs" using assms by (simp add: gpfsel_regs_def)
  moreover have "getfld (3 * (pin mod 10)) 3 (fld (3 * (pin mod 10)) 3 (gpio_op_value op)) = gpio_op_value op"
    using getfld_fld_same [of "3 * (pin mod 10)" 3 "gpio_op_value op"] w by simp
  moreover have "getfld (3 * k) 3 (fld (3 * (pin mod 10)) 3 (gpio_op_value op)) = 0"
    if "k \<noteq> pin mod 10" for k
    using that by (intro getfld_fld_other) linarith
  ultimately show ?thesis
    unfolding gpio_pin_select_op_def PINS_PER_GPFSEL_def GPIO_OP_BITS_def Let_def
    using v by (auto simp: run_simps mult.commute)
qed

theorem gpio_pin_select_op_clobbers_witness:
  "\<exists>r v t. gpio_pin_select_op (tick_board 0) 14 GPIO_OP_ALT_FN_5 (blank_machine 0) = (Ret (), t) \<and>
     trace t = [Wr (get_peripheral_reg_addr gpio_access r) v] \<and> r = gpfsel_regs ! 1 \<and>
     getfld 12 3 v = 2 \<and> (\<forall>k < 10. k \<noteq> 4 \<longrightarrow> getfld (3 * k) 3 v = 0)"
  using gpio_pin_select_op_clobbers [of 14 "tick_board 0" GPIO_OP_ALT_FN_5 "blank_machine 0"]
  by simp

section \<open>The blink count\<close>

definition led_write :: "bus_event \<Rightarrow> bool" where
  "led_write e = (case e of Rd a v \<Rightarrow> False
     | Wr a v \<Rightarrow> a = get_peripheral_reg_addr gpio_access GPSET1 \<or>
                a = get_peripheral_reg_addr gpio_access GPCLR1)"

definition led_history :: "'d machine \<Rightarrow> bus_event list" where
  "led_history s = rev (filter led_write (trace s))"

definition blink :: "bus_event list" where
  "blink = [Wr (get_peripheral_reg_addr gpio_access GPSET1) (BIT 10),
            Wr (get_peripheral_reg_addr gpio_access GPCLR1) (BIT 10)]"

lemma led_history_read [simp]: "led_history (after_read hw a s) = led_history s"
  by (simp add: led_history_def led_write_def)

lemma led_history_on_off:
  "led_history (after_write hw (get_peripheral_reg_addr gpio_access GPSET1) v s) =
     led_history s @ [Wr (get_peripheral_reg_addr gpio_access GPSET1) v]"
  "led_history (after_write hw (get_peripheral_reg_addr gpio_access GPCLR1) v s) =
     led_history s @ [Wr (get_peripheral_reg_addr gpio_access GPCLR1) v]"
  by (simp_all add: led_history_def led_write_def)

lemma usleep_loop_led: "led_history (snd (usleep_loop hw e k s)) = led_history s"
  by (induction k arbitrary: s) (simp_all add: run_simps)

lemma sleep_led: "sleep hw ms s = (r, t) \<Longrightarrow> led_history t = led_history s"
  using usleep_loop_led [of hw "dev_read hw CLO_addr s + of_int (ms_to_us ms)" "poll_fuel hw"
      "after_read hw CLO_addr s"]
  by (simp add: sleep_def usleep_def run_simps)

lemma sleep_total:
  assumes "steady_clock hw clk B" and "0 < ms" and "now clk s + 1000 * nat ms + B < 2 ^ 32"
    and "1000 * nat ms < poll_fuel hw" and "B \<le> 1000"
  shows "\<exists>t. sleep hw ms s = (Ret (), t) \<and> led_history t = led_history s \<and>
    now clk t \<le> now clk s + 1000 * nat ms + 2 * B"
proof -
  have us: "nat (ms_to_us ms) = 1000 * nat ms"
    using assms(2) by (simp add: ms_to_us_def COUNTER_CLK_CPMS_def nat_mult_distrib)
  have "B \<le> nat (ms_to_us ms)" using assms(2,5) unfolding us by (cases "nat ms") simp_all
  moreover have "0 \<le> ms_to_us ms" using assms(2) by (simp add: ms_to_us_def COUNTER_CLK_CPMS_def)
  ultimately obtain t where "usleep hw (ms_to_us ms) s = (Ret (), t)"
    "now clk t \<le> now clk s + 1000 * nat ms + 2 * B"
    using usleep_waits [OF assms(1), of "ms_to_us ms" s] assms(3,4) unfolding us by auto
  then show ?thesis using sleep_led [of hw ms s] by (simp add: sleep_def)
qed

lemma signal_blinks_total:
  assumes "steady_clock hw clk B" and "B \<le> 1000" and "370000 < poll_fuel hw"
    and "now clk s + n * 746000 + 1000 < 2 ^ 32"
  shows "\<exists>t. signal_blinks hw n s = (Ret (), t) \<and>
    led_history t = led_history s @ concat (replicate n blink) \<and>
    now clk t \<le> now clk s + n * 746000"
  using assms(4)
proof (induction n arbitrary: s)
  case 0
  then show ?case by (simp add: run_simps)
next
  case (Suc n)
  note c = steady_clockD [OF assms(1)]
  let ?on = "after_write hw (get_peripheral_reg_addr gpio_access GPSET1) (BIT 10) s"
  have b1: "now clk ?on \<le> now clk s + 1000" using c(6) assms(2) by (meson add_left_mono order_trans)
  obtain s1 where s1: "sleep hw SHORT_PAUSE_MS ?on = (Ret (), s1)" "led_history s1 = led_history ?on"
    "now clk s1 \<le> now clk ?on + 370000 + 2 * B"
    using sleep_total [OF assms(1), of SHORT_PAUSE_MS ?on] assms(2,3) b1 Suc.prems
    by (auto simp: SHORT_PAUSE_MS_def)
  let ?off = "after_write hw (get_peripheral_reg_addr gpio_access GPCLR1) (BIT 10) s1"
  have b2: "now clk ?off \<le> now clk s1 + B" by (rule c(6))
  obtain s2 where s2: "when_io (n \<noteq> 0) (sleep hw SHORT_PAUSE_MS) ?off = (Ret (), s2)"
    "led_history s2 = led_history ?off" "now clk s2 \<le> now clk ?off + 370000 + 2 * B"
  proof (cases "n = 0")
    case True
    then show ?thesis using that by (simp add: run_simps)
  next
    case False
    then show ?thesis
      using that sleep_total [OF assms(1), of SHORT_PAUSE_MS ?off] assms(2,3) b1 b2 s1(3) Suc.prems
      by (auto simp: SHORT_PAUSE_MS_def run_simps)
  qed
  have b3: "now clk s2 \<le> now clk s + 746000" using b1 b2 s1(3) s2(3) assms(2) by linarith
  then obtain t where t: "signal_blinks hw n s2 = (Ret (), t)"
    "led_history t = led_history s2 @ concat (replicate n blink)" "now clk t \<le> now clk s2 + n * 746000"
    using Suc.IH [of s2] Suc.prems by auto
  have "signal_blinks hw (Suc n) s = (Ret (), t)"
    using s1(1) s2(1) t(1) by (simp add: bnd_def led_run)
  moreover have "led_history t = led_history s @ concat (replicate (Suc n) blink)"
    by (simp add: t(2) s2(2) s1(2) led_history_on_off blink_def)
  ultimately show ?case using t(3) b3 by auto
qed

lemma error_value_range: "1 \<le> error_value e \<and> error_value e \<le> 13"
  by (cases e) simp_all

text \<open>
  C24. The error signal: one round of \<^verbatim>\<open>signal_error()\<close> comes to its end, and in it the
  LED is switched on and off exactly as many times as the value of the error code, in
  alternation, so the codes are told apart by counting.
\<close>

theorem signal_round_blinks:
  assumes "steady_clock hw clk B" and "B \<le> 1000" and "2250000 < poll_fuel hw"
    and "now clk s + 12000000 < 2 ^ 32"
  shows "\<exists>t. signal_round hw e s = (Ret (), t) \<and>
    led_history t = led_history s @ concat (replicate (error_value e) blink)"
proof -
  obtain s1 where s1: "sleep hw LONG_PAUSE_MS s = (Ret (), s1)" "led_history s1 = led_history s"
    "now clk s1 \<le> now clk s + 2250000 + 2 * B"
    using sleep_total [OF assms(1), of LONG_PAUSE_MS s] assms(2-4) by (auto simp: LONG_PAUSE_MS_def)
  have "now clk s1 + error_value e * 746000 + 1000 < 2 ^ 32"
    using s1(3) assms(2,4) error_value_range [of e] by auto
  then obtain t where "signal_blinks hw (error_value e) s1 = (Ret (), t)"
    "led_history t = led_history s1 @ concat (replicate (error_value e) blink)"
    using signal_blinks_total [OF assms(1,2)] assms(3) by fastforce
  then show ?thesis using s1(1,2) by (simp add: signal_round_def bnd_def)
qed

theorem signal_round_blinks_witness:
  "\<exists>t. signal_round (tick_board 3000000) ERROR_SD_INIT (blank_machine 0) = (Ret (), t) \<and>
     led_history t = blink @ blink @ blink @ blink @ blink"
proof -
  have "concat (replicate (error_value ERROR_SD_INIT) blink) = blink @ blink @ blink @ blink @ blink"
    by (simp add: eval_nat_numeral)
  moreover have "led_history (blank_machine (0 :: nat)) = []" by (simp add: led_history_def)
  ultimately show ?thesis
    using signal_round_blinks [OF tick_board_steady [of 3000000], of "blank_machine 0" ERROR_SD_INIT]
    by (simp add: tick_board_def del: error_value.simps)
qed

end
