(* ===== verification/Polling.thy ===== *)
theory Polling
  imports Gpio
begin

text \<open>
  \<^verbatim>\<open>while_cond_timeout_infinite()\<close> of \<^verbatim>\<open>src/bld/help.c\<close>: wait for a hardware condition
  to become false, signalling \<^verbatim>\<open>ERROR_INFINITE_LOOP\<close> after a timeout. What a condition
  must be to be waited for is the locale \<open>polled_condition\<close>; every condition of the
  program is an interpretation of it, in the theory of its component.
\<close>

primrec while_cond_loop :: "'d hw \<Rightarrow> ('d, bool) io \<Rightarrow> timestamp_t \<Rightarrow> nat \<Rightarrow> ('d, unit) io" where
  "while_cond_loop hw condition ts 0 = stop Hang"
| "while_cond_loop hw condition ts (Suc k) =
     bnd condition (\<lambda>c.
     if c then
       bnd (timer_poll_done hw ts) (\<lambda>done_b.
       bnd (when_io done_b (signal_error hw ERROR_INFINITE_LOOP)) (\<lambda>_.
       while_cond_loop hw condition ts k))
     else ret ())"

definition while_cond_timeout_infinite :: "'d hw \<Rightarrow> ('d, bool) io \<Rightarrow> int \<Rightarrow> ('d, unit) io" where
  "while_cond_timeout_infinite hw condition timeout_ms =
     bnd (timer_poll_start hw timeout_ms) (\<lambda>ts.
     while_cond_loop hw condition ts (poll_fuel hw))"

text \<open>
  A condition reads one register: it returns an answer that depends on the value read, and
  one read is all it does to the machine.
\<close>

locale polled_condition =
  fixes condition :: "('d, bool) io"
    and hw :: "'d hw"
    and reg :: addr
    and holds :: "u32 \<Rightarrow> bool"
  assumes condition_run:
    "condition s = (Ret (holds (dev_read hw reg s)), after_read hw reg s)"
begin

lemma while_cond_loop_Suc:
  "while_cond_loop hw condition ts (Suc k) s =
     (if holds (dev_read hw reg s)
      then if ts \<le> dev_read hw CLO_addr (after_read hw reg s)
           then signal_error hw ERROR_INFINITE_LOOP (after_read hw CLO_addr (after_read hw reg s))
           else while_cond_loop hw condition ts k (after_read hw CLO_addr (after_read hw reg s))
      else (Ret (), after_read hw reg s))"
  by (simp add: bnd_def condition_run run_simps)

lemma while_cond_loop_outcome:
  "fst (while_cond_loop hw condition ts k s) \<in> {Ret (), Signal ERROR_INFINITE_LOOP, Hang}"
  by (induction k arbitrary: s)
    (simp_all add: while_cond_loop_Suc run_simps del: while_cond_loop.simps(2))

lemma while_cond_outcome:
  "fst (while_cond_timeout_infinite hw condition ms s) \<in> {Ret (), Signal ERROR_INFINITE_LOOP, Hang}"
  using while_cond_loop_outcome by (simp add: while_cond_timeout_infinite_def run_simps)

text \<open>When the wait returns, the last thing it did was to read a value for which the condition is false.\<close>

lemma while_cond_loop_exit:
  "while_cond_loop hw condition ts k s = (Ret (), t) \<Longrightarrow>
     \<exists>u. \<not> holds (dev_read hw reg u) \<and> t = after_read hw reg u"
  by (induction k arbitrary: s)
    (auto simp: while_cond_loop_Suc run_simps simp del: while_cond_loop.simps(2) split: if_splits)

lemma while_cond_exit:
  "while_cond_timeout_infinite hw condition ms s = (Ret (), t) \<Longrightarrow>
     \<exists>u. \<not> holds (dev_read hw reg u) \<and> t = after_read hw reg u"
  using while_cond_loop_exit by (simp add: while_cond_timeout_infinite_def run_simps)

text \<open>It comes to an end once the clock has passed the timeout, with enough fuel for one poll per tick.\<close>

lemma while_cond_loop_ends:
  assumes "steady_clock hw clk B" and "e + 2 * B < 2 ^ 32" and "now clk s \<le> e + B"
    and "e < now clk s + k" and "0 < k"
  shows "fst (while_cond_loop hw condition (of_nat e) k s) \<noteq> Hang"
  using assms(3-5)
proof (induction k arbitrary: s)
  case (Suc k)
  note c = steady_clockD [OF assms(1)]
  let ?s1 = "after_read hw reg s" and ?s2 = "after_read hw CLO_addr (after_read hw reg s)"
  have n1: "now clk s \<le> now clk ?s1" "now clk ?s1 \<le> now clk s + B" by (rule c(3,4))+
  have n2: "now clk ?s1 < now clk ?s2" "now clk ?s2 \<le> now clk ?s1 + B" by (rule c(2), rule c(4))
  show ?case
  proof (cases "holds (dev_read hw reg s) \<and> \<not> (of_nat e :: u32) \<le> dev_read hw CLO_addr ?s1")
    case True
    have "now clk ?s1 < e"
    proof -
      have "now clk ?s1 \<le> e + 2 * B" using n1(2) Suc.prems(1) by linarith
      then have "\<not> e \<le> now clk ?s1"
        using True c(1) [of ?s1] of_nat_le32 [of e "now clk ?s1"] assms(2) by auto
      then show ?thesis by simp
    qed
    then have "now clk ?s2 \<le> e + B" "e < now clk ?s2 + k" "0 < k"
      using n1 n2 Suc.prems by linarith+
    then show ?thesis using Suc.IH [of ?s2] True by (simp add: while_cond_loop_Suc del: while_cond_loop.simps(2))
  next
    case False
    then show ?thesis
      by (auto simp: while_cond_loop_Suc run_simps simp del: while_cond_loop.simps(2))
  qed
qed simp

lemma while_cond_ends:
  assumes "steady_clock hw clk B" and "0 \<le> ms" and "now clk s + 1000 * nat ms + 2 * B < 2 ^ 32"
    and "1000 * nat ms < poll_fuel hw"
  shows "fst (while_cond_timeout_infinite hw condition ms s) \<in> {Ret (), Signal ERROR_INFINITE_LOOP}"
proof -
  let ?e = "now clk s + 1000 * nat ms" and ?s = "after_read hw CLO_addr s"
  note c = steady_clockD [OF assms(1)]
  have e: "dev_read hw CLO_addr s + of_int (ms_to_us ms) = of_nat ?e"
    using c(1) [of s] assms(2) by (simp add: ms_to_us_def COUNTER_CLK_CPMS_def)
  have "now clk ?s \<le> ?e + B" "?e < now clk ?s + poll_fuel hw" "0 < poll_fuel hw"
    using c(2) [of s] c(4) [of CLO_addr s] assms(4) by linarith+
  from while_cond_loop_ends [OF assms(1,3) this] show ?thesis
    using while_cond_outcome [of ms s]
    by (auto simp: while_cond_timeout_infinite_def run_simps e simp del: of_nat_add of_nat_mult)
qed

text \<open>A condition that is false at once costs two reads.\<close>

lemma while_cond_false:
  assumes "\<not> holds (dev_read hw reg (after_read hw CLO_addr s))" and "0 < poll_fuel hw"
  shows "while_cond_timeout_infinite hw condition ms s =
    (Ret (), after_read hw reg (after_read hw CLO_addr s))"
  using assms by (cases "poll_fuel hw")
    (simp_all add: while_cond_timeout_infinite_def run_simps while_cond_loop_Suc del: while_cond_loop.simps(2))

end

context access_relation
begin

lemma guar_while_cond_loop: "guar R c \<Longrightarrow> guar R (while_cond_loop hw c ts k)"
  by (induction k) (auto intro!: guar_rules guar_timer guar_signals)

lemma guar_while_cond: "guar R c \<Longrightarrow> guar R (while_cond_timeout_infinite hw c ms)"
  unfolding while_cond_timeout_infinite_def
  by (intro guar_rules guar_timer guar_while_cond_loop)

end

end
