(* ===== verification/Uart.thy ===== *)
theory Uart
  imports Polling
begin

unbundle bit_operations_syntax

text \<open>
  The registers and the transmit side of \<^verbatim>\<open>src/bld/uart.c\<close>. The initialisation of the
  mini UART asks the VideoCore for its clock rate and is in theory \<open>Uart_Init\<close>.
\<close>

datatype uart_register =
  AUX_ENABLES | AUX_MU_IO_REG | AUX_MU_LCR_REG | AUX_MU_LSR_REG | AUX_MU_CNTL_REG | AUX_MU_BAUD_REG

fun uart_register_offset :: "uart_register \<Rightarrow> u32" where
  "uart_register_offset AUX_ENABLES = 0x04"
| "uart_register_offset AUX_MU_IO_REG = 0x40"
| "uart_register_offset AUX_MU_LCR_REG = 0x4c"
| "uart_register_offset AUX_MU_LSR_REG = 0x54"
| "uart_register_offset AUX_MU_CNTL_REG = 0x60"
| "uart_register_offset AUX_MU_BAUD_REG = 0x68"

definition uart_access :: "uart_register periph_access" where
  "uart_access = \<lparr>periph_base_off = 0x2215000, register_offsets = uart_register_offset\<rparr>"

definition AUX_ENABLES_MINI_UART_ENABLE :: u32 where "AUX_ENABLES_MINI_UART_ENABLE = BIT 0"
definition AUX_MU_IO_REG_TX_DATA :: u32 where "AUX_MU_IO_REG_TX_DATA = BITS 7 0"
definition AUX_MU_LCR_REG_DATA_SIZE :: u32 where "AUX_MU_LCR_REG_DATA_SIZE = BITS 1 0"
definition AUX_MU_LSR_REG_TX_EMPTY :: u32 where "AUX_MU_LSR_REG_TX_EMPTY = BIT 5"
definition AUX_MU_CNTL_REG_RX_EN :: u32 where "AUX_MU_CNTL_REG_RX_EN = BIT 0"

definition uart_lsr_transmitter_not_empty :: "'d hw \<Rightarrow> ('d, bool) io" where
  "uart_lsr_transmitter_not_empty hw =
     bnd (register_get hw uart_access AUX_MU_LSR_REG) (\<lambda>lsr.
     ret (\<not> (lsr AND AUX_MU_LSR_REG_TX_EMPTY \<noteq> 0)))"

text \<open>The bytes to transmit are the first \<open>n\<close> bytes at \<^verbatim>\<open>data\<close>, given as a list.\<close>

primrec uart_transmit :: "'d hw \<Rightarrow> u8 list \<Rightarrow> ('d, unit) io" where
  "uart_transmit hw [] = ret ()"
| "uart_transmit hw (byte # bytes) =
     bnd (while_cond_timeout_infinite hw (uart_lsr_transmitter_not_empty hw) 1) (\<lambda>_.
     bnd (register_set hw uart_access AUX_MU_IO_REG (ucast byte AND AUX_MU_IO_REG_TX_DATA)) (\<lambda>_.
     uart_transmit hw bytes))"

section \<open>The wait for the transmitter\<close>

abbreviation LSR_addr :: addr where
  "LSR_addr \<equiv> get_peripheral_reg_addr uart_access AUX_MU_LSR_REG"

abbreviation UART_IO_addr :: addr where
  "UART_IO_addr \<equiv> get_peripheral_reg_addr uart_access AUX_MU_IO_REG"

interpretation uart_wait: polled_condition
  "uart_lsr_transmitter_not_empty hw" hw LSR_addr "\<lambda>v. v AND AUX_MU_LSR_REG_TX_EMPTY = 0"
  for hw :: "'d hw"
  by unfold_locales (simp add: uart_lsr_transmitter_not_empty_def run_simps)

context access_relation
begin

lemma uart_not_A: "get_peripheral_reg_addr uart_access r \<notin> A"
  by (rule not_sd) (cases r; simp add: sd_page_def get_peripheral_reg_addr_def uart_access_def
      ARM_LO_MAIN_PERIPH_BASE_ADDR_def)

lemma guar_uart_transmit: "guar R (uart_transmit hw bs)"
  by (induction bs)
    (auto intro!: guar_rules guar_access guar_while_cond uart_not_A simp: uart_lsr_transmitter_not_empty_def)

end

lemma tx_data_mask: "ucast (b :: u8) AND AUX_MU_IO_REG_TX_DATA = (ucast b :: u32)"
  by (rule bit_word_eqI)
    (auto simp: AUX_MU_IO_REG_TX_DATA_def bit_and_iff bit_BITS bit_ucast_iff dest: bit_imp_le_length)

section \<open>What is transmitted\<close>

text \<open>The bytes written to the data register, in the order of writing.\<close>

definition uart_write :: "bus_event \<Rightarrow> u32 option" where
  "uart_write e = (case e of Rd a v \<Rightarrow> None | Wr a v \<Rightarrow> if a = UART_IO_addr then Some v else None)"

definition uart_output :: "'d machine \<Rightarrow> u32 list" where
  "uart_output s = rev (List.map_filter uart_write (trace s))"

lemma uart_output_simps [simp]:
  "uart_output (after_read hw a s) = uart_output s"
  "uart_output (after_write hw a v s) = uart_output s @ (if a = UART_IO_addr then [v] else [])"
  by (simp_all add: uart_output_def uart_write_def List.map_filter_def)

lemma uart_wait_output:
  "uart_output (snd (while_cond_loop hw (uart_lsr_transmitter_not_empty hw) ts k s)) = uart_output s \<or>
   fst (while_cond_loop hw (uart_lsr_transmitter_not_empty hw) ts k s) = Signal ERROR_INFINITE_LOOP"
proof (induction k arbitrary: s)
  case (Suc k)
  show ?case
    using Suc [of "after_read hw CLO_addr (after_read hw LSR_addr s)"]
    by (auto simp: uart_wait.while_cond_loop_Suc run_simps simp del: while_cond_loop.simps(2))
qed (simp add: run_simps)

lemma uart_transmit_output:
  "uart_transmit hw bs s = (Ret (), t) \<Longrightarrow> uart_output t = uart_output s @ map ucast bs"
proof (induction bs arbitrary: s)
  case (Cons b bs)
  then obtain u where w: "while_cond_timeout_infinite hw (uart_lsr_transmitter_not_empty hw) 1 s = (Ret (), u)"
    and r: "uart_transmit hw bs (after_write hw UART_IO_addr (ucast b) u) = (Ret (), t)"
    by (auto simp: bnd_Ret_iff register_run tx_data_mask)
  from w have "uart_output u = uart_output s"
    using uart_wait_output [of hw _ _ "after_read hw CLO_addr s"]
    by (auto simp: while_cond_timeout_infinite_def run_simps) (metis fst_conv res.distinct(1) snd_conv uart_output_simps(1))
  with Cons.IH [OF r] show ?case by simp
qed (simp add: run_simps)

text \<open>
  A transmitter that reports empty whenever it is asked: then every transmission returns.
\<close>

definition uart_ready :: "'d hw \<Rightarrow> bool" where
  "uart_ready hw \<longleftrightarrow> 0 < poll_fuel hw \<and> (\<forall>d. bit (fst (mmio_read hw LSR_addr d)) 5)"

lemma uart_transmit_returns:
  "uart_ready hw \<Longrightarrow> \<exists>t. uart_transmit hw bs s = (Ret (), t)"
proof (induction bs arbitrary: s)
  case (Cons b bs)
  have "while_cond_timeout_infinite hw (uart_lsr_transmitter_not_empty hw) 1 s =
    (Ret (), after_read hw LSR_addr (after_read hw CLO_addr s))"
    using Cons.prems
    by (intro uart_wait.while_cond_false) (simp_all add: uart_ready_def AUX_MU_LSR_REG_TX_EMPTY_def and_BIT_eq_0)
  with Cons.IH [OF Cons.prems] show ?case by (simp add: bnd_def run_simps)
qed (simp add: run_simps)

end
