(* ===== verification/Format.thy ===== *)
theory Format
  imports Helpers
begin

text \<open>
  The string functions of \<^verbatim>\<open>src/bld/debug.c\<close>, up to \<^verbatim>\<open>Snprintf()\<close>. A C string is a list of
  characters that a NUL ends; the terminator of a literal or of an argument is the end of
  the list, that of a buffer is a NUL inside it. Writes into a buffer are checked: one
  outside the buffer, or a read past the end of a source string, is \<open>FOverrun\<close>, and a
  \<^verbatim>\<open>va_arg()\<close> for which there is no argument of its type is \<open>FArgs\<close>.
\<close>

section \<open>Strings\<close>

abbreviation NUL :: char where "NUL \<equiv> CHR 0x00"

fun Strlen :: "string \<Rightarrow> nat" where
  "Strlen [] = 0"
| "Strlen (c # s) = (if c = NUL then 0 else Suc (Strlen s))"

text \<open>A character of a string, its terminator included.\<close>

definition char_at :: "string \<Rightarrow> nat \<Rightarrow> char" where
  "char_at s i = (if i < length s then s ! i else NUL)"

datatype 'a fres = FOk 'a | FSignal | FArgs | FOverrun | FUndef

definition fbind :: "'a fres \<Rightarrow> ('a \<Rightarrow> 'b fres) \<Rightarrow> 'b fres" where
  "fbind r f = (case r of FOk x \<Rightarrow> f x | FSignal \<Rightarrow> FSignal | FArgs \<Rightarrow> FArgs
     | FOverrun \<Rightarrow> FOverrun | FUndef \<Rightarrow> FUndef)"

definition buf_put :: "string \<Rightarrow> int \<Rightarrow> char \<Rightarrow> string fres" where
  "buf_put s w c = (if 0 \<le> w \<and> w < int (length s) then FOk (s[nat w := c]) else FOverrun)"

text \<open>\<^verbatim>\<open>Strncpy(s + w, src, n)\<close> for a positive \<open>n\<close>: the loop, and the number of characters it returns.\<close>

primrec Strncpy_loop :: "string \<Rightarrow> int \<Rightarrow> string \<Rightarrow> nat \<Rightarrow> nat \<Rightarrow> string fres" where
  "Strncpy_loop s w src i 0 = FOk s"
| "Strncpy_loop s w src i (Suc k) =
     (if length src < i then FOverrun
      else fbind (buf_put s (w + int i) (char_at src i)) (\<lambda>s. Strncpy_loop s w src (Suc i) k))"

definition Strncpy :: "string \<Rightarrow> int \<Rightarrow> string \<Rightarrow> int \<Rightarrow> (string \<times> int) fres" where
  "Strncpy s w src n = fbind (Strncpy_loop s w src 0 (nat n)) (\<lambda>s. FOk (s, n))"

function strreverse_loop :: "string \<Rightarrow> int \<Rightarrow> int \<Rightarrow> string" where
  "strreverse_loop s i j =
     (if i < j then strreverse_loop (s[nat i := s ! nat j, nat j := s ! nat i]) (i + 1) (j - 1) else s)"
  by pat_completeness auto
termination
  by (relation "measure (\<lambda>(s, i, j). nat (j - i))") auto

declare strreverse_loop.simps [simp del]

definition strreverse :: "string \<Rightarrow> string" where
  "strreverse s = strreverse_loop s 0 (int (Strlen s) - 1)"

definition char_digit_to_int :: "char \<Rightarrow> int" where
  "char_digit_to_int digit = int (of_char digit) - int (of_char (CHR ''0''))"

definition DECIMAL_BASE :: nat where "DECIMAL_BASE = 10"
definition HEX_BASE :: nat where "HEX_BASE = 16"
definition hex_digits :: string where "hex_digits = ''0123456789abcdef''"

text \<open>
  The digits of \<open>n\<close>, the least significant first; \<open>str\<close> holds what has been
  written to the static array so far. The base of every call is 10 or 16.
\<close>

function uint_digits_loop :: "nat \<Rightarrow> nat \<Rightarrow> string \<Rightarrow> string" where
  "uint_digits_loop n base str =
     (if n = 0 \<or> base \<le> 1 then str
      else uint_digits_loop (n div base) base (str @ [char_at hex_digits (n mod base)]))"
  by pat_completeness auto
termination
  by (relation "measure (\<lambda>(n, base, str). n)") auto

declare uint_digits_loop.simps [simp del]

definition uint_to_str_base :: "u32 \<Rightarrow> nat \<Rightarrow> string" where
  "uint_to_str_base n base =
     (if n = 0 then strreverse ''0'' else strreverse (uint_digits_loop (unat n) base ''''))"

definition uint_to_str :: "u32 \<Rightarrow> string" where
  "uint_to_str n = uint_to_str_base n DECIMAL_BASE"

definition uint_to_hexstr :: "u32 \<Rightarrow> string" where
  "uint_to_hexstr n = uint_to_str_base n HEX_BASE"

text \<open>
  The values of a C \<^verbatim>\<open>int\<close>. Arithmetic on \<^verbatim>\<open>int\<close> that leaves them is undefined, so
  \<^verbatim>\<open>str_to_int()\<close> has no result, \<open>None\<close>, once a product or a sum of its loop overflows.
\<close>

definition c_int_fits :: "int \<Rightarrow> bool" where
  "c_int_fits x \<longleftrightarrow> - (2 ^ 31) \<le> x \<and> x < 2 ^ 31"

text \<open>\<open>k\<close> counts the characters \<open>s[0], \<dots>, s[k - 1]\<close> still to be read, the last one first.\<close>

primrec str_to_int_loop :: "string \<Rightarrow> nat \<Rightarrow> int \<Rightarrow> int \<Rightarrow> int option" where
  "str_to_int_loop s 0 mult n = Some n"
| "str_to_int_loop s (Suc k) mult n =
     (let d = char_digit_to_int (s ! k) * mult
      in if c_int_fits d \<and> c_int_fits (n + d) \<and> c_int_fits (mult * int DECIMAL_BASE)
         then str_to_int_loop s k (mult * int DECIMAL_BASE) (n + d) else None)"

definition str_to_int :: "string \<Rightarrow> nat \<Rightarrow> int option" where
  "str_to_int s len = str_to_int_loop s len 1 0"

fun str_find :: "string \<Rightarrow> char \<Rightarrow> string option" where
  "str_find [] c = (if c = NUL then Some [] else None)"
| "str_find (x # s) c = (if x = c then Some (x # s) else if x = NUL then None else str_find s c)"

fun str_find_char_not_in_set_loop :: "string \<Rightarrow> string \<Rightarrow> nat \<Rightarrow> int" where
  "str_find_char_not_in_set_loop [] cs i = -1"
| "str_find_char_not_in_set_loop (x # s) cs i =
     (if x = NUL then -1
      else if str_find cs x = None then int i
      else str_find_char_not_in_set_loop s cs (Suc i))"

definition str_find_char_not_in_set :: "string \<Rightarrow> string \<Rightarrow> int" where
  "str_find_char_not_in_set s cs = str_find_char_not_in_set_loop s cs 0"

definition specifier_supports_field_width :: "char \<Rightarrow> bool" where
  "specifier_supports_field_width spec \<longleftrightarrow> spec = CHR ''u'' \<or> spec = CHR ''x''"

section \<open>Formatted output\<close>

datatype va = VaU u32 | VaS string

primrec pad_loop :: "string \<Rightarrow> int \<Rightarrow> int \<Rightarrow> char \<Rightarrow> nat \<Rightarrow> (string \<times> int) fres" where
  "pad_loop s w n pad 0 = FOk (s, w)"
| "pad_loop s w n pad (Suc k) =
     (if w < n then fbind (buf_put s w pad) (\<lambda>s. pad_loop s (w + 1) n pad k) else FOk (s, w))"

text \<open>
  The conversion at \<open>fmt[r]\<close>: the argument as a string, the characters \<^verbatim>\<open>0x\<close> of a
  hexadecimal number having been written already, and the remaining arguments.
\<close>

definition conversion ::
  "string \<Rightarrow> int \<Rightarrow> int \<Rightarrow> char \<Rightarrow> va list \<Rightarrow> (string \<times> int \<times> string \<times> va list) fres" where
  "conversion s w n spec ap =
     (if spec = CHR ''u'' then
        (case ap of VaU v # ap' \<Rightarrow> FOk (s, w, uint_to_str v, ap') | _ \<Rightarrow> FArgs)
      else if spec = CHR ''x'' then
        (case ap of VaU v # ap' \<Rightarrow>
           fbind (Strncpy s w ''0x'' (c_min (n - w) 2)) (\<lambda>(s, k).
           FOk (s, w + k, uint_to_hexstr v, ap'))
         | _ \<Rightarrow> FArgs)
      else if spec = CHR ''s'' then
        (case ap of VaS v # ap' \<Rightarrow> FOk (s, w, v, ap') | _ \<Rightarrow> FArgs)
      else FSignal)"

text \<open>
  The parse of the characters after a percent sign at index \<open>r\<close>: the padding character,
  the field width and the index of the specifier.
\<close>

definition parse_field_width :: "string \<Rightarrow> nat \<Rightarrow> char \<Rightarrow> nat \<Rightarrow> (char \<times> int \<times> nat) fres" where
  "parse_field_width fmt fmtlen pad r =
     (let i = str_find_char_not_in_set (drop r fmt) ''0123456789''
      in if 0 < i then
           (case str_to_int (drop r fmt) (nat i) of
              None \<Rightarrow> FUndef
            | Some field_width \<Rightarrow>
                (if fmtlen \<le> r + nat i \<or> \<not> specifier_supports_field_width (char_at fmt (r + nat i)) then FSignal
                 else FOk (pad, field_width, r + nat i)))
         else FOk (pad, 0, r))"

definition parse_width :: "string \<Rightarrow> nat \<Rightarrow> nat \<Rightarrow> (char \<times> int \<times> nat) fres" where
  "parse_width fmt fmtlen r =
     (if fmtlen \<le> r then FSignal
      else if char_at fmt (r + 1) = CHR ''0'' then
        (if fmtlen \<le> r + 1 then FSignal else parse_field_width fmt fmtlen (CHR ''0'') (r + 2))
      else parse_field_width fmt fmtlen (CHR '' '') (r + 1))"

definition format_arg ::
  "string \<Rightarrow> nat \<Rightarrow> string \<Rightarrow> int \<Rightarrow> int \<Rightarrow> nat \<Rightarrow> va list \<Rightarrow>
     (string \<times> int \<times> nat \<times> va list) fres" where
  "format_arg fmt fmtlen s n w r ap =
     fbind (parse_width fmt fmtlen r) (\<lambda>(pad, field_width, r).
     fbind (conversion s w n (char_at fmt r) ap) (\<lambda>(s, w, sarg, ap).
     fbind (pad_loop s w n pad (nat (field_width - int (Strlen sarg)))) (\<lambda>(s, w).
     fbind (Strncpy s w sarg (c_min (n - w) (int (Strlen sarg)))) (\<lambda>(s, k).
     FOk (s, w + k, r, ap)))))"

text \<open>
  The main loop of \<^verbatim>\<open>Vsnprintf()\<close>. Every round moves the read index \<open>r\<close> forward;
  \<open>k\<close> bounds the rounds by the length of the format.
\<close>

primrec Vsnprintf_loop ::
  "nat \<Rightarrow> string \<Rightarrow> nat \<Rightarrow> string \<Rightarrow> int \<Rightarrow> int \<Rightarrow> nat \<Rightarrow> va list \<Rightarrow> (string \<times> int) fres" where
  "Vsnprintf_loop 0 fmt fmtlen s n w r ap = FOk (s, w)"
| "Vsnprintf_loop (Suc k) fmt fmtlen s n w r ap =
     (if r < fmtlen \<and> w < n then
        if char_at fmt r = CHR ''%'' then
          fbind (format_arg fmt fmtlen s n w r ap) (\<lambda>(s, w, r, ap).
          Vsnprintf_loop k fmt fmtlen s n w (r + 1) ap)
        else
          fbind (buf_put s w (char_at fmt r)) (\<lambda>s.
          Vsnprintf_loop k fmt fmtlen s n (w + 1) (r + 1) ap)
      else FOk (s, w))"

definition Vsnprintf :: "string \<Rightarrow> int \<Rightarrow> string \<Rightarrow> va list \<Rightarrow> string fres" where
  "Vsnprintf s n fmt ap =
     fbind (Vsnprintf_loop (Suc (Strlen fmt)) fmt (Strlen fmt) s n 0 0 ap) (\<lambda>(s, w).
     if w < n then buf_put s w NUL else buf_put s (n - 1) NUL)"

definition Snprintf :: "string \<Rightarrow> int \<Rightarrow> string \<Rightarrow> va list \<Rightarrow> string fres" where
  "Snprintf s n fmt ap = Vsnprintf s n fmt ap"

section \<open>Digits\<close>

lemma Strlen_eq_length: "NUL \<notin> set s \<Longrightarrow> Strlen s = length s"
  by (induction s) auto

lemma Strlen_le: "Strlen s \<le> length s"
  by (induction s) auto

lemma Strlen_append_NUL: "NUL \<notin> set s \<Longrightarrow> Strlen (s @ NUL # t) = length s"
  by (induction s) auto

text \<open>The in-place reversal, for a string whose characters \<open>i, \<dots>, j\<close> are still to be swapped.\<close>

lemma strreverse_loop_rev:
  "length xs = i \<Longrightarrow> length zs = i \<Longrightarrow>
     strreverse_loop (xs @ ys @ zs) (int i) (int i + int (length ys) - 1) = xs @ rev ys @ zs"
proof (induction "length ys" arbitrary: xs ys zs i rule: less_induct)
  case less
  show ?case
  proof (cases "length ys \<le> 1")
    case True
    then have "rev ys = ys" by (cases ys) simp_all
    with True show ?thesis by (simp add: strreverse_loop.simps)
  next
    case False
    then obtain a ms b where ys: "ys = a # ms @ [b]"
      by (metis One_nat_def Suc_le_mono append_butlast_last_id le0 length_Cons list.exhaust list.size(3))
    have "strreverse_loop (xs @ ys @ zs) (int i) (int i + int (length ys) - 1) =
        strreverse_loop ((xs @ [b]) @ ms @ (a # zs)) (int (Suc i)) (int (Suc i) + int (length ms) - 1)"
      using less.prems by (subst strreverse_loop.simps) (simp add: ys nth_append list_update_append nat_add_distrib add.commute)
    also have "\<dots> = (xs @ [b]) @ rev ms @ (a # zs)"
      using less.prems by (intro less.hyps) (simp_all add: ys)
    finally show ?thesis by (simp add: ys)
  qed
qed

lemma strreverse_rev: "NUL \<notin> set s \<Longrightarrow> strreverse s = rev s"
  using strreverse_loop_rev [of "[]" 0 "[]" s] by (simp add: strreverse_def Strlen_eq_length)

lemma uint_digits_unfold:
  "0 < n \<Longrightarrow> 1 < base \<Longrightarrow> uint_digits_loop n base acc =
     uint_digits_loop (n div base) base (acc @ [char_at hex_digits (n mod base)])"
  by (subst uint_digits_loop.simps) simp

lemma uint_digits_loop_acc: "1 < base \<Longrightarrow> uint_digits_loop n base acc = acc @ uint_digits_loop n base []"
proof (induction n arbitrary: acc rule: less_induct)
  case (less n)
  show ?case
  proof (cases "n = 0")
    case False
    then have "n div base < n" using less.prems by simp
    from less.IH [OF this less.prems, of "acc @ [char_at hex_digits (n mod base)]"]
      less.IH [OF this less.prems, of "[char_at hex_digits (n mod base)]"]
    show ?thesis using False less.prems by (simp add: uint_digits_unfold)
  qed (simp add: uint_digits_loop.simps)
qed

lemma uint_digits_step:
  "0 < n \<Longrightarrow> 1 < base \<Longrightarrow>
     uint_digits_loop n base [] = char_at hex_digits (n mod base) # uint_digits_loop (n div base) base []"
  using uint_digits_loop_acc [of base "n div base" "[char_at hex_digits (n mod base)]"]
  by (simp add: uint_digits_unfold)

lemma uint_digits_0 [simp]: "uint_digits_loop 0 base [] = []"
  by (simp add: uint_digits_loop.simps)

lemma length_uint_digits: "1 < base \<Longrightarrow> n < base ^ k \<Longrightarrow> length (uint_digits_loop n base []) \<le> k"
proof (induction k arbitrary: n)
  case (Suc k)
  show ?case
  proof (cases "n = 0")
    case False
    have "n div base < base ^ k" using Suc.prems by (simp add: less_mult_imp_div_less mult.commute)
    with Suc False show ?thesis by (simp add: uint_digits_step)
  qed simp
qed simp

lemma hex_digit_facts:
  assumes "d < 16"
  shows "char_at hex_digits d \<noteq> NUL" and "d < 10 \<Longrightarrow> char_digit_to_int (char_at hex_digits d) = int d"
    and "char_at hex_digits d \<noteq> CHR ''%''"
proof -
  have all: "\<forall>d \<in> {..<16 :: nat}. char_at hex_digits d \<noteq> NUL \<and> char_at hex_digits d \<noteq> CHR ''%'' \<and>
      (d < 10 \<longrightarrow> char_digit_to_int (char_at hex_digits d) = int d)"
    by (simp add: lessThan_nat_numeral lessThan_Suc char_at_def hex_digits_def char_digit_to_int_def)
  then show "char_at hex_digits d \<noteq> NUL" "char_at hex_digits d \<noteq> CHR ''%''"
    and "d < 10 \<Longrightarrow> char_digit_to_int (char_at hex_digits d) = int d"
    using assms by auto
qed

lemma uint_digits_chars:
  "1 < base \<Longrightarrow> base \<le> 16 \<Longrightarrow> c \<in> set (uint_digits_loop n base []) \<Longrightarrow> c \<noteq> NUL \<and> c \<noteq> CHR ''%''"
proof (induction n rule: less_induct)
  case (less n)
  show ?case
  proof (cases "n = 0")
    case False
    have "n mod base < 16"
      using less.prems(1,2) by (meson less_le_trans mod_less_divisor not_less_iff_gr_or_eq order_less_trans zero_less_one)
    moreover have "n div base < n" using False less.prems(1) by simp
    ultimately show ?thesis using less.IH [of "n div base"] less.prems False
      by (auto simp: uint_digits_step hex_digit_facts simp del: div_less_dividend)
  qed (use less.prems in simp)
qed

lemma uint_to_str_base_eq:
  assumes "1 < base" "base \<le> 16"
  shows "uint_to_str_base n base = (if n = 0 then ''0'' else rev (uint_digits_loop (unat n) base []))"
  using uint_digits_chars [OF assms]
  by (auto simp: uint_to_str_base_def intro!: strreverse_rev [THEN trans])

abbreviation decimal_value :: "string \<Rightarrow> int" where
  "decimal_value s \<equiv> foldl (\<lambda>v c. v * 10 + char_digit_to_int c) 0 s"

abbreviation digit_char :: "char \<Rightarrow> bool" where
  "digit_char c \<equiv> 0 \<le> char_digit_to_int c \<and> char_digit_to_int c \<le> 9"

lemma pow10_fits: "j \<le> 9 \<Longrightarrow> (10 :: int) ^ j < 2 ^ 31"
  using power_increasing [of j 9 "10 :: int"] by simp

lemma digit_fits:
  assumes "0 \<le> d" "d \<le> 9" "0 \<le> n" "n < 10 ^ j" "j < 9"
  shows "c_int_fits (d * 10 ^ j) \<and> c_int_fits (n + d * 10 ^ j) \<and> c_int_fits (10 ^ j * 10) \<and>
    0 \<le> n + d * 10 ^ j \<and> n + d * 10 ^ j < 10 ^ Suc j"
proof -
  define m e where "m = (10 :: int) ^ j" and "e = d * m"
  have m: "10 * m < 2147483648" using pow10_fits [of "Suc j"] assms(5) by (simp add: m_def)
  have e: "0 \<le> e" "e \<le> 9 * m" using assms(1,2) by (simp_all add: e_def m_def)
  have n: "n < m" using assms(4) by (simp add: m_def)
  have fits: "c_int_fits x \<longleftrightarrow> -2147483648 \<le> x \<and> x < 2147483648" for x by (simp add: c_int_fits_def)
  have "c_int_fits e" "c_int_fits (n + e)" "c_int_fits (m * 10)" "0 \<le> n + e" "n + e < 10 * m"
    using m e n assms(3) unfolding fits by linarith+
  then show ?thesis by (simp only: m_def e_def power_Suc simp_thms)
qed

text \<open>Up to nine digits are read as their value; a tenth digit overflows the multiplier.\<close>

lemma str_to_int_loop_eq:
  "k \<le> length s \<Longrightarrow> \<forall>c \<in> set (take k s). digit_char c \<Longrightarrow> 0 \<le> n \<Longrightarrow> n < 10 ^ j \<Longrightarrow> j + k \<le> 9 \<Longrightarrow>
     str_to_int_loop s k (10 ^ j) n = Some (n + 10 ^ j * decimal_value (take k s))"
proof (induction k arbitrary: j n)
  case (Suc k)
  let ?d = "char_digit_to_int (s ! k)"
  have tk: "take (Suc k) s = take k s @ [s ! k]" using Suc.prems(1) by (simp add: take_Suc_conv_app_nth)
  then have d: "0 \<le> ?d" "?d \<le> 9" using Suc.prems(2) by simp_all
  have f: "c_int_fits (?d * 10 ^ j) \<and> c_int_fits (n + ?d * 10 ^ j) \<and> c_int_fits (10 ^ j * 10) \<and>
      0 \<le> n + ?d * 10 ^ j \<and> n + ?d * 10 ^ j < 10 ^ Suc j"
    using Suc.prems by (intro digit_fits d) simp_all
  have "str_to_int_loop s (Suc k) (10 ^ j) n = str_to_int_loop s k (10 ^ Suc j) (n + ?d * 10 ^ j)"
    using f by (simp add: DECIMAL_BASE_def mult.commute)
  also have "\<dots> = Some (n + ?d * 10 ^ j + 10 ^ Suc j * decimal_value (take k s))"
    using f Suc.prems tk by (intro Suc.IH) auto
  also have "n + ?d * 10 ^ j + 10 ^ Suc j * decimal_value (take k s) =
      n + 10 ^ j * (decimal_value (take k s) * 10 + ?d)"
    by (simp only: power_Suc ring_distribs ac_simps)
  also have "decimal_value (take k s) * 10 + ?d = decimal_value (take (Suc k) s)"
    unfolding tk foldl_append by (simp only: foldl.simps)
  finally show ?case .
qed simp

lemma str_to_int_loop_overflow: "9 < j + k \<Longrightarrow> j \<le> 9 \<Longrightarrow> str_to_int_loop s k (10 ^ j) n = None"
proof (induction k arbitrary: j n)
  case (Suc k)
  show ?case
  proof (cases "j = 9")
    case True
    then show ?thesis by (simp add: DECIMAL_BASE_def c_int_fits_def)
  next
    case False
    with Suc.prems Suc.IH [of "Suc j"] show ?thesis by (simp add: DECIMAL_BASE_def Let_def mult.commute)
  qed
qed simp

lemma str_to_int_eq:
  "k \<le> length s \<Longrightarrow> \<forall>c \<in> set (take k s). digit_char c \<Longrightarrow>
     str_to_int s k = (if k \<le> 9 then Some (decimal_value (take k s)) else None)"
  using str_to_int_loop_eq [of k s 0 0] str_to_int_loop_overflow [of 0 k s 0] by (simp add: str_to_int_def)

lemma decimal_value_digits: "decimal_value (rev (uint_digits_loop n 10 [])) = int n"
proof (induction n rule: less_induct)
  case (less n)
  show ?case
  proof (cases "n = 0")
    case False
    with less [of "n div 10"] hex_digit_facts(2) [of "n mod 10"] show ?thesis
      by (simp add: uint_digits_step) (metis add.commute mult.commute mult_div_mod_eq of_nat_add of_nat_mult of_nat_numeral)
  qed simp
qed

lemma uint_digits_digit_chars: "c \<in> set (uint_digits_loop n 10 []) \<Longrightarrow> digit_char c"
proof (induction n rule: less_induct)
  case (less n)
  show ?case
  proof (cases "n = 0")
    case False
    then have "n div 10 < n" by simp
    moreover have "char_digit_to_int (char_at hex_digits (n mod 10)) = int (n mod 10)"
      by (rule hex_digit_facts(2)) (simp_all add: less_trans [of _ 10])
    moreover have "int (n mod 10) \<le> 9" using mod_less_divisor [of 10 n] by linarith
    moreover have "c = char_at hex_digits (n mod 10) \<or> c \<in> set (uint_digits_loop (n div 10) 10 [])"
      using less.prems False by (simp add: uint_digits_step)
    ultimately show ?thesis using less.IH [of "n div 10"] by fastforce
  qed (use less.prems in simp)
qed

lemma length_uint_digits_ge: "1 < base \<Longrightarrow> base ^ k \<le> n \<Longrightarrow> k < length (uint_digits_loop n base [])"
proof (induction k arbitrary: n)
  case 0
  then show ?case by (simp add: uint_digits_step)
next
  case (Suc k)
  then have "base ^ k \<le> n div base" by (simp add: less_eq_div_iff_mult_less_eq mult.commute)
  moreover have "0 < n" using Suc.prems by (metis gr0I le_zero_eq not_one_less_zero power_eq_0_iff)
  ultimately show ?case using Suc by (simp add: uint_digits_step)
qed

text \<open>
  C32. Printing a number and reading it back: the decimal string of a 32-bit number fits its
  static buffer of 32 characters with its terminator, and \<^verbatim>\<open>str_to_int()\<close> recovers the
  number from it exactly when it has at most nine digits; from ten digits on the
  \<^verbatim>\<open>int\<close> multiplier of the loop overflows, which is undefined.
\<close>

theorem uint_to_str_roundtrip:
  "length (uint_to_str n) < 32 \<and>
   str_to_int (uint_to_str n) (length (uint_to_str n)) = (if uint n < 10 ^ 9 then Some (uint n) else None)"
proof (cases "n = 0")
  case True
  then show ?thesis
    by (simp add: uint_to_str_def DECIMAL_BASE_def uint_to_str_base_eq str_to_int_eq char_digit_to_int_def)
next
  case False
  let ?ds = "uint_digits_loop (unat n) 10 []"
  from False have s: "uint_to_str n = rev ?ds"
    by (simp add: uint_to_str_def DECIMAL_BASE_def uint_to_str_base_eq)
  have "length ?ds \<le> 10" using unat32_lt [of n] by (intro length_uint_digits) auto
  moreover have "length ?ds \<le> 9 \<longleftrightarrow> unat n < 10 ^ 9"
    using length_uint_digits [of 10 "unat n" 9] length_uint_digits_ge [of 10 9 "unat n"] by fastforce
  moreover have "unat n < 10 ^ 9 \<longleftrightarrow> uint n < 10 ^ 9"
  proof -
    have "int (unat n) < int (10 ^ 9) \<longleftrightarrow> uint n < 10 ^ 9" by simp
    then show ?thesis unfolding of_nat_less_iff .
  qed
  moreover have "\<forall>c \<in> set (take (length ?ds) (rev ?ds)). digit_char c"
    using uint_digits_digit_chars by (auto dest: in_set_takeD)
  ultimately have "str_to_int (rev ?ds) (length ?ds) = (if uint n < 10 ^ 9 then Some (uint n) else None)"
    using str_to_int_eq [of "length ?ds" "rev ?ds"] decimal_value_digits [of "unat n"] by simp
  then show ?thesis using \<open>length ?ds \<le> 10\<close> by (simp add: s)
qed

end
