(* ===== verification/Format_Spec.thy ===== *)
theory Format_Spec
  imports Format
begin

text \<open>
  What the formatted output of \<^verbatim>\<open>src/bld/debug.c\<close> means, and that the code produces it. A
  format and its arguments stand for a text, \<open>fmt_spec\<close>, defined on lists with no buffer
  and no index; \<^verbatim>\<open>Vsnprintf()\<close> writes as much of that text as fits the buffer, and a
  terminator behind it.
\<close>

section \<open>Writes into a buffer\<close>

text \<open>
  \<open>wrote s w s' x\<close>: \<open>s'\<close> is the buffer \<open>s\<close> after the characters
  \<open>x\<close> have been written to it from index \<open>w\<close> on.
\<close>

definition wrote :: "string \<Rightarrow> int \<Rightarrow> string \<Rightarrow> string \<Rightarrow> bool" where
  "wrote s w s' x \<longleftrightarrow> 0 \<le> w \<and> w + int (length x) \<le> int (length s) \<and> length s' = length s \<and>
     take (nat w + length x) s' = take (nat w) s @ x"

lemma wrote_Nil: "0 \<le> w \<Longrightarrow> w \<le> int (length s) \<Longrightarrow> wrote s w s []"
  by (simp add: wrote_def)

lemma wrote_append:
  assumes "wrote s w s1 x" and "wrote s1 (w + int (length x)) s2 y"
  shows "wrote s w s2 (x @ y)"
  using assms by (auto simp: wrote_def nat_add_distrib add.assoc)

lemma buf_put_wrote:
  assumes "0 \<le> w" and "w < int (length s)"
  shows "\<exists>s'. buf_put s w c = FOk s' \<and> wrote s w s' [c]"
proof -
  have "take (Suc (nat w)) (s[nat w := c]) = take (nat w) s @ [c]"
    using assms by (simp add: take_Suc_conv_app_nth nat_less_iff)
  then show ?thesis using assms by (simp add: buf_put_def wrote_def)
qed

lemma Strncpy_loop_wrote:
  assumes "0 \<le> w" and "w + int (i + k) \<le> int (length s)" and "i + k \<le> length src"
  shows "\<exists>s'. Strncpy_loop s w src i k = FOk s' \<and> wrote s (w + int i) s' (take k (drop i src))"
  using assms
proof (induction k arbitrary: i s)
  case 0
  then show ?case by (simp add: wrote_Nil)
next
  case (Suc k)
  then obtain s1 where s1: "buf_put s (w + int i) (char_at src i) = FOk s1"
    "wrote s (w + int i) s1 [char_at src i]"
    using buf_put_wrote [of "w + int i" s "char_at src i"] by auto
  have len: "length s1 = length s" using s1(2) by (simp add: wrote_def)
  obtain s2 where s2: "Strncpy_loop s1 w src (Suc i) k = FOk s2"
    "wrote s1 (w + int (Suc i)) s2 (take k (drop (Suc i) src))"
    using Suc.IH [of "Suc i" s1] Suc.prems len by auto
  have "take (Suc k) (drop i src) = [char_at src i] @ take k (drop (Suc i) src)"
    using Suc.prems by (simp add: char_at_def Cons_nth_drop_Suc [symmetric])
  moreover have "wrote s (w + int i) s2 ([char_at src i] @ take k (drop (Suc i) src))"
    using s2(2) by (intro wrote_append [OF s1(2)]) (simp add: algebra_simps)
  ultimately show ?case using Suc.prems s1(1) s2(1) by (simp add: fbind_def)
qed

lemma Strncpy_wrote:
  assumes "0 \<le> w" and "w + k \<le> int (length s)" and "0 \<le> k" and "nat k \<le> length src"
  shows "\<exists>s'. Strncpy s w src k = FOk (s', k) \<and> wrote s w s' (take (nat k) src)"
  using Strncpy_loop_wrote [of w 0 "nat k" s src] assms by (auto simp: Strncpy_def fbind_def)

lemma pad_loop_wrote:
  assumes "0 \<le> w" and "w \<le> int (length s)"
  shows "\<exists>s'. pad_loop s w (int (length s)) pad k =
      FOk (s', w + int (min k (length s - nat w))) \<and> wrote s w s' (replicate (min k (length s - nat w)) pad)"
  using assms
proof (induction k arbitrary: s w)
  case 0
  then show ?case by (simp add: wrote_Nil)
next
  case (Suc k)
  show ?case
  proof (cases "w < int (length s)")
    case True
    then obtain s1 where s1: "buf_put s w pad = FOk s1" "wrote s w s1 [pad]"
      using buf_put_wrote [OF Suc.prems(1)] by blast
    then have len: "length s1 = length s" by (simp add: wrote_def)
    let ?k = "min k (length s - nat (w + 1))"
    obtain s2 where s2: "pad_loop s1 (w + 1) (int (length s)) pad k = FOk (s2, w + 1 + int ?k)"
      "wrote s1 (w + 1) s2 (replicate ?k pad)"
      using Suc.IH [of "w + 1" s1] Suc.prems True len by auto
    have k: "min (Suc k) (length s - nat w) = Suc ?k" using True Suc.prems by linarith
    have "wrote s w s2 ([pad] @ replicate ?k pad)"
      using s2(2) by (intro wrote_append [OF s1(2)]) simp
    then show ?thesis unfolding k using True s1(1) s2(1) by (simp add: fbind_def algebra_simps)
  next
    case False
    then have "w = int (length s)" using Suc.prems by simp
    then show ?thesis by (simp add: wrote_Nil)
  qed
qed

section \<open>What a format means\<close>

definition is_digit :: "char \<Rightarrow> bool" where
  "is_digit c \<longleftrightarrow> c \<in> set ''0123456789''"

text \<open>
  The prefix and the digits or text of a conversion and the arguments left after it; \<open>None\<close> for
  an unknown specifier or a missing argument.
\<close>

definition conv_spec :: "char \<Rightarrow> va list \<Rightarrow> (string \<times> string \<times> va list) option" where
  "conv_spec spec ap =
     (case ap of
        [] \<Rightarrow> None
      | VaU v # ap' \<Rightarrow>
          if spec = CHR ''u'' then Some ('''', uint_to_str v, ap')
          else if spec = CHR ''x'' then Some (''0x'', uint_to_hexstr v, ap') else None
      | VaS v # ap' \<Rightarrow> if spec = CHR ''s'' then Some ('''', take (Strlen v) v, ap') else None)"

definition field_spec :: "char \<Rightarrow> nat \<Rightarrow> string \<Rightarrow> string" where
  "field_spec pad width body = replicate (width - length body) pad @ body"

text \<open>
  What follows a percent sign: the padding character, the digits of the width, at most nine
  of them so that the width and the multiplier of its last digit are values of an
  \<^verbatim>\<open>int\<close>, the specifier and the rest of the format.
\<close>

definition fmt_field :: "string \<Rightarrow> (char \<times> string \<times> char \<times> string) option" where
  "fmt_field cs =
     (let zero = (cs \<noteq> [] \<and> hd cs = CHR ''0'');
          cs1 = (if zero then tl cs else cs);
          ds = takeWhile is_digit cs1
      in case dropWhile is_digit cs1 of
           [] \<Rightarrow> None
         | spec # cs2 \<Rightarrow>
             if ds \<noteq> [] \<and> (9 < length ds \<or> \<not> specifier_supports_field_width spec) then None
             else Some (if zero then CHR ''0'' else CHR '' '', ds, spec, cs2))"

lemma is_digit_value: "is_digit c \<Longrightarrow> digit_char c"
  by (auto simp: is_digit_def char_digit_to_int_def)

lemma fmt_field_length: "fmt_field cs = Some (pad, ds, spec, cs2) \<Longrightarrow> length cs2 < length cs"
  using length_dropWhile_le [of is_digit cs] length_dropWhile_le [of is_digit "tl cs"]
  by (auto simp: fmt_field_def Let_def split: list.splits if_splits)

text \<open>The whole text a format stands for, with no bound on its length.\<close>

function fmt_spec :: "string \<Rightarrow> va list \<Rightarrow> string option" where
  "fmt_spec [] ap = Some []"
| "fmt_spec (c # cs) ap =
     (if c \<noteq> CHR ''%'' then map_option ((#) c) (fmt_spec cs ap)
      else case fmt_field cs of
        None \<Rightarrow> None
      | Some (pad, ds, spec, cs2) \<Rightarrow>
          (case conv_spec spec ap of
             None \<Rightarrow> None
           | Some (pre, body, ap') \<Rightarrow>
               map_option (\<lambda>rest. pre @ field_spec pad (nat (decimal_value ds)) body @ rest)
                 (fmt_spec cs2 ap')))"
  by pat_completeness auto
termination
  by (relation "measure (\<lambda>(cs, ap). length cs)") (auto dest: fmt_field_length)

lemma str_find_not_None: "str_find s c \<noteq> None \<longleftrightarrow> c = NUL \<or> c \<in> set (take (Strlen s) s)"
  by (induction s) auto

lemma digit_in_set: "str_find ''0123456789'' c = None \<longleftrightarrow> c \<noteq> NUL \<and> \<not> is_digit c"
  using str_find_not_None [of "''0123456789''" c] by (auto simp: is_digit_def)

lemma find_loop_digits:
  "NUL \<notin> set s \<Longrightarrow> str_find_char_not_in_set_loop s ''0123456789'' i =
     (if dropWhile is_digit s = [] then -1 else int (i + length (takeWhile is_digit s)))"
  by (induction s arbitrary: i) (auto simp: digit_in_set simp del: str_find.simps)

lemma find_digits:
  "NUL \<notin> set s \<Longrightarrow> str_find_char_not_in_set s ''0123456789'' =
     (if dropWhile is_digit s = [] then -1 else int (length (takeWhile is_digit s)))"
  by (simp add: str_find_char_not_in_set_def find_loop_digits del: str_find_char_not_in_set_loop.simps)

lemma char_at_drop: "char_at fmt (r + k) = char_at (drop r fmt) k"
  by (auto simp: char_at_def)

lemma nth_dropWhile_hd: "dropWhile P xs = y # ys \<Longrightarrow> char_at xs (length (takeWhile P xs)) = y"
  by (metis char_at_def length_append length_Cons less_add_Suc1 add_Suc_right nth_append_length takeWhile_dropWhile_id)

text \<open>The index-based parse of the code finds the same field.\<close>

lemma parse_width_field:
  assumes "NUL \<notin> set fmt" and "r < length fmt"
    and "fmt_field (drop (Suc r) fmt) = Some (pad, ds, spec, cs2)"
  shows "\<exists>r'. parse_width fmt (length fmt) r = FOk (pad, decimal_value ds, r') \<and> r < r' \<and>
    char_at fmt r' = spec \<and> r' < length fmt \<and> drop (Suc r') fmt = cs2"
proof -
  define cs where "cs = drop (Suc r) fmt"
  define zero where "zero = (cs \<noteq> [] \<and> hd cs = CHR ''0'')"
  define r2 where "r2 = (if zero then Suc (Suc r) else Suc r)"
  define cs1 where "cs1 = drop r2 fmt"
  have nn: "NUL \<notin> set cs1" using assms(1) by (auto simp: cs1_def dest: in_set_dropD)
  have cs1: "cs1 = (if zero then tl cs else cs)"
    by (simp add: cs1_def r2_def cs_def drop_Suc tl_drop)
  have z: "char_at fmt (Suc r) = CHR ''0'' \<longleftrightarrow> zero"
    by (cases "Suc r < length fmt") (auto simp: zero_def cs_def char_at_def hd_drop_conv_nth)
  have zl: "zero \<Longrightarrow> Suc r < length fmt" by (auto simp: zero_def cs_def)
  from assms(3) have dw: "dropWhile is_digit cs1 = spec # cs2"
    and ds: "ds = takeWhile is_digit cs1"
    and pad: "pad = (if zero then CHR ''0'' else CHR '' '')"
    and sup: "ds \<noteq> [] \<Longrightarrow> specifier_supports_field_width spec" and nine: "length ds \<le> 9"
    by (auto simp: fmt_field_def Let_def cs_def [symmetric] zero_def [symmetric] cs1 [symmetric]
        split: list.splits if_splits)
  define r3 where "r3 = r2 + length ds"
  have sp: "char_at fmt r3 = spec" using nth_dropWhile_hd [OF dw] by (simp add: r3_def char_at_drop cs1_def ds)
  have split: "cs1 = ds @ spec # cs2" using dw ds by (metis takeWhile_dropWhile_id)
  have r3: "r3 < length fmt" "drop (Suc r3) fmt = cs2"
  proof -
    have "length cs1 = length ds + Suc (length cs2)" by (simp add: split)
    then show "r3 < length fmt" by (simp add: r3_def cs1_def)
    have "drop (Suc r3) fmt = drop (Suc (length ds)) cs1" by (simp add: r3_def cs1_def add.commute)
    then show "drop (Suc r3) fmt = cs2" by (simp add: split)
  qed
  have "\<forall>c \<in> set ds. digit_char c" using ds is_digit_value by (auto dest: set_takeWhileD)
  then have num: "str_to_int cs1 (length ds) = Some (decimal_value ds)"
    using str_to_int_eq [of "length ds" cs1] nine by (simp add: split)
  have f: "str_find_char_not_in_set (drop r2 fmt) ''0123456789'' = int (length ds)"
    unfolding cs1_def [symmetric] find_digits [OF nn] dw ds by simp
  have "parse_field_width fmt (length fmt) pad r2 = FOk (pad, decimal_value ds, r3)"
    using r3(1) sp sup num unfolding parse_field_width_def f Let_def
    by (cases "ds = []") (simp_all add: r3_def cs1_def)
  then have "parse_width fmt (length fmt) r = FOk (pad, decimal_value ds, r3)"
    using assms(2) zl z pad by (simp add: parse_width_def r2_def split: if_splits)
  then show ?thesis using r3 sp by (auto simp: r3_def r2_def)
qed

lemma digit_strings_chars:
  "NUL \<notin> set (uint_to_str v)" "NUL \<notin> set (uint_to_hexstr v)" "CHR ''%'' \<notin> set (uint_to_str v)"
  using uint_digits_chars [of 10] uint_digits_chars [of 16]
  by (auto simp: uint_to_str_def uint_to_hexstr_def uint_to_str_base_eq DECIMAL_BASE_def HEX_BASE_def)

lemma digit_strings_Strlen [simp]:
  "Strlen (uint_to_str v) = length (uint_to_str v)" "Strlen (uint_to_hexstr v) = length (uint_to_hexstr v)"
  by (simp_all add: Strlen_eq_length digit_strings_chars)

lemma conversion_wrote:
  assumes "conv_spec spec ap = Some (pre, body, ap')" and "0 \<le> w" and "w \<le> int (length s)"
  shows "\<exists>s' sarg. conversion s w (int (length s)) spec ap =
      FOk (s', w + int (length (take (length s - nat w) pre)), sarg, ap') \<and>
    wrote s w s' (take (length s - nat w) pre) \<and> body = take (Strlen sarg) sarg"
proof -
  have n: "c_min (int (length s) - w) 2 = int (length (take (length s - nat w) ''0x''))"
    using assms(2,3) by (auto simp: c_min_def)
  define k where "k = int (length (take (length s - nat w) ''0x''))"
  have k: "0 \<le> k" "w + k \<le> int (length s)" "nat k \<le> length ''0x''"
    using assms(2,3) by (auto simp: k_def)
  obtain s' where s': "Strncpy s w ''0x'' k = FOk (s', k)" "wrote s w s' (take (nat k) ''0x'')"
    using Strncpy_wrote [OF assms(2) k(2,1,3)] by blast
  have t: "take (nat k) ''0x'' = take (length s - nat w) ''0x''"
    unfolding k_def nat_int by (simp only: length_take take_take [symmetric] min.commute) simp
  note w0 = wrote_Nil [OF assms(2,3)]
  obtain v rest where ap: "ap = v # rest" using assms(1) by (cases ap) (simp_all add: conv_spec_def)
  show ?thesis
  proof (cases v)
    case (VaU u)
    consider "spec = CHR ''u''" | "spec = CHR ''x''" using assms(1) by (auto simp: conv_spec_def ap VaU split: if_splits)
    then show ?thesis
    proof cases
      case 1
      then show ?thesis using assms(1) w0 by (auto simp: conv_spec_def conversion_def ap VaU)
    next
      case 2
      then have e: "pre = ''0x''" "body = uint_to_hexstr u" "ap' = rest"
        using assms(1) by (simp_all add: conv_spec_def ap VaU)
      show ?thesis unfolding e using 2 s' t
        by (simp add: conversion_def ap VaU n k_def [symmetric] fbind_def del: length_take take_Cons_numeral)
    qed
  next
    case (VaS u)
    then show ?thesis using assms(1) w0 by (auto simp: conv_spec_def conversion_def ap split: if_splits)
  qed
qed

lemma take_3_append:
  "take m x @ replicate (min k (m - length (take m x))) c @
     take (m - length (take m x) - min k (m - length (take m x))) y = take m (x @ replicate k c @ y)"
  by (simp add: min_def)

lemma format_arg_wrote:
  assumes "NUL \<notin> set fmt" and "r < length fmt" and "0 \<le> w" and "w \<le> int (length s)"
    and "fmt_field (drop (Suc r) fmt) = Some (pad, ds, spec, cs2)"
    and "conv_spec spec ap = Some (pre, body, ap')"
  defines "x \<equiv> take (length s - nat w) (pre @ field_spec pad (nat (decimal_value ds)) body)"
  shows "\<exists>s' r'. format_arg fmt (length fmt) s (int (length s)) w r ap =
      FOk (s', w + int (length x), r', ap') \<and> wrote s w s' x \<and> r < r' \<and>
      drop (Suc r') fmt = cs2"
proof -
  obtain r' where pw: "parse_width fmt (length fmt) r = FOk (pad, decimal_value ds, r')"
    and r': "r < r'" "char_at fmt r' = spec" "drop (Suc r') fmt = cs2"
    using parse_width_field [OF assms(1,2,5)] by blast
  define m where "m = length s - nat w"
  define x1 where "x1 = take m pre"
  obtain s1 sarg where cv: "conversion s w (int (length s)) spec ap = FOk (s1, w + int (length x1), sarg, ap')"
    and w1: "wrote s w s1 x1" and body: "body = take (Strlen sarg) sarg"
    using conversion_wrote [OF assms(6,3,4)] unfolding x1_def m_def by blast
  have len1: "length s1 = length s" and le1: "w + int (length x1) \<le> int (length s)"
    using w1 by (simp_all add: wrote_def)
  have lb: "length body = Strlen sarg" using Strlen_le [of sarg] by (simp add: body)
  define w1' where "w1' = w + int (length x1)"
  define m1 where "m1 = length s1 - nat w1'"
  have m1: "m1 = m - length x1" using assms(3) by (simp add: m1_def m_def len1 w1'_def nat_add_distrib)
  define f where "f = nat (decimal_value ds - int (Strlen sarg))"
  have fw: "f = nat (decimal_value ds) - length body" by (simp add: f_def lb nat_diff_distrib')
  define x2 where "x2 = replicate (min f m1) pad"
  have "\<exists>s2. pad_loop s1 w1' (int (length s1)) pad f = FOk (s2, w1' + int (min f m1)) \<and> wrote s1 w1' s2 x2"
    unfolding x2_def m1_def by (rule pad_loop_wrote) (use assms(3) le1 in \<open>simp_all add: w1'_def len1\<close>)
  then obtain s2 where pd: "pad_loop s1 w1' (int (length s)) pad f = FOk (s2, w1' + int (length x2))"
    and w2: "wrote s1 w1' s2 x2" unfolding len1 x2_def by auto
  have len2: "length s2 = length s" and le2: "w1' + int (length x2) \<le> int (length s)"
    using w2 len1 by (simp_all add: wrote_def)
  define w2' where "w2' = w1' + int (length x2)"
  define j where "j = c_min (int (length s) - w2') (int (Strlen sarg))"
  have m2: "length s - nat w2' = m1 - length x2" using assms(3) by (simp add: w2'_def w1'_def m1_def len1 nat_add_distrib)
  have j: "0 \<le> j" "w2' + j \<le> int (length s2)" "nat j \<le> length sarg" "0 \<le> w2'"
    "nat j = min (length body) (m1 - length x2)"
    using assms(3) le2 Strlen_le [of sarg] lb m2 by (auto simp: j_def c_min_def len2 w2'_def w1'_def)
  obtain s3 where cp: "Strncpy s2 w2' sarg j = FOk (s3, j)" and w3: "wrote s2 w2' s3 (take (nat j) sarg)"
    using Strncpy_wrote [OF j(4,2,1,3)] by blast
  have x3: "take (nat j) sarg = take (m1 - length x2) body"
    unfolding j(5) body lb using Strlen_le [of sarg] by (simp add: min.commute min.absorb2 min_def)
  have "wrote s w s3 ((x1 @ x2) @ take (nat j) sarg)"
  proof (rule wrote_append)
    show "wrote s w s2 (x1 @ x2)" by (rule wrote_append [OF w1]) (use w2 in \<open>simp add: w1'_def\<close>)
    show "wrote s2 (w + int (length (x1 @ x2))) s3 (take (nat j) sarg)"
      using w3 by (simp add: w2'_def w1'_def add.assoc)
  qed
  moreover have xx: "(x1 @ x2) @ take (nat j) sarg = x"
    using take_3_append [of m pre f pad body]
    unfolding x3 x_def field_spec_def x1_def m1 x2_def m_def [symmetric] fw by simp
  moreover have "w2' + j = w + int (length x)"
    unfolding xx [symmetric] using j(1,3) by (simp add: w2'_def w1'_def)
  ultimately show ?thesis
    using r' pw cv pd cp
    by (simp add: format_arg_def fbind_def w1'_def [symmetric] w2'_def [symmetric] f_def [symmetric] j_def [symmetric])
qed

lemma take_append_take: "take m x @ take (m - length (take m x)) y = take m (x @ y)"
  by (simp add: min_def)

lemma Vsnprintf_loop_wrote:
  assumes "NUL \<notin> set fmt" and "fmt_spec (drop r fmt) ap = Some full"
    and "0 \<le> w" and "w \<le> int (length s)" and "length fmt < r + k"
  defines "x \<equiv> take (length s - nat w) full"
  shows "\<exists>s'. Vsnprintf_loop k fmt (length fmt) s (int (length s)) w r ap =
      FOk (s', w + int (length x)) \<and> wrote s w s' x"
  using assms(2-5) unfolding x_def
proof (induction k arbitrary: r s w ap full)
  case (Suc k)
  show ?case
  proof (cases "r < length fmt \<and> w < int (length s)")
    case False
    then have "take (length s - nat w) full = []" using Suc.prems by auto
    with False show ?thesis using wrote_Nil [OF Suc.prems(2,3)] by auto
  next
    case True
    then have d: "drop r fmt = fmt ! r # drop (Suc r) fmt" and ca: "char_at fmt r = fmt ! r"
      by (simp_all add: Cons_nth_drop_Suc char_at_def)
    show ?thesis
    proof (cases "fmt ! r = CHR ''%''")
      case False
      then obtain rest where full: "full = fmt ! r # rest" and rest: "fmt_spec (drop (Suc r) fmt) ap = Some rest"
        using Suc.prems(1) by (auto simp: d)
      obtain s1 where s1: "buf_put s w (fmt ! r) = FOk s1" "wrote s w s1 [fmt ! r]"
        using buf_put_wrote [of w s "fmt ! r"] Suc.prems(2) True by blast
      have len: "length s1 = length s" using s1(2) by (simp add: wrote_def)
      obtain s2 where s2: "Vsnprintf_loop k fmt (length fmt) s1 (int (length s)) (w + 1) (Suc r) ap =
          FOk (s2, w + 1 + int (length (take (length s - nat (w + 1)) rest)))"
        "wrote s1 (w + 1) s2 (take (length s - nat (w + 1)) rest)"
        using Suc.IH [OF rest, of "w + 1" s1] Suc.prems True len by auto
      have x: "take (length s - nat w) full = [fmt ! r] @ take (length s - nat (w + 1)) rest"
      proof -
        have "nat w < length s" using True Suc.prems(2) by linarith
        then show ?thesis using Suc.prems(2) by (simp add: full take_Cons' nat_add_distrib)
      qed
      have "wrote s w s2 ([fmt ! r] @ take (length s - nat (w + 1)) rest)"
        using s2(2) by (intro wrote_append [OF s1(2)]) simp
      then show ?thesis unfolding x using True False s1(1) s2(1) ca by (simp add: fbind_def)
    next
      case pct: True
      then obtain pad ds spec cs2 pre body ap' rest where
        ff: "fmt_field (drop (Suc r) fmt) = Some (pad, ds, spec, cs2)"
        and cs: "conv_spec spec ap = Some (pre, body, ap')"
        and rest: "fmt_spec cs2 ap' = Some rest"
        and full: "full = (pre @ field_spec pad (nat (decimal_value ds)) body) @ rest"
        using Suc.prems(1) by (auto simp: d split: option.splits prod.splits)
      let ?f = "pre @ field_spec pad (nat (decimal_value ds)) body"
      define x1 where "x1 = take (length s - nat w) ?f"
      obtain s1 r' where s1: "format_arg fmt (length fmt) s (int (length s)) w r ap = FOk (s1, w + int (length x1), r', ap')"
        "wrote s w s1 x1" and r': "r < r'" "drop (Suc r') fmt = cs2"
        using format_arg_wrote [OF assms(1) _ Suc.prems(2,3) ff cs] True unfolding x1_def by blast
      have len: "length s1 = length s" and w1: "w + int (length x1) \<le> int (length s1)"
        using s1(2) by (simp_all add: wrote_def)
      have rest': "fmt_spec (drop (Suc r') fmt) ap' = Some rest" using rest r'(2) by simp
      have rk: "length fmt < Suc r' + k" and w0: "0 \<le> w + int (length x1)" using Suc.prems(2,4) r'(1) by auto
      define x2 where "x2 = take (length s1 - nat (w + int (length x1))) rest"
      obtain s2 where s2: "Vsnprintf_loop k fmt (length fmt) s1 (int (length s)) (w + int (length x1)) (Suc r') ap' =
          FOk (s2, w + int (length x1) + int (length x2))" "wrote s1 (w + int (length x1)) s2 x2"
        using Suc.IH [OF rest' w0 w1 rk] unfolding x2_def len by blast
      have x: "take (length s - nat w) full = x1 @ x2"
      proof -
        have "length s1 - nat (w + int (length x1)) = (length s - nat w) - length x1"
          using Suc.prems(2) by (simp add: len nat_add_distrib)
        then show ?thesis unfolding full x2_def x1_def using take_append_take [of "length s - nat w" ?f rest] by simp
      qed
      show ?thesis unfolding x
        using True pct ca s1 s2 wrote_append [OF s1(2) s2(2)] by (simp add: fbind_def add.assoc)
    qed
  qed
qed (simp add: wrote_Nil)

text \<open>
  The terminator of the format may be inside a longer array: what is behind it is not read.
\<close>

lemma char_at_terminated: "i \<le> length x \<Longrightarrow> char_at (x @ NUL # y) i = char_at x i"
  by (auto simp: char_at_def nth_append)

lemma find_terminated:
  "str_find_char_not_in_set_loop (z @ NUL # y) cs i = str_find_char_not_in_set_loop z cs i"
  by (induction z arbitrary: i) auto

lemma find_bound: "str_find_char_not_in_set_loop z cs i \<le> int (i + length z)"
proof (induction z arbitrary: i)
  case (Cons x z)
  from Cons [of "Suc i"] show ?case by simp
qed simp

lemma str_to_int_loop_terminated:
  "k \<le> length z \<Longrightarrow> str_to_int_loop (z @ y) k mult n = str_to_int_loop z k mult n"
  by (induction k arbitrary: mult n) (simp_all add: Let_def nth_append)

lemma str_to_int_terminated: "k \<le> length z \<Longrightarrow> str_to_int (z @ y) k = str_to_int z k"
  by (simp add: str_to_int_def str_to_int_loop_terminated)

lemma parse_field_width_terminated:
  assumes "r \<le> length x"
  shows "parse_field_width (x @ NUL # y) (length x) pad r = parse_field_width x (length x) pad r"
proof -
  let ?i = "str_find_char_not_in_set (drop r x) ''0123456789''"
  have i: "?i \<le> int (length x - r)"
    using find_bound [of "drop r x" "''0123456789''" 0] by (simp add: str_find_char_not_in_set_def)
  have f: "str_find_char_not_in_set (drop r (x @ NUL # y)) ''0123456789'' = ?i"
    using assms by (simp add: str_find_char_not_in_set_def find_terminated)
  have n: "nat ?i \<le> length (drop r x)" "r + nat ?i \<le> length x" using i assms by auto
  show ?thesis unfolding parse_field_width_def f Let_def char_at_terminated [OF n(2)]
    using str_to_int_terminated [OF n(1), of "NUL # y"] assms by simp
qed

lemma parse_width_terminated: "parse_width (x @ NUL # y) (length x) r = parse_width x (length x) r"
  by (simp add: parse_width_def char_at_terminated parse_field_width_terminated)

lemma parse_field_width_bound:
  "parse_field_width x n pad r = FOk (p, f, r') \<Longrightarrow> r \<le> n \<Longrightarrow> r' \<le> n"
  by (auto simp: parse_field_width_def Let_def split: if_splits option.splits)

lemma parse_width_bound: "parse_width x n r = FOk (p, f, r') \<Longrightarrow> r' \<le> n"
  by (auto simp: parse_width_def dest!: parse_field_width_bound split: if_splits)

lemma format_arg_terminated:
  "format_arg (x @ NUL # y) (length x) s n w r ap = format_arg x (length x) s n w r ap"
proof (cases "parse_width x (length x) r")
  case (FOk v)
  then show ?thesis
    by (cases v) (simp add: format_arg_def parse_width_terminated fbind_def char_at_terminated [OF parse_width_bound])
qed (simp_all add: format_arg_def parse_width_terminated fbind_def)

lemma Vsnprintf_loop_terminated:
  "Vsnprintf_loop k (x @ NUL # y) (length x) s n w r ap = Vsnprintf_loop k x (length x) s n w r ap"
proof (induction k arbitrary: s w r ap)
  case (Suc k)
  show ?case
    by (auto simp: fbind_def format_arg_terminated char_at_terminated Suc.IH split: fres.split)
qed simp

lemma Vsnprintf_terminated:
  "NUL \<notin> set x \<Longrightarrow> Vsnprintf s n (x @ NUL # y) ap = Vsnprintf s n x ap"
  by (simp add: Vsnprintf_def Strlen_append_NUL Strlen_eq_length Vsnprintf_loop_terminated del: Vsnprintf_loop.simps(2))

lemma Vsnprintf_wrote:
  assumes "NUL \<notin> set fmt" and "fmt_spec fmt ap = Some full" and "s \<noteq> []"
  defines "k \<equiv> min (length full) (length s - 1)"
  shows "\<exists>s'. Vsnprintf s (int (length s)) fmt ap = FOk s' \<and> length s' = length s \<and>
    take k s' = take k full \<and> s' ! k = NUL"
proof -
  let ?x = "take (length s) full"
  obtain s1 where s1: "Vsnprintf_loop (Suc (length fmt)) fmt (length fmt) s (int (length s)) 0 0 ap = FOk (s1, int (length ?x))"
    "wrote s 0 s1 ?x"
    using Vsnprintf_loop_wrote [OF assms(1), of 0 ap full 0 s "Suc (length fmt)"] assms(2) by auto
  have s1': "length s1 = length s" "take (length ?x) s1 = ?x" using s1(2) by (simp_all add: wrote_def)
  have k: "k < length s" "k \<le> length ?x" using assms(3) by (cases s; simp add: k_def)+
  have "take k s1 = take k full"
    using arg_cong [OF s1'(2), of "take k"] k by (simp add: min_def split: if_splits)
  moreover have "Vsnprintf s (int (length s)) fmt ap = FOk (s1[k := NUL])"
  proof -
    have "Vsnprintf s (int (length s)) fmt ap =
      (if int (length ?x) < int (length s) then buf_put s1 (int (length ?x)) NUL
       else buf_put s1 (int (length s) - 1) NUL)"
      unfolding Vsnprintf_def Strlen_eq_length [OF assms(1)] s1(1) by (simp add: fbind_def)
    also have "\<dots> = FOk (s1[k := NUL])"
      using assms(3) s1'(1) by (auto simp: buf_put_def k_def min_def nat_diff_distrib')
    finally show ?thesis .
  qed
  ultimately show ?thesis using k(1) s1'(1) by simp
qed

section \<open>Formatted output\<close>

text \<open>
  C8. \<^verbatim>\<open>Vsnprintf()\<close> refines the meaning of its format: for a well-formed format, its
  field widths of at most nine digits, with arguments of the right types it never writes
  outside its buffer, no \<^verbatim>\<open>int\<close> of \<^verbatim>\<open>str_to_int()\<close> overflows, the buffer then holds the
  text the format stands for, cut off to leave room for the terminator, and the terminator is
  there.
\<close>

theorem Vsnprintf_refines:
  assumes "NUL \<notin> set fmt" and "fmt_spec fmt ap = Some full" and "s \<noteq> []"
  shows "\<exists>s'. Vsnprintf s (int (length s)) fmt ap = FOk s' \<and> length s' = length s \<and>
    take (min (length full) (length s - 1)) s' = take (min (length full) (length s - 1)) full \<and>
    s' ! min (length full) (length s - 1) = NUL"
  by (rule Vsnprintf_wrote [OF assms])

theorem Vsnprintf_refines_witness:
  "\<exists>s'. Vsnprintf (replicate 14 (CHR ''?'')) 14 ''id %04x of %s'' [VaU 255, VaS ''kernel''] = FOk s' \<and>
     length s' = 14 \<and> take 13 s' = ''id 0x00ff of '' \<and> s' ! 13 = NUL"
proof -
  have d: "fmt_spec ''id %04x of %s'' [VaU 255, VaS ''kernel''] = Some ''id 0x00ff of kernel''"
    by (simp add: fmt_field_def is_digit_def specifier_supports_field_width_def conv_spec_def field_spec_def
        uint_to_hexstr_def uint_to_str_base_eq HEX_BASE_def uint_digits_step char_at_def hex_digits_def
        char_digit_to_int_def)
      (simp add: numeral_2_eq_2)
  show ?thesis
    using Vsnprintf_refines [OF _ d, of "replicate 14 (CHR ''?'')"]
    by (simp del: take_Suc_Cons) (simp add: eval_nat_numeral)
qed

end
