(* ===== verification/Debug.thy ===== *)
theory Debug
  imports Uart Format_Spec
begin

text \<open>
  \<^verbatim>\<open>serial_log()\<close> of \<^verbatim>\<open>src/bld/debug.c\<close>: a formatted line over the mini UART.
\<close>

text \<open>
  The static buffers of \<^verbatim>\<open>serial_log()\<close> hold whatever the last call left in them, which
  the next call overwrites up to the terminator; here they start out cleared.
\<close>

definition run_fres :: "'d hw \<Rightarrow> 'a fres \<Rightarrow> ('d, 'a) io" where
  "run_fres hw r = (case r of FOk x \<Rightarrow> ret x
     | FSignal \<Rightarrow> signal_error hw ERROR_VSNPRINTF | FArgs \<Rightarrow> stop Undef | FOverrun \<Rightarrow> stop Undef
     | FUndef \<Rightarrow> stop Undef)"

definition LOG_FMT :: string where
  "LOG_FMT = ''[%10u] %s'' @ [CHR 0x0D, CHR 0x0A]"

definition serial_log :: "'d hw \<Rightarrow> string \<Rightarrow> va list \<Rightarrow> ('d, unit) io" where
  "serial_log hw fmt ap =
     bnd (timer_current hw) (\<lambda>ts.
     bnd (run_fres hw (Snprintf (replicate 512 NUL) 512 LOG_FMT [VaU ts, VaS fmt])) (\<lambda>newfmt.
     bnd (run_fres hw (Vsnprintf (replicate 1024 NUL) 1024 newfmt ap)) (\<lambda>buf.
     uart_transmit hw (map of_char (take (Strlen buf) buf)))))"

context access_relation
begin

lemma guar_serial_log: "guar R (serial_log hw fmt ap)"
  unfolding serial_log_def run_fres_def
  by (auto intro!: guar_rules guar_timer guar_uart_transmit guar_signals split: fres.split)

end

section \<open>A log line\<close>

lemma fmt_field_append:
  assumes "fmt_field cs = Some (pad, ds, spec, cs2)"
  shows "fmt_field (cs @ t) = Some (pad, ds, spec, cs2 @ t)"
proof -
  have *: "dropWhile is_digit xs = y # ys \<Longrightarrow>
      dropWhile is_digit (xs @ t) = y # ys @ t \<and> takeWhile is_digit (xs @ t) = takeWhile is_digit xs" for xs y ys
    by (induction xs) auto
  define zero where "zero = (cs \<noteq> [] \<and> hd cs = CHR ''0'')"
  define cs1 where "cs1 = (if zero then tl cs else cs)"
  have d: "dropWhile is_digit cs1 = spec # cs2"
    and r: "ds = takeWhile is_digit cs1" "ds \<noteq> [] \<longrightarrow> length ds \<le> 9 \<and> specifier_supports_field_width spec"
      "pad = (if zero then CHR ''0'' else CHR '' '')"
    using assms by (auto simp: fmt_field_def Let_def zero_def [symmetric] cs1_def [symmetric]
        split: list.splits if_splits)
  have "cs \<noteq> []" using d by (auto simp: cs1_def zero_def)
  then have "(cs @ t \<noteq> [] \<and> hd (cs @ t) = CHR ''0'') = zero"
    "(if zero then tl (cs @ t) else cs @ t) = cs1 @ t"
    by (simp_all add: zero_def cs1_def)
  then show ?thesis using * [OF d] r by (auto simp: fmt_field_def Let_def not_less)
qed

lemma fmt_spec_append:
  "fmt_spec fmt ap = Some full \<Longrightarrow> CHR ''%'' \<notin> set t \<Longrightarrow> fmt_spec (fmt @ t) ap = Some (full @ t)"
proof (induction fmt ap arbitrary: full rule: fmt_spec.induct)
  case (1 ap)
  have "fmt_spec t ap = Some t" using "1.prems"(2) by (induction t) auto
  with "1.prems"(1) show ?case by simp
next
  case (2 c cs ap)
  show ?case
  proof (cases "c = CHR ''%''")
    case False
    with 2 show ?thesis by auto
  next
    case True
    with "2.prems" obtain pad ds spec cs2 pre body ap' rest where
      f: "fmt_field cs = Some (pad, ds, spec, cs2)" and c: "conv_spec spec ap = Some (pre, body, ap')"
      and r: "fmt_spec cs2 ap' = Some rest"
      and full: "full = pre @ field_spec pad (nat (decimal_value ds)) body @ rest"
      by (auto split: option.splits prod.splits)
    have "fmt_spec (cs2 @ t) ap' = Some (rest @ t)"
      by (rule "2.IH"(2) [OF _ f refl refl refl c refl refl r "2.prems"(2)]) (simp add: True)
    then show ?thesis using True full by (simp add: fmt_field_append [OF f] c)
  qed
qed

lemma fmt_spec_plain: "CHR ''%'' \<notin> set p \<Longrightarrow> fmt_spec (p @ fmt) ap = map_option ((@) p) (fmt_spec fmt ap)"
  by (induction p) (cases "fmt_spec fmt ap"; auto)+

definition log_prefix :: "u32 \<Rightarrow> string" where
  "log_prefix ts = ''['' @ field_spec (CHR '' '') 10 (uint_to_str ts) @ ''] ''"

lemma length_uint_to_str: "length (uint_to_str v) \<le> 10"
proof (cases "v = 0")
  case False
  have "length (uint_digits_loop (unat v) 10 []) \<le> 10"
    using unat32_lt [of v] by (intro length_uint_digits) auto
  then show ?thesis using False by (simp add: uint_to_str_def DECIMAL_BASE_def uint_to_str_base_eq)
qed (simp add: uint_to_str_def DECIMAL_BASE_def uint_to_str_base_eq)

lemma log_prefix_facts:
  "length (log_prefix ts) = 13" "NUL \<notin> set (log_prefix ts)" "CHR ''%'' \<notin> set (log_prefix ts)"
  using length_uint_to_str [of ts] digit_strings_chars(1,3) [of ts]
  by (auto simp: log_prefix_def field_spec_def)

lemma LOG_FMT_spec:
  "NUL \<notin> set fmt \<Longrightarrow> fmt_spec LOG_FMT [VaU ts, VaS fmt] =
     Some (log_prefix ts @ fmt @ [CHR 0x0D, CHR 0x0A])"
  by (simp add: LOG_FMT_def fmt_field_def is_digit_def specifier_supports_field_width_def conv_spec_def
      char_digit_to_int_def log_prefix_def Strlen_eq_length)
    (simp add: field_spec_def)

lemma NUL_padded: "k < length s \<Longrightarrow> s ! k = NUL \<Longrightarrow> take k s = x \<Longrightarrow> s = x @ NUL # drop (Suc k) s"
  by (metis id_take_nth_drop)

text \<open>
  The text of a log line: the time, the message, a line end. \<open>log_ok\<close> holds of the
  messages that fit the static buffers and whose format and arguments agree.
\<close>

definition log_text :: "u32 \<Rightarrow> string \<Rightarrow> string" where
  "log_text ts msg = log_prefix ts @ msg @ [CHR 0x0D, CHR 0x0A]"

definition log_ok :: "string \<Rightarrow> va list \<Rightarrow> bool" where
  "log_ok fmt ap \<longleftrightarrow> NUL \<notin> set fmt \<and> length fmt \<le> 496 \<and>
     (case fmt_spec fmt ap of None \<Rightarrow> False | Some msg \<Rightarrow> NUL \<notin> set msg \<and> length msg \<le> 1008)"

lemma serial_log_formats:
  assumes "log_ok fmt ap" and "fmt_spec fmt ap = Some msg"
  shows "\<exists>newfmt buf. Snprintf (replicate 512 NUL) 512 LOG_FMT [VaU ts, VaS fmt] = FOk newfmt \<and>
    Vsnprintf (replicate 1024 NUL) 1024 newfmt ap = FOk buf \<and> take (Strlen buf) buf = log_text ts msg"
proof -
  let ?f = "log_text ts fmt"
  have nn: "NUL \<notin> set fmt" "length fmt \<le> 496" "NUL \<notin> set msg" "length msg \<le> 1008"
    using assms by (simp_all add: log_ok_def)
  have lf: "length ?f \<le> 511" "NUL \<notin> set ?f" using nn log_prefix_facts [of ts] by (simp_all add: log_text_def)
  obtain nf where nf: "Vsnprintf (replicate 512 NUL) 512 LOG_FMT [VaU ts, VaS fmt] = FOk nf"
    "length nf = 512" "take (length ?f) nf = ?f" "nf ! length ?f = NUL"
    using Vsnprintf_wrote [of LOG_FMT "[VaU ts, VaS fmt]" ?f "replicate 512 NUL"] LOG_FMT_spec [OF nn(1)] lf
    by (auto simp: LOG_FMT_def log_text_def min_absorb1)
  then have nfe: "nf = ?f @ NUL # drop (Suc (length ?f)) nf" using lf by (intro NUL_padded) simp_all
  let ?m = "log_text ts msg"
  have lm: "length ?m \<le> 1023" "NUL \<notin> set ?m" using nn log_prefix_facts [of ts] by (simp_all add: log_text_def)
  have sp: "fmt_spec ?f ap = Some ?m"
    using fmt_spec_append [OF assms(2), of "[CHR 0x0D, CHR 0x0A]"] log_prefix_facts(3) [of ts]
    by (simp add: log_text_def fmt_spec_plain)
  obtain b where b: "Vsnprintf (replicate 1024 NUL) 1024 ?f ap = FOk b"
    "length b = 1024" "take (length ?m) b = ?m" "b ! length ?m = NUL"
    using Vsnprintf_wrote [OF lf(2) sp, of "replicate 1024 NUL"] lm by (auto simp: min_absorb1)
  then have be: "b = ?m @ NUL # drop (Suc (length ?m)) b" using lm by (intro NUL_padded) simp_all
  have "Vsnprintf (replicate 1024 NUL) 1024 nf ap = FOk b"
    by (subst nfe) (simp add: Vsnprintf_terminated [OF lf(2)] b(1))
  moreover have "take (Strlen b) b = ?m" by (subst be, subst be) (simp add: Strlen_append_NUL [OF lm(2)])
  ultimately show ?thesis using nf(1) by (simp add: Snprintf_def)
qed

lemma serial_log_output:
  assumes "uart_ready hw" and "log_ok fmt ap" and "fmt_spec fmt ap = Some msg"
  shows "\<exists>t. serial_log hw fmt ap s = (Ret (), t) \<and>
    uart_output t = uart_output s @ map (\<lambda>c. ucast (of_char c :: u8)) (log_text (dev_read hw CLO_addr s) msg)"
proof -
  let ?ts = "dev_read hw CLO_addr s"
  obtain nf b where nf: "Snprintf (replicate 512 NUL) 512 LOG_FMT [VaU ?ts, VaS fmt] = FOk nf"
    and b: "Vsnprintf (replicate 1024 NUL) 1024 nf ap = FOk b" "take (Strlen b) b = log_text ?ts msg"
    using serial_log_formats [OF assms(2,3)] by blast
  obtain t where t: "uart_transmit hw (map of_char (log_text ?ts msg)) (after_read hw CLO_addr s) = (Ret (), t)"
    using uart_transmit_returns [OF assms(1)] by blast
  have "serial_log hw fmt ap s = (Ret (), t)"
    using nf b t by (simp add: serial_log_def run_simps run_fres_def)
  then show ?thesis using uart_transmit_output [OF t] by (simp add: comp_def)
qed

lemma serial_log_returns: "uart_ready hw \<Longrightarrow> log_ok fmt ap \<Longrightarrow> \<exists>t. serial_log hw fmt ap s = (Ret (), t)"
  using serial_log_output [of hw fmt ap] by (cases "fmt_spec fmt ap") (auto simp: log_ok_def)

end
