(* ===== verification/Sd_Reg.thy ===== *)
theory Sd_Reg
  imports Debug
begin

unbundle bit_operations_syntax

text \<open>
  \<^verbatim>\<open>src/bld/sd/reg.h\<close> and the packed structs of \<^verbatim>\<open>src/bld/sd/cmd.h\<close> and
  \<^verbatim>\<open>src/bld/sd/cmd.c\<close>: the registers of the SD host controller and the layout of their
  bit-fields. Each struct is a record of its fields with the two directions of
  \<^verbatim>\<open>cast_bitfields()\<close>: \<open>cast_x\<close> gives the word of a struct, \<open>x_of\<close> the struct of
  a word.
\<close>

section \<open>Registers\<close>

datatype sd_register =
    BLKSIZECNT | ARG1 | CMDTM | RESP0 | DATA | STATUS | CONTROL0 | CONTROL1 | INTERRUPT
  | IRPT_MASK | IRPT_EN | FORCE_IRPT

fun sd_register_offset :: "sd_register \<Rightarrow> u32" where
  "sd_register_offset BLKSIZECNT = 0x04"
| "sd_register_offset ARG1 = 0x08"
| "sd_register_offset CMDTM = 0x0c"
| "sd_register_offset RESP0 = 0x10"
| "sd_register_offset DATA = 0x20"
| "sd_register_offset STATUS = 0x24"
| "sd_register_offset CONTROL0 = 0x28"
| "sd_register_offset CONTROL1 = 0x2c"
| "sd_register_offset INTERRUPT = 0x30"
| "sd_register_offset IRPT_MASK = 0x34"
| "sd_register_offset IRPT_EN = 0x38"
| "sd_register_offset FORCE_IRPT = 0x50"

definition sd_access :: "sd_register periph_access" where
  "sd_access = \<lparr>periph_base_off = 0x2340000, register_offsets = sd_register_offset\<rparr>"

section \<open>Bit-fields\<close>

record blksizecnt =
  bs_blksize :: u32
  bs_reserved :: u32
  bs_blkcnt :: u32

definition cast_blksizecnt :: "blksizecnt \<Rightarrow> u32" where
  "cast_blksizecnt x =
     fld 0 10 (bs_blksize x) OR fld 10 6 (bs_reserved x) OR fld 16 16 (bs_blkcnt x)"

definition blksizecnt_of :: "u32 \<Rightarrow> blksizecnt" where
  "blksizecnt_of w =
     \<lparr>bs_blksize = getfld 0 10 w, bs_reserved = getfld 10 6 w, bs_blkcnt = getfld 16 16 w\<rparr>"

record cmdtm =
  tm_reserved1 :: u32
  tm_block_cnt_en :: u32
  tm_auto_cmd_en :: u32
  tm_data_transfer_direction :: u32
  tm_multi_block :: u32
  tm_reserved2 :: u32
  tm_response_type :: u32
  tm_reserved3 :: u32
  tm_cmd_crc_chk_en :: u32
  tm_cmd_index_chk_en :: u32
  tm_data_present :: u32
  tm_cmd_type :: u32
  tm_cmd_index :: u32
  tm_reserved4 :: u32

definition cast_cmdtm :: "cmdtm \<Rightarrow> u32" where
  "cast_cmdtm x =
     fld 0 1 (tm_reserved1 x) OR fld 1 1 (tm_block_cnt_en x) OR
     fld 2 2 (tm_auto_cmd_en x) OR fld 4 1 (tm_data_transfer_direction x) OR
     fld 5 1 (tm_multi_block x) OR fld 6 10 (tm_reserved2 x) OR
     fld 16 2 (tm_response_type x) OR fld 18 1 (tm_reserved3 x) OR
     fld 19 1 (tm_cmd_crc_chk_en x) OR fld 20 1 (tm_cmd_index_chk_en x) OR
     fld 21 1 (tm_data_present x) OR fld 22 2 (tm_cmd_type x) OR
     fld 24 6 (tm_cmd_index x) OR fld 30 2 (tm_reserved4 x)"

definition cmdtm_of :: "u32 \<Rightarrow> cmdtm" where
  "cmdtm_of w =
     \<lparr>tm_reserved1 = getfld 0 1 w, tm_block_cnt_en = getfld 1 1 w,
      tm_auto_cmd_en = getfld 2 2 w, tm_data_transfer_direction = getfld 4 1 w,
      tm_multi_block = getfld 5 1 w, tm_reserved2 = getfld 6 10 w,
      tm_response_type = getfld 16 2 w, tm_reserved3 = getfld 18 1 w,
      tm_cmd_crc_chk_en = getfld 19 1 w, tm_cmd_index_chk_en = getfld 20 1 w,
      tm_data_present = getfld 21 1 w, tm_cmd_type = getfld 22 2 w,
      tm_cmd_index = getfld 24 6 w, tm_reserved4 = getfld 30 2 w\<rparr>"

definition CMDTM_TM_DAT_DIR_READ :: u32 where "CMDTM_TM_DAT_DIR_READ = 1"
definition CMDTM_RESPONSE_TYPE_NONE :: u32 where "CMDTM_RESPONSE_TYPE_NONE = 0"
definition CMDTM_RESPONSE_TYPE_136_BITS :: u32 where "CMDTM_RESPONSE_TYPE_136_BITS = 1"
definition CMDTM_RESPONSE_TYPE_48_BITS :: u32 where "CMDTM_RESPONSE_TYPE_48_BITS = 2"
definition CMDTM_RESPONSE_TYPE_48_BITS_BUSY :: u32 where "CMDTM_RESPONSE_TYPE_48_BITS_BUSY = 3"

record interrupt =
  irq_cmd_complete :: u32
  irq_transfer_complete :: u32
  irq_block_gap :: u32
  irq_reserved1 :: u32
  irq_write_ready :: u32
  irq_read_ready :: u32
  irq_reserved2 :: u32
  irq_card :: u32
  irq_reserved3 :: u32
  irq_retune :: u32
  irq_bootack :: u32
  irq_endboot :: u32
  irq_error :: u32
  irq_cmd_timeout_error :: u32
  irq_cmd_crc_error :: u32
  irq_cmd_end_bit_error :: u32
  irq_cmd_index_error :: u32
  irq_data_timeout_error :: u32
  irq_data_crc_error :: u32
  irq_data_end_bit_error :: u32
  irq_reserved4 :: u32
  irq_auto_cmd_error :: u32
  irq_reserved5 :: u32

definition cast_interrupt :: "interrupt \<Rightarrow> u32" where
  "cast_interrupt x =
     fld 0 1 (irq_cmd_complete x) OR fld 1 1 (irq_transfer_complete x) OR
     fld 2 1 (irq_block_gap x) OR fld 3 1 (irq_reserved1 x) OR
     fld 4 1 (irq_write_ready x) OR fld 5 1 (irq_read_ready x) OR
     fld 6 2 (irq_reserved2 x) OR fld 8 1 (irq_card x) OR fld 9 3 (irq_reserved3 x) OR
     fld 12 1 (irq_retune x) OR fld 13 1 (irq_bootack x) OR fld 14 1 (irq_endboot x) OR
     fld 15 1 (irq_error x) OR fld 16 1 (irq_cmd_timeout_error x) OR
     fld 17 1 (irq_cmd_crc_error x) OR fld 18 1 (irq_cmd_end_bit_error x) OR
     fld 19 1 (irq_cmd_index_error x) OR fld 20 1 (irq_data_timeout_error x) OR
     fld 21 1 (irq_data_crc_error x) OR fld 22 1 (irq_data_end_bit_error x) OR
     fld 23 1 (irq_reserved4 x) OR fld 24 1 (irq_auto_cmd_error x) OR
     fld 25 7 (irq_reserved5 x)"

definition interrupt_of :: "u32 \<Rightarrow> interrupt" where
  "interrupt_of w =
     \<lparr>irq_cmd_complete = getfld 0 1 w, irq_transfer_complete = getfld 1 1 w,
      irq_block_gap = getfld 2 1 w, irq_reserved1 = getfld 3 1 w,
      irq_write_ready = getfld 4 1 w, irq_read_ready = getfld 5 1 w,
      irq_reserved2 = getfld 6 2 w, irq_card = getfld 8 1 w, irq_reserved3 = getfld 9 3 w,
      irq_retune = getfld 12 1 w, irq_bootack = getfld 13 1 w, irq_endboot = getfld 14 1 w,
      irq_error = getfld 15 1 w, irq_cmd_timeout_error = getfld 16 1 w,
      irq_cmd_crc_error = getfld 17 1 w, irq_cmd_end_bit_error = getfld 18 1 w,
      irq_cmd_index_error = getfld 19 1 w, irq_data_timeout_error = getfld 20 1 w,
      irq_data_crc_error = getfld 21 1 w, irq_data_end_bit_error = getfld 22 1 w,
      irq_reserved4 = getfld 23 1 w, irq_auto_cmd_error = getfld 24 1 w,
      irq_reserved5 = getfld 25 7 w\<rparr>"

definition INTERRUPT_CMD_COMPLETE :: u32 where "INTERRUPT_CMD_COMPLETE = BIT 0"
definition INTERRUPT_TRANSFER_COMPLETE :: u32 where "INTERRUPT_TRANSFER_COMPLETE = BIT 1"
definition INTERRUPT_READ_READY :: u32 where "INTERRUPT_READ_READY = BIT 5"
definition STATUS_COMMAND_INHIBIT_CMD :: u32 where "STATUS_COMMAND_INHIBIT_CMD = BIT 0"
definition STATUS_COMMAND_INHIBIT_DAT :: u32 where "STATUS_COMMAND_INHIBIT_DAT = BIT 1"
definition CONTROL0_DATA_TRANSFER_WIDTH :: u32 where "CONTROL0_DATA_TRANSFER_WIDTH = BIT 1"
definition CONTROL0_PWR_CTL_SHIFT :: nat where "CONTROL0_PWR_CTL_SHIFT = 8"
definition PWR_CTL_SD_BUS_VOLT_SEL_3V3 :: u32 where "PWR_CTL_SD_BUS_VOLT_SEL_3V3 = BITS 3 1"
definition PWR_CTL_SD_BUS_POWER :: u32 where "PWR_CTL_SD_BUS_POWER = BIT 0"
definition CONTROL1_INT_CLK_EN :: u32 where "CONTROL1_INT_CLK_EN = BIT 0"
definition CONTROL1_INT_CLK_STABLE :: u32 where "CONTROL1_INT_CLK_STABLE = BIT 1"
definition CONTROL1_CLK_EN :: u32 where "CONTROL1_CLK_EN = BIT 2"
definition CONTROL1_CLK_FREQ_SEL :: u32 where "CONTROL1_CLK_FREQ_SEL = BITS 15 8"
definition CONTROL1_CLK_FREQ_SEL_SHIFT :: nat where "CONTROL1_CLK_FREQ_SEL_SHIFT = 8"
definition CONTROL1_SW_RESET_HC :: u32 where "CONTROL1_SW_RESET_HC = BIT 24"

record card_status =
  cs_reserved1 :: u32
  cs_ake_seq_error :: u32
  cs_reserved2 :: u32
  cs_app_cmd :: u32
  cs_reserved3 :: u32
  cs_ready_for_data :: u32
  cs_current_state :: u32
  cs_erase_reset :: u32
  cs_card_ecc_disabled :: u32
  cs_wp_erase_skip :: u32
  cs_csd_overwrite :: u32
  cs_reserved4 :: u32
  cs_error :: u32
  cs_cc_error :: u32
  cs_card_ecc_failed :: u32
  cs_illegal_command :: u32
  cs_com_crc_error :: u32
  cs_lock_unlock_failed :: u32
  cs_card_is_locked :: u32
  cs_wp_violation :: u32
  cs_erase_param :: u32
  cs_erase_seq_error :: u32
  cs_block_len_error :: u32
  cs_address_error :: u32
  cs_out_of_range :: u32

definition cast_card_status :: "card_status \<Rightarrow> u32" where
  "cast_card_status x =
     fld 0 3 (cs_reserved1 x) OR fld 3 1 (cs_ake_seq_error x) OR fld 4 1 (cs_reserved2 x) OR
     fld 5 1 (cs_app_cmd x) OR fld 6 2 (cs_reserved3 x) OR fld 8 1 (cs_ready_for_data x) OR
     fld 9 4 (cs_current_state x) OR fld 13 1 (cs_erase_reset x) OR
     fld 14 1 (cs_card_ecc_disabled x) OR fld 15 1 (cs_wp_erase_skip x) OR
     fld 16 1 (cs_csd_overwrite x) OR fld 17 2 (cs_reserved4 x) OR fld 19 1 (cs_error x) OR
     fld 20 1 (cs_cc_error x) OR fld 21 1 (cs_card_ecc_failed x) OR
     fld 22 1 (cs_illegal_command x) OR fld 23 1 (cs_com_crc_error x) OR
     fld 24 1 (cs_lock_unlock_failed x) OR fld 25 1 (cs_card_is_locked x) OR
     fld 26 1 (cs_wp_violation x) OR fld 27 1 (cs_erase_param x) OR
     fld 28 1 (cs_erase_seq_error x) OR fld 29 1 (cs_block_len_error x) OR
     fld 30 1 (cs_address_error x) OR fld 31 1 (cs_out_of_range x)"

definition card_status_of :: "u32 \<Rightarrow> card_status" where
  "card_status_of w =
     \<lparr>cs_reserved1 = getfld 0 3 w, cs_ake_seq_error = getfld 3 1 w,
      cs_reserved2 = getfld 4 1 w, cs_app_cmd = getfld 5 1 w, cs_reserved3 = getfld 6 2 w,
      cs_ready_for_data = getfld 8 1 w, cs_current_state = getfld 9 4 w,
      cs_erase_reset = getfld 13 1 w, cs_card_ecc_disabled = getfld 14 1 w,
      cs_wp_erase_skip = getfld 15 1 w, cs_csd_overwrite = getfld 16 1 w,
      cs_reserved4 = getfld 17 2 w, cs_error = getfld 19 1 w, cs_cc_error = getfld 20 1 w,
      cs_card_ecc_failed = getfld 21 1 w, cs_illegal_command = getfld 22 1 w,
      cs_com_crc_error = getfld 23 1 w, cs_lock_unlock_failed = getfld 24 1 w,
      cs_card_is_locked = getfld 25 1 w, cs_wp_violation = getfld 26 1 w,
      cs_erase_param = getfld 27 1 w, cs_erase_seq_error = getfld 28 1 w,
      cs_block_len_error = getfld 29 1 w, cs_address_error = getfld 30 1 w,
      cs_out_of_range = getfld 31 1 w\<rparr>"

record scr =
  scr_ignore1 :: u32
  scr_cmd23 :: u32
  scr_ignore2 :: u32
  scr_bus_widths :: u32
  scr_ignore3 :: u32

definition cast_scr :: "scr \<Rightarrow> u32" where
  "cast_scr x =
     fld 0 1 (scr_ignore1 x) OR fld 1 1 (scr_cmd23 x) OR fld 2 14 (scr_ignore2 x) OR
     fld 16 4 (scr_bus_widths x) OR fld 20 12 (scr_ignore3 x)"

definition scr_of :: "u32 \<Rightarrow> scr" where
  "scr_of w =
     \<lparr>scr_ignore1 = getfld 0 1 w, scr_cmd23 = getfld 1 1 w, scr_ignore2 = getfld 2 14 w,
      scr_bus_widths = getfld 16 4 w, scr_ignore3 = getfld 20 12 w\<rparr>"

definition SCR_BUS_WIDTHS_4BIT :: u32 where "SCR_BUS_WIDTHS_4BIT = BIT 2"

record ac_rca_args =
  ac_unused :: u32
  ac_rca :: u32

definition cast_ac_rca_args :: "ac_rca_args \<Rightarrow> u32" where
  "cast_ac_rca_args x =
     fld 0 16 (ac_unused x) OR fld 16 16 (ac_rca x)"

definition ac_rca_args_of :: "u32 \<Rightarrow> ac_rca_args" where
  "ac_rca_args_of w =
     \<lparr>ac_unused = getfld 0 16 w, ac_rca = getfld 16 16 w\<rparr>"

lemma fld_getfld: "bit (fld p w (getfld p w v)) i \<longleftrightarrow> p \<le> i \<and> i < p + w \<and> bit v i"
  by (auto simp: bit_fld bit_getfld dest: bit_imp_le_length)

text \<open>Adjacent fields of a word make one field.\<close>

lemma fld_merge:
  "q = p + w \<Longrightarrow> fld p w (getfld p w v) OR fld q k (getfld q k v) = fld p (w + k) (getfld p (w + k) v)"
  by (rule bit_word_eqI) (auto simp: bit_or_iff fld_getfld)

lemma fld_whole: "fld 0 32 (getfld 0 32 v) = v"
  by (rule bit_word_eqI) (simp add: fld_getfld)

lemmas struct_defs =
  cast_blksizecnt_def blksizecnt_of_def cast_cmdtm_def cmdtm_of_def cast_interrupt_def interrupt_of_def
  cast_card_status_def card_status_of_def cast_scr_def scr_of_def cast_ac_rca_args_def ac_rca_args_of_def

section \<open>Layout\<close>

text \<open>
  The declarations of the structs: the width and the name of each bit-field, in order. The
  compiler allocates bit-fields from the least significant bit on, each one where the one
  before it ends, with no padding in a packed struct: \<open>pack\<close> is the word of a list of
  widths and values, \<open>unpack\<close> reads the values of a list of widths.
\<close>

fun pack :: "(nat \<times> u32) list \<Rightarrow> u32" where
  "pack [] = 0"
| "pack ((w, v) # fs) = take_bit w v OR push_bit w (pack fs)"

fun unpack :: "nat list \<Rightarrow> u32 \<Rightarrow> u32 list" where
  "unpack [] v = []"
| "unpack (w # ws) v = take_bit w v # unpack ws (drop_bit w v)"

definition blksizecnt_layout :: "(nat \<times> (blksizecnt \<Rightarrow> u32)) list" where
  "blksizecnt_layout =
    [(10, bs_blksize), (6, bs_reserved), (16, bs_blkcnt)]"

definition cmdtm_layout :: "(nat \<times> (cmdtm \<Rightarrow> u32)) list" where
  "cmdtm_layout =
    [(1, tm_reserved1), (1, tm_block_cnt_en), (2, tm_auto_cmd_en),
     (1, tm_data_transfer_direction), (1, tm_multi_block), (10, tm_reserved2),
     (2, tm_response_type), (1, tm_reserved3), (1, tm_cmd_crc_chk_en), (1, tm_cmd_index_chk_en),
     (1, tm_data_present), (2, tm_cmd_type), (6, tm_cmd_index), (2, tm_reserved4)]"

definition interrupt_layout :: "(nat \<times> (interrupt \<Rightarrow> u32)) list" where
  "interrupt_layout =
    [(1, irq_cmd_complete), (1, irq_transfer_complete), (1, irq_block_gap), (1, irq_reserved1),
     (1, irq_write_ready), (1, irq_read_ready), (2, irq_reserved2), (1, irq_card),
     (3, irq_reserved3), (1, irq_retune), (1, irq_bootack), (1, irq_endboot), (1, irq_error),
     (1, irq_cmd_timeout_error), (1, irq_cmd_crc_error), (1, irq_cmd_end_bit_error),
     (1, irq_cmd_index_error), (1, irq_data_timeout_error), (1, irq_data_crc_error),
     (1, irq_data_end_bit_error), (1, irq_reserved4), (1, irq_auto_cmd_error),
     (7, irq_reserved5)]"

definition card_status_layout :: "(nat \<times> (card_status \<Rightarrow> u32)) list" where
  "card_status_layout =
    [(3, cs_reserved1), (1, cs_ake_seq_error), (1, cs_reserved2), (1, cs_app_cmd),
     (2, cs_reserved3), (1, cs_ready_for_data), (4, cs_current_state), (1, cs_erase_reset),
     (1, cs_card_ecc_disabled), (1, cs_wp_erase_skip), (1, cs_csd_overwrite), (2, cs_reserved4),
     (1, cs_error), (1, cs_cc_error), (1, cs_card_ecc_failed), (1, cs_illegal_command),
     (1, cs_com_crc_error), (1, cs_lock_unlock_failed), (1, cs_card_is_locked),
     (1, cs_wp_violation), (1, cs_erase_param), (1, cs_erase_seq_error),
     (1, cs_block_len_error), (1, cs_address_error), (1, cs_out_of_range)]"

definition scr_layout :: "(nat \<times> (scr \<Rightarrow> u32)) list" where
  "scr_layout =
    [(1, scr_ignore1), (1, scr_cmd23), (14, scr_ignore2), (4, scr_bus_widths),
     (12, scr_ignore3)]"

definition ac_rca_args_layout :: "(nat \<times> (ac_rca_args \<Rightarrow> u32)) list" where
  "ac_rca_args_layout =
    [(16, ac_unused), (16, ac_rca)]"

definition laid_out :: "(nat \<times> ('x \<Rightarrow> u32)) list \<Rightarrow> ('x \<Rightarrow> u32) \<Rightarrow> (u32 \<Rightarrow> 'x) \<Rightarrow> bool" where
  "laid_out layout cast of_word \<longleftrightarrow>
     (\<forall>x. cast x = pack (map (\<lambda>(w, field). (w, field x)) layout)) \<and>
     (\<forall>v. map (\<lambda>(w, field). field (of_word v)) layout = unpack (map fst layout) v) \<and>
     (\<forall>v. cast (of_word v) = v)"

text \<open>Both with the position of the first field.\<close>

fun pack_at :: "nat \<Rightarrow> (nat \<times> u32) list \<Rightarrow> u32" where
  "pack_at p [] = 0"
| "pack_at p ((w, v) # fs) = fld p w v OR pack_at (p + w) fs"

fun unpack_at :: "nat \<Rightarrow> nat list \<Rightarrow> u32 \<Rightarrow> u32 list" where
  "unpack_at p [] v = []"
| "unpack_at p (w # ws) v = getfld p w v # unpack_at (p + w) ws v"

lemma pack_at_eq: "pack_at p fs = push_bit p (pack fs)"
  by (induction p fs rule: pack_at.induct) (simp_all add: fld_def push_bit_or add.commute)

lemma unpack_at_eq: "unpack_at p ws v = unpack ws (drop_bit p v)"
  by (induction p ws v rule: unpack_at.induct) (simp_all add: getfld_def add.commute)

lemma laid_outI:
  assumes "\<And>x. cast x = pack_at 0 (map (\<lambda>(w, field). (w, field x)) layout)"
    and "\<And>v. map (\<lambda>(w, field). field (of_word v)) layout = unpack_at 0 (map fst layout) v"
    and "\<And>v. cast (of_word v) = v"
  shows "laid_out layout cast of_word"
  using assms by (simp add: laid_out_def pack_at_eq unpack_at_eq)

lemmas layout_defs =
  blksizecnt_layout_def cmdtm_layout_def interrupt_layout_def card_status_layout_def scr_layout_def
  ac_rca_args_layout_def


end
