(* ===== verification/Image.thy ===== *)
theory Image
  imports Helpers
begin

text \<open>
  \<^verbatim>\<open>src/include/img.h\<close> and \<^verbatim>\<open>src/include/sd_blksz.h\<close>: the format of the image that the
  imager writes and the bootloader loads, shared by both.
\<close>

definition SD_BLKSZ :: nat where "SD_BLKSZ = 512"

definition IMG_MAGIC :: u32 where "IMG_MAGIC = 0xF00BA12"

datatype item_id = ITEM_ID_END | ITEM_ID_KERNEL | ITEM_ID_DEVICE_TREE_BLOB

fun item_id_value :: "item_id \<Rightarrow> u32" where
  "item_id_value ITEM_ID_END = 0"
| "item_id_value ITEM_ID_KERNEL = 1"
| "item_id_value ITEM_ID_DEVICE_TREE_BLOB = 2"

text \<open>
  The size of \<^verbatim>\<open>struct item\<close> without its data, the size of \<^verbatim>\<open>struct image\<close> without its
  items, and the offsets of their second members.
\<close>

definition sizeof_item :: nat where "sizeof_item = 8"
definition sizeof_image :: nat where "sizeof_image = 512"
definition item_datasz_off :: addr where "item_datasz_off = 4"
definition image_imgsz_off :: addr where "image_imgsz_off = 4"

lemmas image_defs = SD_BLKSZ_def IMG_MAGIC_def sizeof_item_def sizeof_image_def item_datasz_off_def
  image_imgsz_off_def

end
