(* ===== verification/Sd_Cmd.thy ===== *)
theory Sd_Cmd
  imports Sd_Reg Image
begin

unbundle bit_operations_syntax

text \<open>
  \<^verbatim>\<open>src/bld/sd/cmd.c\<close>: the commands to the SD card. An out-parameter that the C function
  writes only on some paths is the second component of the result, \<open>None\<close> where it is not
  written.
\<close>

section \<open>Commands\<close>

definition IS_APP_CMD :: u32 where "IS_APP_CMD = 0x80"

datatype cmd_index =
    CMD_IDX_GO_IDLE_STATE | CMD_IDX_ALL_SEND_CID | CMD_IDX_SEND_RELATIVE_ADDR | CMD_IDX_SELECT_CARD
  | CMD_IDX_SEND_IF_COND | CMD_IDX_SEND_STATUS | CMD_IDX_READ_SINGLE_BLOCK
  | CMD_IDX_READ_MULTIPLE_BLOCK | CMD_IDX_SET_BLOCK_COUNT | CMD_IDX_APP_CMD
  | ACMD_IDX_SET_BUS_WIDTH | ACMD_IDX_SD_SEND_OP_COND | ACMD_IDX_SD_SEND_SCR

fun cmd_index_value :: "cmd_index \<Rightarrow> u32" where
  "cmd_index_value CMD_IDX_GO_IDLE_STATE = 0"
| "cmd_index_value CMD_IDX_ALL_SEND_CID = 2"
| "cmd_index_value CMD_IDX_SEND_RELATIVE_ADDR = 3"
| "cmd_index_value CMD_IDX_SELECT_CARD = 7"
| "cmd_index_value CMD_IDX_SEND_IF_COND = 8"
| "cmd_index_value CMD_IDX_SEND_STATUS = 13"
| "cmd_index_value CMD_IDX_READ_SINGLE_BLOCK = 17"
| "cmd_index_value CMD_IDX_READ_MULTIPLE_BLOCK = 18"
| "cmd_index_value CMD_IDX_SET_BLOCK_COUNT = 23"
| "cmd_index_value CMD_IDX_APP_CMD = 55"
| "cmd_index_value ACMD_IDX_SET_BUS_WIDTH = 6 OR IS_APP_CMD"
| "cmd_index_value ACMD_IDX_SD_SEND_OP_COND = 41 OR IS_APP_CMD"
| "cmd_index_value ACMD_IDX_SD_SEND_SCR = 51 OR IS_APP_CMD"

datatype cmd_error =
    CMD_ERROR_NONE | CMD_ERROR_COMMAND_INHIBIT_CMD_BIT_SET | CMD_ERROR_COMMAND_INHIBIT_DAT_BIT_SET
  | CMD_ERROR_COMMAND_UNIMPLEMENTED | CMD_ERROR_WAIT_FOR_INTERRUPT_TIMEOUT | CMD_ERROR_INTERRUPT_ERROR
  | CMD_ERROR_EXPECTED_INTERRUPT_NOT_TRIGGERED | CMD_ERROR_CARD_STATUS_ERROR
  | CMD_ERROR_RESPONSE_CONTENTS | CMD_ERROR_GENERAL_TIMEOUT

datatype cmd_type = CMD_TYPE_BC | CMD_TYPE_BCR | CMD_TYPE_AC | CMD_TYPE_ADTC

datatype cmd_response =
    CMD_RESPONSE_NONE | CMD_RESPONSE_R1_NORMAL | CMD_RESPONSE_R1B_NORMAL_BUSY
  | CMD_RESPONSE_R2_CID_OR_CSD_REG | CMD_RESPONSE_R3_OCR_REG | CMD_RESPONSE_R6_PUBLISHED_RCA
  | CMD_RESPONSE_R7_CARD_INTERFACE_CONDITION

record command =
  index :: cmd_index
  cmdtype :: cmd_type
  response :: cmd_response

definition commands :: "command list" where
  "commands =
     map (\<lambda>(i, t, r). \<lparr>index = i, cmdtype = t, response = r\<rparr>)
      [(CMD_IDX_GO_IDLE_STATE, CMD_TYPE_BC, CMD_RESPONSE_NONE),
       (CMD_IDX_ALL_SEND_CID, CMD_TYPE_BCR, CMD_RESPONSE_R2_CID_OR_CSD_REG),
       (CMD_IDX_SEND_RELATIVE_ADDR, CMD_TYPE_BCR, CMD_RESPONSE_R6_PUBLISHED_RCA),
       (CMD_IDX_SELECT_CARD, CMD_TYPE_AC, CMD_RESPONSE_R1B_NORMAL_BUSY),
       (CMD_IDX_SEND_IF_COND, CMD_TYPE_BCR, CMD_RESPONSE_R7_CARD_INTERFACE_CONDITION),
       (CMD_IDX_SEND_STATUS, CMD_TYPE_AC, CMD_RESPONSE_R1_NORMAL),
       (CMD_IDX_READ_SINGLE_BLOCK, CMD_TYPE_ADTC, CMD_RESPONSE_R1_NORMAL),
       (CMD_IDX_READ_MULTIPLE_BLOCK, CMD_TYPE_ADTC, CMD_RESPONSE_R1_NORMAL),
       (CMD_IDX_SET_BLOCK_COUNT, CMD_TYPE_AC, CMD_RESPONSE_R1_NORMAL),
       (CMD_IDX_APP_CMD, CMD_TYPE_AC, CMD_RESPONSE_R1_NORMAL),
       (ACMD_IDX_SET_BUS_WIDTH, CMD_TYPE_AC, CMD_RESPONSE_R1_NORMAL),
       (ACMD_IDX_SD_SEND_OP_COND, CMD_TYPE_BCR, CMD_RESPONSE_R3_OCR_REG),
       (ACMD_IDX_SD_SEND_SCR, CMD_TYPE_ADTC, CMD_RESPONSE_R1_NORMAL)]"

primrec get_command_from :: "command list \<Rightarrow> cmd_index \<Rightarrow> command option" where
  "get_command_from [] idx = None"
| "get_command_from (cmd # cmds) idx = (if index cmd = idx then Some cmd else get_command_from cmds idx)"

definition get_command :: "cmd_index \<Rightarrow> command option" where
  "get_command idx = get_command_from commands idx"

section \<open>The command register\<close>

definition set_cmdtm_response_type :: "command \<Rightarrow> cmdtm \<Rightarrow> cmdtm" where
  "set_cmdtm_response_type cmd cmdtm =
     (case response cmd of
        CMD_RESPONSE_NONE \<Rightarrow> cmdtm\<lparr>tm_response_type := CMDTM_RESPONSE_TYPE_NONE\<rparr>
      | CMD_RESPONSE_R1_NORMAL \<Rightarrow> cmdtm\<lparr>tm_response_type := CMDTM_RESPONSE_TYPE_48_BITS\<rparr>
      | CMD_RESPONSE_R3_OCR_REG \<Rightarrow> cmdtm\<lparr>tm_response_type := CMDTM_RESPONSE_TYPE_48_BITS\<rparr>
      | CMD_RESPONSE_R6_PUBLISHED_RCA \<Rightarrow> cmdtm\<lparr>tm_response_type := CMDTM_RESPONSE_TYPE_48_BITS\<rparr>
      | CMD_RESPONSE_R7_CARD_INTERFACE_CONDITION \<Rightarrow> cmdtm\<lparr>tm_response_type := CMDTM_RESPONSE_TYPE_48_BITS\<rparr>
      | CMD_RESPONSE_R1B_NORMAL_BUSY \<Rightarrow> cmdtm\<lparr>tm_response_type := CMDTM_RESPONSE_TYPE_48_BITS_BUSY\<rparr>
      | CMD_RESPONSE_R2_CID_OR_CSD_REG \<Rightarrow> cmdtm\<lparr>tm_response_type := CMDTM_RESPONSE_TYPE_136_BITS\<rparr>)"

definition set_cmdtm_idx_and_crc_chk :: "command \<Rightarrow> cmdtm \<Rightarrow> cmdtm" where
  "set_cmdtm_idx_and_crc_chk cmd cmdtm =
     (case response cmd of
        CMD_RESPONSE_NONE \<Rightarrow> cmdtm
      | CMD_RESPONSE_R3_OCR_REG \<Rightarrow> cmdtm
      | CMD_RESPONSE_R2_CID_OR_CSD_REG \<Rightarrow> cmdtm\<lparr>tm_cmd_crc_chk_en := 1\<rparr>
      | CMD_RESPONSE_R1_NORMAL \<Rightarrow> cmdtm\<lparr>tm_cmd_index_chk_en := 1, tm_cmd_crc_chk_en := 1\<rparr>
      | CMD_RESPONSE_R1B_NORMAL_BUSY \<Rightarrow> cmdtm\<lparr>tm_cmd_index_chk_en := 1, tm_cmd_crc_chk_en := 1\<rparr>
      | CMD_RESPONSE_R6_PUBLISHED_RCA \<Rightarrow> cmdtm\<lparr>tm_cmd_index_chk_en := 1, tm_cmd_crc_chk_en := 1\<rparr>
      | CMD_RESPONSE_R7_CARD_INTERFACE_CONDITION \<Rightarrow>
          cmdtm\<lparr>tm_cmd_index_chk_en := 1, tm_cmd_crc_chk_en := 1\<rparr>)"

definition set_cmdtm_transfer_mode :: "command \<Rightarrow> cmdtm \<Rightarrow> cmdtm" where
  "set_cmdtm_transfer_mode cmd cmdtm =
     (let cmdtm =
        (if index cmd = CMD_IDX_READ_SINGLE_BLOCK \<or> index cmd = CMD_IDX_READ_MULTIPLE_BLOCK \<or>
            index cmd = ACMD_IDX_SD_SEND_SCR
         then cmdtm\<lparr>tm_data_transfer_direction := CMDTM_TM_DAT_DIR_READ\<rparr> else cmdtm)
      in if index cmd = CMD_IDX_READ_MULTIPLE_BLOCK
         then cmdtm\<lparr>tm_block_cnt_en := 1, tm_multi_block := 1\<rparr> else cmdtm)"

definition set_cmdtm :: "command \<Rightarrow> cmdtm" where
  "set_cmdtm cmd =
     (let cmdtm = cmdtm_of 0;
          cmdtm = cmdtm\<lparr>tm_cmd_index := cmd_index_value (index cmd) AND NOT IS_APP_CMD\<rparr>;
          cmdtm = set_cmdtm_response_type cmd cmdtm;
          cmdtm = set_cmdtm_idx_and_crc_chk cmd cmdtm;
          cmdtm = (if cmdtype cmd = CMD_TYPE_ADTC then cmdtm\<lparr>tm_data_present := 1\<rparr> else cmdtm)
      in set_cmdtm_transfer_mode cmd cmdtm)"

section \<open>Interrupts\<close>

primrec wait_any_loop :: "'d hw \<Rightarrow> timestamp_t \<Rightarrow> nat \<Rightarrow> ('d, u32) io" where
  "wait_any_loop hw ts 0 = stop Hang"
| "wait_any_loop hw ts (Suc k) =
     bnd (register_get_out hw sd_access INTERRUPT) (\<lambda>irpt.
     if irpt \<noteq> 0 then
       bnd (register_set_ptr hw sd_access INTERRUPT irpt) (\<lambda>_. ret irpt)
     else
       bnd (usleep hw 50) (\<lambda>_.
       bnd (timer_poll_done hw ts) (\<lambda>done_b.
       if done_b then ret irpt else wait_any_loop hw ts k)))"

definition sd_wait_for_any_interrupt :: "'d hw \<Rightarrow> ('d, u32) io" where
  "sd_wait_for_any_interrupt hw =
     bnd (timer_poll_start hw 500) (\<lambda>ts. wait_any_loop hw ts (poll_fuel hw))"

definition sd_wait_for_interrupt :: "'d hw \<Rightarrow> u32 \<Rightarrow> ('d, cmd_error) io" where
  "sd_wait_for_interrupt hw interrupt_mask =
     bnd (sd_wait_for_any_interrupt hw) (\<lambda>irpt.
     if irpt = 0 then
       bnd (serial_log hw ''SD cmd error: timeout waiting for interrupt %08x'' [VaU interrupt_mask]) (\<lambda>_.
       ret CMD_ERROR_WAIT_FOR_INTERRUPT_TIMEOUT)
     else if irq_error (interrupt_of irpt) \<noteq> 0 then
       bnd (serial_log hw ''SD cmd error: error interrupt triggered: %08x'' [VaU irpt]) (\<lambda>_.
       ret CMD_ERROR_INTERRUPT_ERROR)
     else if \<not> (irpt AND interrupt_mask \<noteq> 0) then
       bnd (serial_log hw ''SD cmd error: expected interrupt %08x not triggered: %08x''
              [VaU interrupt_mask, VaU irpt]) (\<lambda>_.
       ret CMD_ERROR_EXPECTED_INTERRUPT_NOT_TRIGGERED)
     else ret CMD_ERROR_NONE)"

section \<open>Issuing a command\<close>

definition sd_cmd_has_card_status_response :: "command \<Rightarrow> bool" where
  "sd_cmd_has_card_status_response cmd \<longleftrightarrow>
     response cmd = CMD_RESPONSE_R1_NORMAL \<or> response cmd = CMD_RESPONSE_R1B_NORMAL_BUSY"

definition sd_card_status_error_bit_set :: "card_status \<Rightarrow> bool" where
  "sd_card_status_error_bit_set cs \<longleftrightarrow>
     cs_ake_seq_error cs \<noteq> 0 \<or> cs_wp_erase_skip cs \<noteq> 0 \<or> cs_csd_overwrite cs \<noteq> 0 \<or>
     cs_error cs \<noteq> 0 \<or> cs_cc_error cs \<noteq> 0 \<or> cs_card_ecc_failed cs \<noteq> 0 \<or> cs_illegal_command cs \<noteq> 0 \<or>
     cs_com_crc_error cs \<noteq> 0 \<or> cs_lock_unlock_failed cs \<noteq> 0 \<or> cs_wp_violation cs \<noteq> 0 \<or>
     cs_erase_param cs \<noteq> 0 \<or> cs_erase_seq_error cs \<noteq> 0 \<or> cs_block_len_error cs \<noteq> 0 \<or>
     cs_address_error cs \<noteq> 0 \<or> cs_out_of_range cs \<noteq> 0"

definition IDX_SPEC_ARGS :: "cmd_index \<Rightarrow> va list" where
  "IDX_SPEC_ARGS idx =
     [VaS (if cmd_index_value idx AND IS_APP_CMD \<noteq> 0 then ''APP'' else ''''),
      VaU (cmd_index_value idx AND NOT IS_APP_CMD)]"

text \<open>The check of the card status after a command, lines 277 to 287 of \<^verbatim>\<open>sd_issue_cmd()\<close>.\<close>

definition check_card_status :: "'d hw \<Rightarrow> cmd_index \<Rightarrow> command \<Rightarrow> cmd_error \<Rightarrow> ('d, cmd_error) io" where
  "check_card_status hw idx cmd error =
     (if error = CMD_ERROR_NONE \<and> sd_cmd_has_card_status_response cmd then
       bnd (register_get_out hw sd_access RESP0) (\<lambda>cs.
       if sd_card_status_error_bit_set (card_status_of cs) then
         bnd (serial_log hw ''SD cmd error: command %s%u has error returned in card status register: %08x''
                (IDX_SPEC_ARGS idx @ [VaU cs])) (\<lambda>_.
         ret CMD_ERROR_CARD_STATUS_ERROR)
       else ret error)
     else if error \<noteq> CMD_ERROR_NONE then
       bnd (serial_log hw ''SD cmd error: command %s%u failed'' (IDX_SPEC_ARGS idx)) (\<lambda>_.
       ret error)
     else ret error)"

definition sd_issue_cmd :: "'d hw \<Rightarrow> cmd_index \<Rightarrow> u32 \<Rightarrow> ('d, cmd_error) io" where
  "sd_issue_cmd hw idx args =
     (case get_command idx of
        None \<Rightarrow>
          bnd (serial_log hw ''SD cmd error: command %s%u not implemented'' (IDX_SPEC_ARGS idx)) (\<lambda>_.
          ret CMD_ERROR_COMMAND_UNIMPLEMENTED)
      | Some cmd \<Rightarrow>
     bnd (register_get hw sd_access STATUS) (\<lambda>status.
     if status AND STATUS_COMMAND_INHIBIT_CMD \<noteq> 0 then
       bnd (serial_log hw ''SD cmd error: CMD line already set when trying to issue command %s%u''
              (IDX_SPEC_ARGS idx)) (\<lambda>_.
       ret CMD_ERROR_COMMAND_INHIBIT_CMD_BIT_SET)
     else if (cmdtype cmd = CMD_TYPE_ADTC \<or> response cmd = CMD_RESPONSE_R1B_NORMAL_BUSY) \<and>
             status AND STATUS_COMMAND_INHIBIT_DAT \<noteq> 0 then
       bnd (serial_log hw ''SD cmd error: command %s%u uses DAT line but DAT line already set''
              (IDX_SPEC_ARGS idx)) (\<lambda>_.
       ret CMD_ERROR_COMMAND_INHIBIT_DAT_BIT_SET)
     else
     bnd (register_set hw sd_access ARG1 args) (\<lambda>_.
     bnd (register_set_ptr hw sd_access CMDTM (cast_cmdtm (set_cmdtm cmd))) (\<lambda>_.
     bnd (sd_wait_for_interrupt hw INTERRUPT_CMD_COMPLETE) (\<lambda>error.
     check_card_status hw idx cmd error)))))"

definition sd_issue_acmd :: "'d hw \<Rightarrow> cmd_index \<Rightarrow> u32 \<Rightarrow> u32 \<Rightarrow> ('d, cmd_error) io" where
  "sd_issue_acmd hw idx args rca =
     bnd (sd_issue_cmd hw CMD_IDX_APP_CMD (cast_ac_rca_args ((ac_rca_args_of 0)\<lparr>ac_rca := rca\<rparr>))) (\<lambda>error.
     if error \<noteq> CMD_ERROR_NONE then ret error
     else
     bnd (register_get_out hw sd_access RESP0) (\<lambda>cs.
     if \<not> (cs_app_cmd (card_status_of cs) \<noteq> 0) then
       bnd (serial_log hw ''SD cmd error: application command bit not set by cmd 55 when trying to issue command %s%u''
              (IDX_SPEC_ARGS idx)) (\<lambda>_.
       ret CMD_ERROR_RESPONSE_CONTENTS)
     else sd_issue_cmd hw idx args))"

text \<open>The argument of CMD8: the check pattern and the supply voltage 2.7 to 3.6 V.\<close>

definition cmd8_args :: u32 where
  "cmd8_args = fld 0 8 0xaa OR fld 8 4 0x1"

definition sd_issue_cmd8 :: "'d hw \<Rightarrow> ('d, cmd_error) io" where
  "sd_issue_cmd8 hw =
     bnd (sd_issue_cmd hw CMD_IDX_SEND_IF_COND cmd8_args) (\<lambda>error.
     if error = CMD_ERROR_NONE then
       bnd (register_get_out hw sd_access RESP0) (\<lambda>resp.
       if bytes32 cmd8_args \<noteq> bytes32 resp then
         bnd (serial_log hw ''SD cmd error: cmd 8: sent voltage and check pattern %08x doesn't match response %08x''
                [VaU cmd8_args, VaU resp]) (\<lambda>_.
         ret CMD_ERROR_RESPONSE_CONTENTS)
       else ret error)
     else ret error)"

definition OCR_VDD_2V7_TO_3V6 :: u32 where "OCR_VDD_2V7_TO_3V6 = 0x00ff8000"
definition OCR_CARD_CAPACITY_STATUS :: u32 where "OCR_CARD_CAPACITY_STATUS = BIT 30"
definition OCR_CARD_POWER_UP_STATUS :: u32 where "OCR_CARD_POWER_UP_STATUS = BIT 31"
definition ACMD41_HOST_CAPACITY_SUPPORT :: u32 where "ACMD41_HOST_CAPACITY_SUPPORT = BIT 30"

primrec acmd41_loop :: "'d hw \<Rightarrow> timestamp_t \<Rightarrow> nat \<Rightarrow> u32 \<Rightarrow> nat \<Rightarrow> ('d, cmd_error \<times> bool option) io" where
  "acmd41_loop hw ts i args 0 = stop Hang"
| "acmd41_loop hw ts i args (Suc k) =
     bnd (when_io (i \<noteq> 0) (sleep hw 20)) (\<lambda>_.
     bnd (sd_issue_acmd hw ACMD_IDX_SD_SEND_OP_COND args 0) (\<lambda>error.
     if error \<noteq> CMD_ERROR_NONE then ret (error, None)
     else
     bnd (register_get hw sd_access RESP0) (\<lambda>ocr.
     if ocr AND OCR_CARD_POWER_UP_STATUS \<noteq> 0 then
       ret (CMD_ERROR_NONE, Some (ocr AND OCR_CARD_CAPACITY_STATUS \<noteq> 0))
     else
     bnd (timer_poll_done hw ts) (\<lambda>done_b.
     if \<not> done_b then acmd41_loop hw ts (i + 1) args k
     else
       bnd (serial_log hw ''SD cmd error: app cmd 41: timeout waiting for card to power up'' []) (\<lambda>_.
       ret (CMD_ERROR_GENERAL_TIMEOUT, None))))))"

text \<open>
  The check of the voltage window is written as the C expression parses,
  \<^verbatim>\<open>ocr & (OCR_VDD_2V7_TO_3V6 != OCR_VDD_2V7_TO_3V6)\<close>.
\<close>

definition sd_issue_acmd41 :: "'d hw \<Rightarrow> ('d, cmd_error \<times> bool option) io" where
  "sd_issue_acmd41 hw =
     bnd (sd_issue_acmd hw ACMD_IDX_SD_SEND_OP_COND 0 0) (\<lambda>error.
     if error \<noteq> CMD_ERROR_NONE then ret (error, None)
     else
     bnd (register_get hw sd_access RESP0) (\<lambda>ocr.
     if ocr AND (if OCR_VDD_2V7_TO_3V6 \<noteq> OCR_VDD_2V7_TO_3V6 then 1 else 0) \<noteq> 0 then
       bnd (serial_log hw ''SD cmd error: app cmd 41: card does not support the voltage range: ocr reg %08x''
              [VaU ocr]) (\<lambda>_.
       ret (CMD_ERROR_RESPONSE_CONTENTS, None))
     else
     let args = 0 OR OCR_VDD_2V7_TO_3V6 OR ACMD41_HOST_CAPACITY_SUPPORT
     in bnd (timer_poll_start hw 1000) (\<lambda>ts.
        acmd41_loop hw ts 0 args (poll_fuel hw))))"

text \<open>The response of CMD3: a subset of the card status in the low half, the address in the high half.\<close>

definition sd_issue_cmd3 :: "'d hw \<Rightarrow> ('d, cmd_error \<times> u32 option) io" where
  "sd_issue_cmd3 hw =
     bnd (sd_issue_cmd hw CMD_IDX_SEND_RELATIVE_ADDR 0) (\<lambda>error.
     if error = CMD_ERROR_NONE then
       bnd (register_get_out hw sd_access RESP0) (\<lambda>resp.
       if getfld 3 1 resp \<noteq> 0 \<or> getfld 13 1 resp \<noteq> 0 \<or> getfld 14 1 resp \<noteq> 0 \<or> getfld 15 1 resp \<noteq> 0 then
         bnd (serial_log hw ''SD cmd error: cmd 3: error set in response: %08x'' [VaU resp]) (\<lambda>_.
         ret (CMD_ERROR_CARD_STATUS_ERROR, None))
       else ret (error, Some (getfld 16 16 resp)))
     else ret (error, None))"

definition sd_issue_cmd7 :: "'d hw \<Rightarrow> u32 \<Rightarrow> ('d, cmd_error) io" where
  "sd_issue_cmd7 hw rca =
     sd_issue_cmd hw CMD_IDX_SELECT_CARD (cast_ac_rca_args ((ac_rca_args_of 0)\<lparr>ac_rca := rca\<rparr>))"

definition sd_issue_cmd13 :: "'d hw \<Rightarrow> u32 \<Rightarrow> ('d, cmd_error \<times> card_status option) io" where
  "sd_issue_cmd13 hw rca =
     bnd (sd_issue_cmd hw CMD_IDX_SEND_STATUS (cast_ac_rca_args ((ac_rca_args_of 0)\<lparr>ac_rca := rca\<rparr>))) (\<lambda>error.
     if error = CMD_ERROR_NONE then
       bnd (register_get_out hw sd_access RESP0) (\<lambda>cs. ret (error, Some (card_status_of cs)))
     else ret (error, None))"

definition sd_issue_acmd6 :: "'d hw \<Rightarrow> u32 \<Rightarrow> bool \<Rightarrow> ('d, cmd_error) io" where
  "sd_issue_acmd6 hw rca four_bit =
     sd_issue_acmd hw ACMD_IDX_SET_BUS_WIDTH (fld 0 2 (if four_bit then 2 else 0)) rca"

section \<open>Reading data\<close>

definition set_blkszcnt :: "'d hw \<Rightarrow> nat \<Rightarrow> nat \<Rightarrow> ('d, unit) io" where
  "set_blkszcnt hw blksz blkcnt =
     register_set hw sd_access BLKSIZECNT
       (cast_blksizecnt ((blksizecnt_of 0)\<lparr>bs_blksize := of_nat blksz, bs_blkcnt := of_nat blkcnt\<rparr>))"

definition sd_data_addr :: addr where
  "sd_data_addr = ARM_LO_MAIN_PERIPH_BASE_ADDR + periph_base_off sd_access + register_offsets sd_access DATA"

text \<open>
  The assembly loop that copies one block: \<open>r5\<close> is the destination, \<open>n\<close> the number of
  words left in \<open>r6\<close>; the final \<open>r5\<close> is the result.
\<close>

primrec read_data :: "'d hw \<Rightarrow> addr \<Rightarrow> nat \<Rightarrow> ('d, addr) io" where
  "read_data hw r5 0 = ret r5"
| "read_data hw r5 (Suc n) =
     bnd (bus_read hw sd_data_addr) (\<lambda>r7.
     bnd (modify (\<lambda>s. s\<lparr>ram := ram_set32 (ram s) r5 r7\<rparr>)) (\<lambda>_.
     read_data hw (r5 + 4) n))"

primrec read_blocks_loop :: "'d hw \<Rightarrow> addr \<Rightarrow> nat \<Rightarrow> ('d, cmd_error) io" where
  "read_blocks_loop hw r5 0 = sd_wait_for_interrupt hw INTERRUPT_TRANSFER_COMPLETE"
| "read_blocks_loop hw r5 (Suc nblks) =
     bnd (sd_wait_for_interrupt hw INTERRUPT_READ_READY) (\<lambda>error.
     if error \<noteq> CMD_ERROR_NONE then ret error
     else
       bnd (read_data hw r5 (SD_BLKSZ div 4)) (\<lambda>r5.
       read_blocks_loop hw r5 nblks))"

text \<open>The number of blocks is one or a \<^verbatim>\<open>uint16_t\<close> at every call.\<close>

definition sd_issue_read_cmd :: "'d hw \<Rightarrow> cmd_index \<Rightarrow> addr \<Rightarrow> u32 \<Rightarrow> nat \<Rightarrow> ('d, cmd_error) io" where
  "sd_issue_read_cmd hw idx ram_dest_addr sd_src_addr nblks =
     bnd (set_blkszcnt hw SD_BLKSZ nblks) (\<lambda>_.
     bnd (sd_issue_cmd hw idx sd_src_addr) (\<lambda>error.
     if error \<noteq> CMD_ERROR_NONE then ret error
     else read_blocks_loop hw ram_dest_addr nblks))"

definition sd_issue_cmd17 :: "'d hw \<Rightarrow> addr \<Rightarrow> u32 \<Rightarrow> ('d, cmd_error) io" where
  "sd_issue_cmd17 hw ram_dest_addr sd_src_addr =
     sd_issue_read_cmd hw CMD_IDX_READ_SINGLE_BLOCK ram_dest_addr sd_src_addr 1"

definition sd_issue_cmd18 :: "'d hw \<Rightarrow> addr \<Rightarrow> u32 \<Rightarrow> nat \<Rightarrow> ('d, cmd_error) io" where
  "sd_issue_cmd18 hw ram_dest_addr sd_src_addr nblks =
     sd_issue_read_cmd hw CMD_IDX_READ_MULTIPLE_BLOCK ram_dest_addr sd_src_addr nblks"

definition sd_issue_acmd51 :: "'d hw \<Rightarrow> u32 \<Rightarrow> ('d, cmd_error \<times> scr) io" where
  "sd_issue_acmd51 hw rca =
     bnd (set_blkszcnt hw (4 + 4) 1) (\<lambda>_.
     bnd (sd_issue_acmd hw ACMD_IDX_SD_SEND_SCR 0 rca) (\<lambda>error.
     if error \<noteq> CMD_ERROR_NONE then ret (error, scr_of 0)
     else
     bnd (sd_wait_for_interrupt hw INTERRUPT_READ_READY) (\<lambda>error.
     if error \<noteq> CMD_ERROR_NONE then ret (error, scr_of 0)
     else
     bnd (register_get hw sd_access DATA) (\<lambda>v.
     bnd (register_get hw sd_access DATA) (\<lambda>_.
     bnd (sd_wait_for_interrupt hw INTERRUPT_TRANSFER_COMPLETE) (\<lambda>error.
     ret (error, scr_of (bswap32 v))))))))"

end
