(* ===== verification/Vcmailbox.thy ===== *)
theory Vcmailbox
  imports Debug
begin

unbundle bit_operations_syntax

text \<open>
  \<^verbatim>\<open>src/bld/vcmailbox.c\<close>: property requests to the VideoCore. The property buffer is built in
  RAM at the heap; the argument and return buffers of a request are local variables of its
  caller and given by their bytes, so their sizes are the lengths of the lists. A tag that
  is read beyond the requests of the caller's array is undefined behaviour.
\<close>

section \<open>Data\<close>

datatype vcmailbox_register = MBOX0_READ | MBOX0_STATUS | MBOX1_WRITE | MBOX1_STATUS

fun vcmailbox_register_offset :: "vcmailbox_register \<Rightarrow> u32" where
  "vcmailbox_register_offset MBOX0_READ = 0x00"
| "vcmailbox_register_offset MBOX0_STATUS = 0x18"
| "vcmailbox_register_offset MBOX1_WRITE = 0x20"
| "vcmailbox_register_offset MBOX1_STATUS = 0x38"

definition vcmailbox_access :: "vcmailbox_register periph_access" where
  "vcmailbox_access = \<lparr>periph_base_off = 0x200b880, register_offsets = vcmailbox_register_offset\<rparr>"

definition MBOX1_STATUS_FULL :: u32 where "MBOX1_STATUS_FULL = BIT 31"
definition MBOX0_STATUS_EMPTY :: u32 where "MBOX0_STATUS_EMPTY = BIT 30"
definition TAG_RESPONSE_CODE_RESPONSE :: u32 where "TAG_RESPONSE_CODE_RESPONSE = BIT 31"
definition PROP_RESPONSE_CODE_RESPONSE :: u32 where "PROP_RESPONSE_CODE_RESPONSE = BIT 31"
definition PROP_RESPONSE_CODE_ERROR :: u32 where "PROP_RESPONSE_CODE_ERROR = BIT 0"
definition CHANNEL_PROPERTY :: u32 where "CHANNEL_PROPERTY = 8"
definition CHANNEL_BITS :: u32 where "CHANNEL_BITS = BITS 3 0"

datatype tag_id =
    TAG_VC_GET_FIRMWARE_REV | TAG_HW_GET_BOARD_REV | TAG_POWER_GET_STATE | TAG_CLOCK_GET_STATE
  | TAG_CLOCK_GET_RATE | TAG_GPIO_GET_STATE | TAG_GPIO_GET_CONFIG

fun tag_id_value :: "tag_id \<Rightarrow> u32" where
  "tag_id_value TAG_VC_GET_FIRMWARE_REV = 0x00000001"
| "tag_id_value TAG_HW_GET_BOARD_REV = 0x00010002"
| "tag_id_value TAG_POWER_GET_STATE = 0x00020001"
| "tag_id_value TAG_CLOCK_GET_STATE = 0x00030001"
| "tag_id_value TAG_CLOCK_GET_RATE = 0x00030002"
| "tag_id_value TAG_GPIO_GET_STATE = 0x00030041"
| "tag_id_value TAG_GPIO_GET_CONFIG = 0x00030043"

datatype vcmailbox_error =
    VCMBOX_ERROR_NONE | VCMBOX_ERROR_RECEIVE_WRONG_CHANNEL
  | VCMBOX_ERROR_BUFFER_RESPONSE_ADDR_MISMATCH | VCMBOX_ERROR_BUFFER_RESPONSE_BIT_NOT_SET
  | VCMBOX_ERROR_PARSING_REQUEST | VCMBOX_ERROR_TAG_RESPONSE_BIT_NOT_SET
  | VCMBOX_ERROR_TAG_RESPONSE_SIZE_MISMATCH | VCMBOX_ERROR_TAG_RESPONSE_OUT_OF_ORDER
  | VCMBOX_ERROR_TAG_RESPONSE_MISSED

record tag_request =
  req_id :: tag_id
  req_args :: "u8 list"
  req_ret :: "u8 list"

abbreviation args_sz :: "tag_request \<Rightarrow> int" where
  "args_sz req \<equiv> int (length (req_args req))"

abbreviation ret_sz :: "tag_request \<Rightarrow> int" where
  "ret_sz req \<equiv> int (length (req_ret req))"

text \<open>
  Member offsets of \<^verbatim>\<open>struct tag\<close> (\<^verbatim>\<open>id\<close>, \<^verbatim>\<open>value_bufsz\<close>, the code, \<^verbatim>\<open>value_buf\<close>)
  and of \<^verbatim>\<open>struct property_buffer\<close> (\<^verbatim>\<open>bufsz\<close>, the code, \<^verbatim>\<open>tags\<close>).
\<close>

definition tag_value_bufsz_off :: addr where "tag_value_bufsz_off = 4"
definition tag_code_off :: addr where "tag_code_off = 8"
definition tag_value_buf_off :: addr where "tag_value_buf_off = 12"
definition prop_code_off :: addr where "prop_code_off = 4"
definition prop_tags_off :: addr where "prop_tags_off = 8"

lemmas tag_offs = tag_value_bufsz_off_def tag_code_off_def tag_value_buf_off_def
  prop_code_off_def prop_tags_off_def

section \<open>Messages\<close>

definition mbox1_status_full_flag_set :: "'d hw \<Rightarrow> ('d, bool) io" where
  "mbox1_status_full_flag_set hw =
     bnd (register_get hw vcmailbox_access MBOX1_STATUS) (\<lambda>v.
     ret (v AND MBOX1_STATUS_FULL \<noteq> 0))"

definition vcmailbox_write_message :: "'d hw \<Rightarrow> u32 \<Rightarrow> u32 \<Rightarrow> ('d, unit) io" where
  "vcmailbox_write_message hw data chan =
     bnd (while_cond_timeout_infinite hw (mbox1_status_full_flag_set hw) 200) (\<lambda>_.
     register_set hw vcmailbox_access MBOX1_WRITE ((data AND NOT CHANNEL_BITS) OR chan))"

definition mbox0_status_empty_flag_set :: "'d hw \<Rightarrow> ('d, bool) io" where
  "mbox0_status_empty_flag_set hw =
     bnd (register_get hw vcmailbox_access MBOX0_STATUS) (\<lambda>v.
     ret (v AND MBOX0_STATUS_EMPTY \<noteq> 0))"

text \<open>Once a message is there, the VideoCore has updated the buffer in RAM.\<close>

definition vcmailbox_read_message :: "'d hw \<Rightarrow> ('d, u32) io" where
  "vcmailbox_read_message hw =
     bnd (while_cond_timeout_infinite hw (mbox0_status_empty_flag_set hw) 200) (\<lambda>_.
     bnd (modify (\<lambda>s. s\<lparr>ram := vc_respond hw (dev s) (ram s)\<rparr>)) (\<lambda>_.
     register_get hw vcmailbox_access MBOX0_READ))"

section \<open>The property buffer\<close>

text \<open>The loop makes fewer than \<open>n\<close> steps, so \<open>n\<close> is enough fuel for it.\<close>

primrec align_loop :: "nat \<Rightarrow> addr \<Rightarrow> int \<Rightarrow> addr" where
  "align_loop 0 a n = a"
| "align_loop (Suc k) a n = (if c_rem (sint a) n \<noteq> 0 then align_loop k (a + 1) n else a)"

definition align_address :: "addr \<Rightarrow> int \<Rightarrow> addr" where
  "align_address a n = align_loop (nat n) a n"

definition build_tag :: "addr \<Rightarrow> tag_request \<Rightarrow> ram \<Rightarrow> int \<times> ram" where
  "build_tag tag req m =
     (let value_bufsz = c_max (args_sz req) (ret_sz req);
          m = ram_set32 m tag (tag_id_value (req_id req));
          m = ram_set32 m (tag + tag_value_bufsz_off) (of_int value_bufsz);
          m = ram_set32 m (tag + tag_code_off) 0;
          tag_end = tag + tag_value_buf_off + of_int value_bufsz;
          m = mzero (tag + tag_value_buf_off) value_bufsz m;
          m = (if args_sz req \<noteq> 0 then ram_write m (tag + tag_value_buf_off) (req_args req) else m);
          tag_end = align_address tag_end 4
      in (sint (tag_end - tag), m))"

primrec build_tags :: "tag_request list \<Rightarrow> addr \<Rightarrow> ram \<Rightarrow> addr \<times> ram" where
  "build_tags [] prop_end m = (prop_end, m)"
| "build_tags (req # reqs) prop_end m =
     (let (sz, m) = build_tag prop_end req m
      in build_tags reqs (prop_end + of_int sz) m)"

definition build_property_buffer :: "tag_request list \<Rightarrow> ram \<Rightarrow> addr \<times> ram" where
  "build_property_buffer tag_requests m =
     (let prop = align_address heap_get_base_address 16;
          m = ram_set32 m (prop + prop_code_off) 0;
          (prop_end, m) = build_tags tag_requests (prop + prop_tags_off) m;
          m = ram_set32 m prop_end 0;
          prop_end = prop_end + 4;
          prop_end = align_address prop_end 16;
          m = ram_set32 m prop (prop_end - prop)
      in (prop, m))"

section \<open>Responses\<close>

text \<open>
  The walk over the tags of a response. \<open>i\<close> counts the tags, \<open>rets\<close> holds the
  return buffers of the requests answered so far; the buffers of the others are as the caller
  left them.
\<close>

fun return_tags :: "'d hw \<Rightarrow> addr \<Rightarrow> tag_request list \<Rightarrow> int \<Rightarrow> int \<Rightarrow> u8 list list \<Rightarrow>
    ('d, vcmailbox_error \<times> u8 list list) io" where
  "return_tags hw tag [] i n rets =
     bnd (gets (\<lambda>s. ram_get32 (ram s) tag)) (\<lambda>tid.
     if tid \<noteq> 0 then stop Undef
     else if i \<noteq> n then
       bnd (serial_log hw ''Vcmailbox error: requested %u tags but only found %u'' [VaU (of_int n), VaU (of_int i)]) (\<lambda>_.
       ret (VCMBOX_ERROR_TAG_RESPONSE_MISSED, rets))
     else ret (VCMBOX_ERROR_NONE, rets))"
| "return_tags hw tag (req # reqs) i n rets =
     bnd (gets (\<lambda>s. ram_get32 (ram s) tag)) (\<lambda>tid.
     if tid = 0 then
       (if i \<noteq> n then
          bnd (serial_log hw ''Vcmailbox error: requested %u tags but only found %u'' [VaU (of_int n), VaU (of_int i)]) (\<lambda>_.
          ret (VCMBOX_ERROR_TAG_RESPONSE_MISSED, rets @ map req_ret (req # reqs)))
        else ret (VCMBOX_ERROR_NONE, rets @ map req_ret (req # reqs)))
     else if tid \<noteq> tag_id_value (req_id req) then
       bnd (serial_log hw ''Vcmailbox error: requested tag %08x but response is tag %08x''
              [VaU (tag_id_value (req_id req)), VaU tid]) (\<lambda>_.
       ret (VCMBOX_ERROR_TAG_RESPONSE_OUT_OF_ORDER, rets @ map req_ret (req # reqs)))
     else
     bnd (gets (\<lambda>s. ram_get32 (ram s) (tag + tag_code_off))) (\<lambda>code.
     if \<not> (code AND TAG_RESPONSE_CODE_RESPONSE \<noteq> 0) then
       bnd (serial_log hw ''Vcmailbox error: tag %08x response bit not set: %08x'' [VaU tid, VaU code]) (\<lambda>_.
       ret (VCMBOX_ERROR_TAG_RESPONSE_BIT_NOT_SET, rets @ map req_ret (req # reqs)))
     else
     let resp_ret_sz = sint (code AND NOT TAG_RESPONSE_CODE_RESPONSE)
     in if ret_sz req \<noteq> resp_ret_sz then
       bnd (serial_log hw ''Vcmailbox error: requested tag %08x expects return size %u but response returned size %u''
              [VaU tid, VaU (of_int (ret_sz req)), VaU (of_int resp_ret_sz)]) (\<lambda>_.
       ret (VCMBOX_ERROR_TAG_RESPONSE_SIZE_MISMATCH, rets @ map req_ret (req # reqs)))
     else
     bnd (gets (\<lambda>s. ram_bytes (ram s) (tag + tag_value_buf_off) (nat (ret_sz req)))) (\<lambda>value.
     bnd (gets (\<lambda>s. ram_get32 (ram s) (tag + tag_value_bufsz_off))) (\<lambda>value_bufsz.
     return_tags hw (tag + tag_value_buf_off + value_bufsz) reqs (i + 1) n (rets @ [value])))))"

definition return_tag_responses :: "'d hw \<Rightarrow> addr \<Rightarrow> tag_request list \<Rightarrow>
    ('d, vcmailbox_error \<times> u8 list list) io" where
  "return_tag_responses hw prop tag_requests =
     return_tags hw (prop + prop_tags_off) tag_requests 0 (int (length tag_requests)) []"

text \<open>
  The validation of the received message, lines 281 to 302 of
  \<^verbatim>\<open>vcmailbox_request_tags()\<close>. The test of the channel is written as the C expression
  parses: \<^verbatim>\<open>!=\<close> binds tighter than \<^verbatim>\<open>&\<close>, so it takes the bitwise conjunction of the
  message with the truth value of \<^verbatim>\<open>CHANNEL_BITS != CHANNEL_PROPERTY\<close>.
\<close>

definition check_response :: "'d hw \<Rightarrow> tag_request list \<Rightarrow> addr \<Rightarrow> u32 \<Rightarrow>
    ('d, vcmailbox_error \<times> u8 list list) io" where
  "check_response hw tag_requests send_prop recv_msg =
     (if recv_msg AND (if CHANNEL_BITS \<noteq> CHANNEL_PROPERTY then 1 else 0) \<noteq> 0 then
       bnd (serial_log hw ''Vcmailbox error: sent message on channel %u but received message on channel %u''
              [VaU CHANNEL_PROPERTY, VaU (recv_msg AND CHANNEL_BITS)]) (\<lambda>_.
       ret (VCMBOX_ERROR_RECEIVE_WRONG_CHANNEL, map req_ret tag_requests))
     else
     let recv_prop = recv_msg AND NOT CHANNEL_BITS
     in if recv_prop \<noteq> send_prop then
       bnd (serial_log hw ''Vcmailbox error: address of sent property %08x doesn't match address of received property %08x''
              [VaU send_prop, VaU recv_prop]) (\<lambda>_.
       ret (VCMBOX_ERROR_BUFFER_RESPONSE_ADDR_MISMATCH, map req_ret tag_requests))
     else
     bnd (gets (\<lambda>s. ram_get32 (ram s) (recv_prop + prop_code_off))) (\<lambda>code.
     if \<not> (code AND PROP_RESPONSE_CODE_RESPONSE \<noteq> 0) then
       bnd (serial_log hw ''Vcmailbox error: property response bit not set: %08x'' [VaU code]) (\<lambda>_.
       ret (VCMBOX_ERROR_BUFFER_RESPONSE_BIT_NOT_SET, map req_ret tag_requests))
     else if code AND PROP_RESPONSE_CODE_ERROR \<noteq> 0 then
       bnd (serial_log hw ''Vcmailbox error: property response signalled error'' []) (\<lambda>_.
       ret (VCMBOX_ERROR_PARSING_REQUEST, map req_ret tag_requests))
     else return_tag_responses hw recv_prop tag_requests))"

definition vcmailbox_request_tags :: "'d hw \<Rightarrow> tag_request list \<Rightarrow>
    ('d, vcmailbox_error \<times> u8 list list) io" where
  "vcmailbox_request_tags hw tag_requests =
     bnd (gets (\<lambda>s. build_property_buffer tag_requests (ram s))) (\<lambda>(send_prop, m).
     bnd (modify (\<lambda>s. s\<lparr>ram := m\<rparr>)) (\<lambda>_.
     bnd (vcmailbox_write_message hw send_prop CHANNEL_PROPERTY) (\<lambda>_.
     bnd (vcmailbox_read_message hw) (\<lambda>recv_msg.
     check_response hw tag_requests send_prop recv_msg))))"

section \<open>Alignment\<close>

lemma c_rem_sint_eq_0:
  assumes "n dvd 2 ^ 32"
  shows "c_rem (sint (a :: u32)) (int n) = 0 \<longleftrightarrow> unat a mod n = 0"
proof -
  have "int n dvd 2 ^ 32" using assms by (metis of_nat_dvd_iff of_nat_numeral of_nat_power)
  then have "sint a mod int n = uint a mod int n"
    by (simp add: uint_sint take_bit_eq_mod mod_mod_cancel)
  then have "int n dvd sint a \<longleftrightarrow> int (unat a mod n) = 0"
    by (simp add: dvd_eq_mod_eq_0 zmod_int)
  then show ?thesis by (simp add: c_rem_eq_0 del: int_dvd_int_iff)
qed

lemma unat_Suc_mod:
  assumes "n dvd 2 ^ 32"
  shows "unat (a + 1 :: u32) mod n = Suc (unat a) mod n"
proof -
  have "unat (a + 1) = (unat a + 1) mod 2 ^ 32" by (simp add: unat_word_ariths)
  then show ?thesis using assms by (simp add: mod_mod_cancel)
qed

definition align_dist :: "addr \<Rightarrow> nat \<Rightarrow> nat" where
  "align_dist a n = (n - unat a mod n) mod n"

lemma align_loop_eq:
  assumes "n dvd 2 ^ 32" and "0 < n"
  shows "align_dist a n \<le> k \<Longrightarrow> align_loop k a (int n) = a + of_nat (align_dist a n)"
proof (induction k arbitrary: a)
  case (Suc k)
  show ?case
  proof (cases "unat a mod n = 0")
    case True
    then show ?thesis using c_rem_sint_eq_0 [OF assms(1), of a] by (simp add: align_dist_def)
  next
    case False
    then have lt: "unat a mod n < n" and d: "align_dist a n = n - unat a mod n"
      using assms(2) by (simp_all add: align_dist_def)
    have d1: "align_dist (a + 1) n = align_dist a n - 1"
    proof (cases "Suc (unat a mod n) = n")
      case True
      then have "Suc (unat a) mod n = 0" by (metis mod_Suc)
      then show ?thesis using d True by (simp add: align_dist_def unat_Suc_mod [OF assms(1)])
    next
      case False
      then have "Suc (unat a) mod n = Suc (unat a mod n)" by (simp add: mod_Suc)
      then show ?thesis using d False lt by (simp add: align_dist_def unat_Suc_mod [OF assms(1)])
    qed
    have "0 < align_dist a n" using d lt by simp
    then have "a + 1 + of_nat (align_dist a n - 1) = a + of_nat (align_dist a n)"
      by (cases "align_dist a n") (simp_all add: add.assoc)
    then show ?thesis using Suc.IH [of "a + 1"] Suc.prems d1 c_rem_sint_eq_0 [OF assms(1), of a] False by simp
  qed
qed (simp add: align_dist_def)

lemma align_address_eq:
  "n dvd 2 ^ 32 \<Longrightarrow> 0 < n \<Longrightarrow> align_address a (int n) = a + of_nat (align_dist a n)"
  unfolding align_address_def by (subst align_loop_eq) (auto simp: align_dist_def less_imp_le)

lemma align_address_4_16:
  "align_address a 4 = a + of_nat (align_dist a 4)" "align_address a 16 = a + of_nat (align_dist a 16)"
  using align_address_eq [of 4 a] align_address_eq [of 16 a] by simp_all

section \<open>What a response means\<close>

text \<open>
  \<open>answered m tag reqs vs\<close>: from \<open>tag\<close> on, memory holds one tag per request, in order, each
  with its response bit and the expected size set and the value \<open>v\<close> in its value buffer, and
  then the end marker.
\<close>

fun answered :: "ram \<Rightarrow> addr \<Rightarrow> tag_request list \<Rightarrow> u8 list list \<Rightarrow> bool" where
  "answered m tag [] vs \<longleftrightarrow> vs = [] \<and> ram_get32 m tag = 0"
| "answered m tag (req # reqs) vs \<longleftrightarrow>
     ram_get32 m tag = tag_id_value (req_id req) \<and>
     bit (ram_get32 m (tag + 8)) 31 \<and>
     unat (take_bit 31 (ram_get32 m (tag + 8))) = length (req_ret req) \<and>
     (\<exists>vs'. vs = ram_bytes m (tag + 12) (length (req_ret req)) # vs' \<and>
        answered m (tag + 12 + ram_get32 m (tag + 4)) reqs vs')"

lemma tag_id_nonzero: "tag_id_value t \<noteq> 0"
  by (cases t) simp_all

lemma not_response_bit: "v AND NOT (BIT 31) = take_bit 31 v"
  by (rule bit_word_eqI) (auto simp: bit_and_iff bit_not_iff bit_BIT bit_take_bit_iff)

lemma sint_take_bit_31: "sint (take_bit 31 v :: u32) = uint (take_bit 31 v)"
proof -
  have "\<not> bit (take_bit 31 v :: u32) 31" by (simp add: bit_take_bit_iff)
  then have "\<not> bit (uint (take_bit 31 v :: u32)) 31" by (simp add: bit_uint_iff)
  then show ?thesis by (simp add: sint_uint signed_take_bit_eq_if_positive unsigned_take_bit_eq)
qed

lemma return_tags_none:
  "return_tags hw tag reqs i (i + int (length reqs)) rets s = (Ret (VCMBOX_ERROR_NONE, vs), t) \<longleftrightarrow>
     t = s \<and> (\<exists>vs'. vs = rets @ vs' \<and> answered (ram s) tag reqs vs')"
proof (induction reqs arbitrary: tag i rets)
  case Nil
  show ?case by (auto simp: run_simps)
next
  case (Cons req reqs)
  have log: "bnd m (\<lambda>_. ret (e, x)) s = (Ret (VCMBOX_ERROR_NONE, vs), t) \<longleftrightarrow> False"
    if "e \<noteq> VCMBOX_ERROR_NONE" for m :: "('a, unit) io" and e x
    using that by (auto simp: bnd_Ret_iff run_simps)
  let ?code = "ram_get32 (ram s) (tag + 8)"
  have sz: "int (length (req_ret req)) = sint (?code AND NOT (BIT 31)) \<longleftrightarrow>
      unat (take_bit 31 ?code) = length (req_ret req)"
    unfolding not_response_bit sint_take_bit_31 unat_eq_nat_uint using uint_ge_0 [of "take_bit 31 ?code"] by linarith
  have n: "i + int (length (req # reqs)) = (i + 1) + int (length reqs)" by simp
  show ?case
    unfolding n
    by (auto simp: run_simps log Let_def tag_offs TAG_RESPONSE_CODE_RESPONSE_def and_BIT_eq_0
        tag_id_nonzero sz Cons.IH [of _ "i + 1"] simp del: of_nat_Suc)
qed

section \<open>What a request looks like in memory\<close>

definition value_bufsz :: "tag_request \<Rightarrow> nat" where
  "value_bufsz req = max (length (req_args req)) (length (req_ret req))"

definition tag_image :: "tag_request \<Rightarrow> u8 list" where
  "tag_image req = bytes32 (tag_id_value (req_id req)) @ bytes32 (of_nat (value_bufsz req)) @ bytes32 0 @
     req_args req @ replicate (value_bufsz req - length (req_args req)) 0"

lemma length_tag_image: "length (tag_image req) = 12 + value_bufsz req"
  by (simp add: tag_image_def value_bufsz_def)

text \<open>Requests whose buffers are whole words, as all those of \<^verbatim>\<open>src/bld/tag.c\<close> are.\<close>

definition word_sized :: "tag_request \<Rightarrow> bool" where
  "word_sized req \<longleftrightarrow> value_bufsz req mod 4 = 0 \<and> value_bufsz req < 2 ^ 20"

lemma ram_set32_append:
  "length bs + 4 \<le> 2 ^ 32 \<Longrightarrow>
     ram_set32 (ram_write m a bs) (a + of_nat (length bs)) w = ram_write m a (bs @ bytes32 w)"
  by (simp add: ram_set32_write ram_write_append)

lemma align_dist_0: "unat a mod n = 0 \<Longrightarrow> align_dist a n = 0"
  by (simp add: align_dist_def)

lemma unat_add_of_nat_mod:
  assumes "n dvd 2 ^ 32"
  shows "unat (a + of_nat k :: u32) mod n = (unat a + k) mod n"
proof -
  have "unat (a + of_nat k) = (unat a + k) mod 2 ^ 32"
    by (simp add: unat_word_ariths unat_of_nat take_bit_eq_mod mod_add_right_eq)
  then show ?thesis using assms by (simp add: mod_mod_cancel)
qed

lemma build_tag_image:
  assumes "word_sized req" and "unat tag mod 4 = 0"
  shows "build_tag tag req m = (int (12 + value_bufsz req), ram_write m tag (tag_image req))"
proof -
  let ?b = "value_bufsz req"
  let ?hdr = "bytes32 (tag_id_value (req_id req)) @ bytes32 (of_nat ?b) @ bytes32 0"
  have b: "c_max (args_sz req) (ret_sz req) = int ?b" by (auto simp: c_max_def value_bufsz_def)
  have bb: "?b < 2 ^ 20" "?b mod 4 = 0" using assms(1) by (simp_all add: word_sized_def)
  have 1: "ram_set32 (ram_set32 (ram_set32 m tag (tag_id_value (req_id req))) (tag + 4) (of_nat ?b)) (tag + 8) 0 =
      ram_write m tag ?hdr"
    using ram_set32_append [of "bytes32 (tag_id_value (req_id req))" m tag "of_nat ?b"]
      ram_set32_append [of "bytes32 (tag_id_value (req_id req)) @ bytes32 (of_nat ?b)" m tag 0]
    by (simp add: ram_set32_write)
  have 2: "mzero (tag + 12) (int ?b) (ram_write m tag ?hdr) =
      ram_write (ram_write m tag ?hdr) (tag + 12) (replicate ?b 0)"
    using bb(1) by (subst mzero_ram_write) simp_all
  have 3: "(if args_sz req \<noteq> 0 then ram_write (ram_write (ram_write m tag ?hdr) (tag + 12) (replicate ?b 0)) (tag + 12) (req_args req)
      else ram_write (ram_write m tag ?hdr) (tag + 12) (replicate ?b 0)) = ram_write m tag (tag_image req)"
  proof -
    have "ram_write (ram_write (ram_write m tag ?hdr) (tag + 12) (replicate ?b 0)) (tag + 12) (req_args req) =
        ram_write (ram_write m tag ?hdr) (tag + 12) (req_args req @ replicate (?b - length (req_args req)) 0)"
      by (subst ram_write_over) (simp_all add: value_bufsz_def)
    also have "\<dots> = ram_write m tag (tag_image req)"
      using ram_write_append [of ?hdr "req_args req @ replicate (?b - length (req_args req)) 0" m tag] bb(1)
      by (simp add: tag_image_def value_bufsz_def)
    finally show ?thesis by (cases "req_args req = []") simp_all
  qed
  have "unat (tag + of_nat (12 + ?b)) mod 4 = 0"
    using assms(2) bb(2) unat_add_of_nat_mod [of 4 tag "12 + ?b"] by (simp add: mod_add_eq [symmetric])
  then have e: "align_address (tag + 12 + of_nat ?b) 4 = tag + of_nat (12 + ?b)"
    unfolding align_address_4_16 by (simp add: align_dist_0 add.assoc)
  have s: "sint (of_nat (12 + ?b) :: u32) = int (12 + ?b)"
    using bb(1) by (intro sint_of_nat_lt) simp
  show ?thesis
    unfolding build_tag_def Let_def b tag_offs of_int_of_nat_eq 1 2 3 e
    using s by simp
qed

lemma build_tags_image:
  assumes "\<forall>req \<in> set reqs. word_sized req" and "unat tag mod 4 = 0"
    and "length (concat (map tag_image reqs)) < 2 ^ 30"
  shows "build_tags reqs tag m =
    (tag + of_nat (length (concat (map tag_image reqs))), ram_write m tag (concat (map tag_image reqs)))"
  using assms
proof (induction reqs arbitrary: tag m)
  case (Cons req reqs)
  let ?t = "tag + of_nat (length (tag_image req))"
  have "(12 + value_bufsz req) mod 4 = 0" using Cons.prems(1) by (simp add: word_sized_def mod_add_eq [symmetric])
  then have al: "unat ?t mod 4 = 0"
    using Cons.prems(2) unat_add_of_nat_mod [of 4 tag "length (tag_image req)"]
    by (simp add: length_tag_image mod_add_eq [symmetric])
  have "build_tags (req # reqs) tag m = build_tags reqs ?t (ram_write m tag (tag_image req))"
    using build_tag_image [of req tag m] Cons.prems(1,2) by (simp add: length_tag_image)
  also have "\<dots> = (?t + of_nat (length (concat (map tag_image reqs))),
      ram_write (ram_write m tag (tag_image req)) ?t (concat (map tag_image reqs)))"
    using Cons.prems al by (intro Cons.IH) simp_all
  also have "\<dots> = (tag + of_nat (length (concat (map tag_image (req # reqs)))),
      ram_write m tag (concat (map tag_image (req # reqs))))"
    using Cons.prems(3) by (subst ram_write_append) (simp_all add: add.assoc)
  finally show ?case .
qed simp

lemma build_property_buffer_image:
  assumes "\<forall>req \<in> set reqs. word_sized req" and "length (concat (map tag_image reqs)) < 2 ^ 30"
  defines "body \<equiv> bytes32 0 @ concat (map tag_image reqs) @ bytes32 0"
  shows "build_property_buffer reqs m =
    (HEAP_RAM_ADDR, ram_write m HEAP_RAM_ADDR (bytes32 (of_nat (16 * ((4 + length body + 15) div 16))) @ body))"
proof -
  let ?H = "HEAP_RAM_ADDR" and ?T = "concat (map tag_image reqs)"
  have h: "align_address heap_get_base_address 16 = ?H"
    unfolding align_address_4_16 by (simp add: align_dist_def addrmap_defs)
  have t: "build_tags reqs (?H + 8) (ram_set32 m (?H + 4) 0) =
      (?H + 8 + of_nat (length ?T), ram_write m (?H + 4) (bytes32 0 @ ?T))"
  proof -
    have "unat (?H + 8) mod 4 = 0" by (simp add: HEAP_RAM_ADDR_def)
    from build_tags_image [OF assms(1) this assms(2)] have
      "build_tags reqs (?H + 8) (ram_set32 m (?H + 4) 0) =
        (?H + 8 + of_nat (length ?T), ram_write (ram_write m (?H + 4) (bytes32 0)) (?H + 8) ?T)"
      by (simp add: ram_set32_write)
    also have "ram_write (ram_write m (?H + 4) (bytes32 0)) (?H + 8) ?T = ram_write m (?H + 4) (bytes32 0 @ ?T)"
      using ram_write_append [of "bytes32 0" ?T m "?H + 4"] assms(2) by (simp add: add.assoc)
    finally show ?thesis .
  qed
  have e: "ram_set32 (ram_write m (?H + 4) (bytes32 0 @ ?T)) (?H + 8 + of_nat (length ?T)) 0 = ram_write m (?H + 4) body"
    using ram_set32_append [of "bytes32 0 @ ?T" m "?H + 4" 0] assms(2) by (simp add: body_def add.assoc)
  let ?E = "?H + 8 + of_nat (length ?T) + 4"
  have E: "?E = ?H + of_nat (4 + length body)" by (simp add: body_def)
  have al: "align_address ?E 16 - ?H = of_nat (16 * ((4 + length body + 15) div 16))"
  proof -
    have "unat ?E mod 16 = (4 + length body) mod 16"
    proof -
      have h16: "unat ?H = 16 * 16777216" by (simp add: HEAP_RAM_ADDR_def)
      show ?thesis unfolding E
        by (subst unat_add_of_nat_mod) (simp, simp only: h16 mod_mult_self4)
    qed
    then have "align_address ?E 16 - ?H = of_nat (4 + length body) + of_nat ((16 - (4 + length body) mod 16) mod 16)"
      unfolding align_address_4_16 align_dist_def by (simp only: E) simp
    also have "\<dots> = of_nat (4 + length body + (16 - (4 + length body) mod 16) mod 16)" by simp
    also have "4 + length body + (16 - (4 + length body) mod 16) mod 16 = 16 * ((4 + length body + 15) div 16)"
      by (rule round_up_16)
    finally show ?thesis .
  qed
  have f: "ram_set32 (ram_write m (?H + 4) body) ?H w = ram_write m ?H (bytes32 w @ body)" for w
    using ram_write_prepend [of "bytes32 w" body m ?H] assms(2) by (simp add: ram_set32_write body_def)
  show ?thesis
    unfolding build_property_buffer_def Let_def h tag_offs t prod.case e al f ..
qed

section \<open>Waiting for the mailbox\<close>

interpretation mbox1_wait: polled_condition
  "mbox1_status_full_flag_set hw" hw "get_peripheral_reg_addr vcmailbox_access MBOX1_STATUS"
  "\<lambda>v. v AND MBOX1_STATUS_FULL \<noteq> 0" for hw :: "'d hw"
  by unfold_locales (simp add: mbox1_status_full_flag_set_def run_simps)

interpretation mbox0_wait: polled_condition
  "mbox0_status_empty_flag_set hw" hw "get_peripheral_reg_addr vcmailbox_access MBOX0_STATUS"
  "\<lambda>v. v AND MBOX0_STATUS_EMPTY \<noteq> 0" for hw :: "'d hw"
  by unfold_locales (simp add: mbox0_status_empty_flag_set_def run_simps)

context access_relation
begin

lemma mailbox_not_A: "get_peripheral_reg_addr vcmailbox_access r \<notin> A"
  by (rule not_sd) (cases r; simp add: sd_page_def get_peripheral_reg_addr_def vcmailbox_access_def
      ARM_LO_MAIN_PERIPH_BASE_ADDR_def)

lemma guar_mailbox_wait:
  "guar R (while_cond_timeout_infinite hw (mbox1_status_full_flag_set hw) ms)"
  "guar R (while_cond_timeout_infinite hw (mbox0_status_empty_flag_set hw) ms)"
  unfolding mbox1_status_full_flag_set_def mbox0_status_empty_flag_set_def
  by (intro guar_while_cond guar_rules guar_access mailbox_not_A)+

lemma guar_return_tags: "guar R (return_tags hw tag reqs i n rets)"
proof (induction reqs arbitrary: tag i rets)
  case (Cons req reqs)
  then show ?case unfolding return_tags.simps Let_def
    by (intro guar_rules guar_serial_log)
qed (unfold return_tags.simps, intro guar_rules guar_serial_log)

lemma guar_check_response: "guar R (check_response hw reqs prop msg)"
  unfolding check_response_def return_tag_responses_def Let_def
  by (intro guar_rules guar_serial_log guar_return_tags)

end

text \<open>
  Relations that say nothing about RAM: every mailbox operation respects them, whatever the
  VideoCore writes.
\<close>

locale ram_free_relation = access_relation R hw A
  for R :: "'d machine \<Rightarrow> 'd machine \<Rightarrow> bool" and hw :: "'d hw" and A :: "addr set" +
  assumes R_ram: "R s (s\<lparr>ram := m\<rparr>)"
begin

lemma guar_modify_ram: "guar R (modify (\<lambda>s. s\<lparr>ram := f s\<rparr>))"
  by (rule guar_modify) (rule R_ram)

lemma guar_vcmailbox_request_tags: "guar R (vcmailbox_request_tags hw reqs)"
  unfolding vcmailbox_request_tags_def vcmailbox_write_message_def vcmailbox_read_message_def case_prod_beta
  by (intro guar_rules guar_access mailbox_not_A guar_modify_ram guar_mailbox_wait guar_check_response)

end

interpretation same_card: ram_free_relation same_card hw "{}" for hw :: "'d hw"
  by unfold_locales (simp add: same_card_def)

interpretation untouched: ram_free_relation "untouched (A \<inter> sd_page)" hw "A \<inter> sd_page" for hw :: "'d hw" and A
  by unfold_locales (simp add: untouched_def)

section \<open>Requests\<close>

lemma property_buffer_at_heap: "fst (build_property_buffer reqs m) = HEAP_RAM_ADDR"
proof -
  have "align_address heap_get_base_address 16 = HEAP_RAM_ADDR"
    unfolding align_address_4_16 by (simp add: align_dist_def addrmap_defs)
  then show ?thesis by (simp add: build_property_buffer_def Let_def split: prod.split)
qed

text \<open>The exchange of messages that every request begins with.\<close>

definition exchange :: "'d hw \<Rightarrow> tag_request list \<Rightarrow> ('d, u32) io" where
  "exchange hw reqs =
     bnd (modify (\<lambda>s. s\<lparr>ram := snd (build_property_buffer reqs (ram s))\<rparr>)) (\<lambda>_.
     bnd (vcmailbox_write_message hw HEAP_RAM_ADDR CHANNEL_PROPERTY) (\<lambda>_.
     vcmailbox_read_message hw))"

lemma channel_test: "(v :: u32) AND (if CHANNEL_BITS \<noteq> CHANNEL_PROPERTY then 1 else 0) \<noteq> 0 \<longleftrightarrow> bit v 0"
proof -
  have "\<not> bit CHANNEL_BITS 4 \<and> bit CHANNEL_BITS 0" by (simp add: CHANNEL_BITS_def bit_BITS)
  moreover have "\<not> bit CHANNEL_PROPERTY 0" by (simp add: CHANNEL_PROPERTY_def bit_0)
  ultimately have "CHANNEL_BITS \<noteq> CHANNEL_PROPERTY" by metis
  then show ?thesis using and_BIT_eq_0 [of v 0] by (simp add: BIT_def)
qed

lemma request_tags_exchange:
  "vcmailbox_request_tags hw reqs = bnd (exchange hw reqs) (check_response hw reqs HEAP_RAM_ADDR)"
  for hw :: "'d hw"
proof
  fix s :: "'d machine"
  have b: "build_property_buffer reqs (ram s) = (HEAP_RAM_ADDR, snd (build_property_buffer reqs (ram s)))"
    using property_buffer_at_heap [of reqs "ram s"] by (metis prod.collapse)
  show "vcmailbox_request_tags hw reqs s = bnd (exchange hw reqs) (check_response hw reqs HEAP_RAM_ADDR) s"
    unfolding vcmailbox_request_tags_def exchange_def bnd_assoc
    by (subst bnd_prim_run(2)) (subst b, simp only: prod.case bnd_prim_run(3))
qed

lemma return_tag_responses_none:
  "return_tag_responses hw prop reqs s = (Ret (VCMBOX_ERROR_NONE, vs), t) \<longleftrightarrow>
     t = s \<and> answered (ram s) (prop + 8) reqs vs"
  using return_tags_none [of hw "prop + 8" reqs 0 "[]" s vs t]
  by (simp add: return_tag_responses_def tag_offs)

lemma check_response_none:
  "check_response hw reqs prop msg u = (Ret (VCMBOX_ERROR_NONE, vs), t) \<longleftrightarrow>
    \<not> bit msg 0 \<and> msg AND NOT CHANNEL_BITS = prop \<and>
    bit (ram_get32 (ram u) (prop + 4)) 31 \<and> \<not> bit (ram_get32 (ram u) (prop + 4)) 0 \<and>
    t = u \<and> answered (ram u) (prop + 8) reqs vs"
proof -
  have log: "bnd m (\<lambda>_. ret (e, x)) u = (Ret (VCMBOX_ERROR_NONE, vs), t) \<longleftrightarrow> False"
    if "e \<noteq> VCMBOX_ERROR_NONE" for m :: "('a, unit) io" and e x
    using that by (auto simp: bnd_Ret_iff run_simps)
  show ?thesis
    unfolding check_response_def channel_test Let_def
    by (auto simp: run_simps log PROP_RESPONSE_CODE_RESPONSE_def PROP_RESPONSE_CODE_ERROR_def
        and_BIT_eq_0 tag_offs return_tag_responses_none)
qed

text \<open>
  C12. The property buffer in RAM: for requests whose buffers are whole words, building it
  writes, at the heap and nowhere else, its size rounded up to 16 bytes, a zero request code,
  one tag per request with its identifier, buffer size, zero code, arguments and zero
  padding, and the end marker.
\<close>

theorem property_buffer_layout:
  assumes "\<forall>req \<in> set reqs. word_sized req" and "length (concat (map tag_image reqs)) < 2 ^ 30"
  shows "build_property_buffer reqs m =
    (HEAP_RAM_ADDR, ram_write m HEAP_RAM_ADDR
       (bytes32 (of_nat (16 * ((12 + length (concat (map tag_image reqs)) + 15) div 16))) @
        bytes32 0 @ concat (map tag_image reqs) @ bytes32 0))"
proof -
  have "4 + length (bytes32 0 @ concat (map tag_image reqs) @ bytes32 0) =
      12 + length (concat (map tag_image reqs))" by simp
  with build_property_buffer_image [OF assms] show ?thesis by (simp only:)
qed

theorem property_buffer_layout_witness:
  "build_property_buffer [\<lparr>req_id = TAG_CLOCK_GET_RATE, req_args = [12, 0, 0, 0], req_ret = replicate 8 0\<rparr>] (\<lambda>_. 0) =
     (HEAP_RAM_ADDR, ram_write (\<lambda>_. 0) HEAP_RAM_ADDR
       (bytes32 32 @ bytes32 0 @ (bytes32 0x30002 @ bytes32 8 @ bytes32 0 @ [12, 0, 0, 0] @ replicate 4 0) @ bytes32 0))"
  using property_buffer_layout
    [of "[\<lparr>req_id = TAG_CLOCK_GET_RATE, req_args = [12, 0, 0, 0], req_ret = replicate 8 0\<rparr>]" "\<lambda>_. 0"]
  by (simp add: word_sized_def value_bufsz_def tag_image_def)

text \<open>
  C10. A request succeeds exactly when the message that comes back carries the address of
  the buffer and an even channel number (the code tests bit 0 only, so the answers of
  channels 0, 2, 4 and so on pass like those of the property channel), the buffer has its
  response bit set and its error bit clear, and its tags answer the requests one by one, with
  the response bit, the expected sizes and the end marker; the values returned are those of
  the tags.
\<close>

theorem request_tags_ok:
  "vcmailbox_request_tags hw reqs s = (Ret (VCMBOX_ERROR_NONE, vs), t) \<longleftrightarrow>
    (\<exists>msg. exchange hw reqs s = (Ret msg, t) \<and> \<not> bit msg 0 \<and> msg AND NOT CHANNEL_BITS = HEAP_RAM_ADDR \<and>
      bit (ram_get32 (ram t) (HEAP_RAM_ADDR + 4)) 31 \<and> \<not> bit (ram_get32 (ram t) (HEAP_RAM_ADDR + 4)) 0 \<and>
      answered (ram t) (HEAP_RAM_ADDR + 8) reqs vs)"
  unfolding request_tags_exchange bnd_Ret_iff check_response_none by blast

end
