(* ===== verification/Tag.thy ===== *)
theory Tag
  imports Vcmailbox
begin

unbundle bit_operations_syntax

text \<open>
  \<^verbatim>\<open>src/bld/tag.c\<close>: the properties the bootloader asks the VideoCore for. The local struct
  \<^verbatim>\<open>ret\<close> of each function is uninitialised before the request; after a failed request its
  old contents are printed.
\<close>

section \<open>Data\<close>

definition PWR_DEV_SD :: u32 where "PWR_DEV_SD = 0x0"
definition CLK_CORE :: u32 where "CLK_CORE = 0x4"
definition CLK_EMMC2 :: u32 where "CLK_EMMC2 = 0xc"

datatype gpio_expander_pin =
    GPIO_EXPANDER_BT_ON | GPIO_EXPANDER_WL_ON | GPIO_EXPANDER_PWR_LED | GPIO_EXPANDER_GLOBAL_RESET
  | GPIO_EXPANDER_VDD_SD_IO_SEL | GPIO_EXPANDER_CAM | GPIO_EXPANDER_SD_PWR_ON

fun gpio_expander_pin_value :: "gpio_expander_pin \<Rightarrow> u32" where
  "gpio_expander_pin_value GPIO_EXPANDER_BT_ON = 0"
| "gpio_expander_pin_value GPIO_EXPANDER_WL_ON = 1"
| "gpio_expander_pin_value GPIO_EXPANDER_PWR_LED = 2"
| "gpio_expander_pin_value GPIO_EXPANDER_GLOBAL_RESET = 3"
| "gpio_expander_pin_value GPIO_EXPANDER_VDD_SD_IO_SEL = 4"
| "gpio_expander_pin_value GPIO_EXPANDER_CAM = 5"
| "gpio_expander_pin_value GPIO_EXPANDER_SD_PWR_ON = 6"

text \<open>\<^verbatim>\<open>struct power_state\<close> and \<^verbatim>\<open>struct clock_state\<close>: bits 0 and 1 of a word.\<close>

record power_state =
  pwr_on :: bool
  dev_not_exists :: bool

definition power_state_of :: "u32 \<Rightarrow> power_state" where
  "power_state_of w = \<lparr>pwr_on = (getfld 0 1 w \<noteq> 0), dev_not_exists = (getfld 1 1 w \<noteq> 0)\<rparr>"

record clock_state =
  clk_on :: bool
  clk_not_exists :: bool

definition clock_state_of :: "u32 \<Rightarrow> clock_state" where
  "clock_state_of w = \<lparr>clk_on = (getfld 0 1 w \<noteq> 0), clk_not_exists = (getfld 1 1 w \<noteq> 0)\<rparr>"

record gpio_expander_pin_config =
  cfg_unused :: u32
  direction :: u32
  polarity :: u32
  term_en :: u32
  term_pull_up :: u32

text \<open>The \<open>k\<close>-th word of a struct of words.\<close>

definition word_at :: "u8 list \<Rightarrow> nat \<Rightarrow> u32" where
  "word_at bs k = le32 (bs ! (4 * k)) (bs ! (4 * k + 1)) (bs ! (4 * k + 2)) (bs ! (4 * k + 3))"

text \<open>One request for a tag with a one-word argument and a return struct of \<open>n\<close> bytes.\<close>

definition request1 :: "'d hw \<Rightarrow> tag_id \<Rightarrow> u32 \<Rightarrow> nat \<Rightarrow> ('d, vcmailbox_error \<times> u8 list) io" where
  "request1 hw tid arg n =
     bnd (vcmailbox_request_tags hw
            [\<lparr>req_id = tid, req_args = bytes32 arg, req_ret = map (uninit hw) [0..<n]\<rparr>]) (\<lambda>(error, rets).
     ret (error, hd rets))"

section \<open>Requests\<close>

definition tag_power_get_state :: "'d hw \<Rightarrow> u32 \<Rightarrow> ('d, power_state) io" where
  "tag_power_get_state hw dev_id =
     bnd (request1 hw TAG_POWER_GET_STATE dev_id 8) (\<lambda>(error, r).
     bnd (when_io (error \<noteq> VCMBOX_ERROR_NONE \<or> word_at r 0 \<noteq> dev_id)
            (bnd (serial_log hw ''Vcmailbox error: power get state: %08x %08x'' [VaU dev_id, VaU (word_at r 0)]) (\<lambda>_.
             signal_error hw ERROR_VCMAILBOX))) (\<lambda>_.
     ret (power_state_of (word_at r 1))))"

definition tag_clock_get_state :: "'d hw \<Rightarrow> u32 \<Rightarrow> ('d, clock_state) io" where
  "tag_clock_get_state hw clk_id =
     bnd (request1 hw TAG_CLOCK_GET_STATE clk_id 8) (\<lambda>(error, r).
     bnd (when_io (error \<noteq> VCMBOX_ERROR_NONE \<or> word_at r 0 \<noteq> clk_id)
            (bnd (serial_log hw ''Vcmailbox error: clock get state: %08x %08x'' [VaU clk_id, VaU (word_at r 0)]) (\<lambda>_.
             signal_error hw ERROR_VCMAILBOX))) (\<lambda>_.
     ret (clock_state_of (word_at r 1))))"

definition tag_clock_get_rate :: "'d hw \<Rightarrow> u32 \<Rightarrow> ('d, u32) io" where
  "tag_clock_get_rate hw clk_id =
     bnd (request1 hw TAG_CLOCK_GET_RATE clk_id 8) (\<lambda>(error, r).
     bnd (when_io (error \<noteq> VCMBOX_ERROR_NONE \<or> word_at r 0 \<noteq> clk_id)
            (bnd (serial_log hw ''Vcmailbox error: clock get rate: %08x %08x'' [VaU clk_id, VaU (word_at r 0)]) (\<lambda>_.
             signal_error hw ERROR_VCMAILBOX))) (\<lambda>_.
     ret (word_at r 1)))"

definition GPIO_EXPANDER_VC_PIN_BASE :: u32 where "GPIO_EXPANDER_VC_PIN_BASE = 128"

definition convert_pin_to_vc :: "gpio_expander_pin \<Rightarrow> u32" where
  "convert_pin_to_vc pin = GPIO_EXPANDER_VC_PIN_BASE + gpio_expander_pin_value pin"

definition tag_gpio_get_state :: "'d hw \<Rightarrow> gpio_expander_pin \<Rightarrow> ('d, u32) io" where
  "tag_gpio_get_state hw pin =
     bnd (request1 hw TAG_GPIO_GET_STATE (convert_pin_to_vc pin) 8) (\<lambda>(error, r).
     bnd (when_io (error \<noteq> VCMBOX_ERROR_NONE \<or> word_at r 0 \<noteq> 0)
            (bnd (serial_log hw ''Vcmailbox error: gpio get state: %08x'' [VaU (word_at r 0)]) (\<lambda>_.
             signal_error hw ERROR_VCMAILBOX))) (\<lambda>_.
     ret (word_at r 1)))"

definition tag_gpio_get_config :: "'d hw \<Rightarrow> gpio_expander_pin \<Rightarrow> ('d, gpio_expander_pin_config) io" where
  "tag_gpio_get_config hw pin =
     bnd (request1 hw TAG_GPIO_GET_CONFIG (convert_pin_to_vc pin) 20) (\<lambda>(error, r).
     bnd (when_io (error \<noteq> VCMBOX_ERROR_NONE \<or> word_at r 0 \<noteq> 0)
            (bnd (serial_log hw ''Vcmailbox error: gpio get config: %08x'' [VaU (word_at r 0)]) (\<lambda>_.
             signal_error hw ERROR_VCMAILBOX))) (\<lambda>_.
     ret \<lparr>cfg_unused = word_at r 0, direction = word_at r 1, polarity = word_at r 2,
          term_en = word_at r 3, term_pull_up = word_at r 4\<rparr>))"

definition gpio_config_pin_is_output :: "gpio_expander_pin_config \<Rightarrow> bool" where
  "gpio_config_pin_is_output cfg \<longleftrightarrow> direction cfg \<noteq> 0"

definition gpio_config_pin_is_active_high :: "gpio_expander_pin_config \<Rightarrow> bool" where
  "gpio_config_pin_is_active_high cfg \<longleftrightarrow> \<not> (polarity cfg \<noteq> 0)"

section \<open>Frame\<close>

context ram_free_relation
begin

lemma guar_request1: "guar R (request1 hw tid arg n)"
  unfolding request1_def case_prod_beta by (intro guar_rules guar_vcmailbox_request_tags)

end

text \<open>Relations that requests respect when their return struct is made of words.\<close>

locale mailbox_relation = access_relation R hw A
  for R :: "'d machine \<Rightarrow> 'd machine \<Rightarrow> bool" and hw :: "'d hw" and A :: "addr set" +
  assumes guar_request: "n mod 4 = 0 \<Longrightarrow> n < 2 ^ 16 \<Longrightarrow> guar R (request1 hw tid arg n)"
begin

lemma guar_tags:
  "guar R (tag_power_get_state hw dev_id)" "guar R (tag_clock_get_state hw clk_id)"
  "guar R (tag_clock_get_rate hw clk_id)" "guar R (tag_gpio_get_state hw pin)"
  "guar R (tag_gpio_get_config hw pin)"
  unfolding tag_power_get_state_def tag_clock_get_state_def tag_clock_get_rate_def
    tag_gpio_get_state_def tag_gpio_get_config_def case_prod_beta
  by (intro guar_rules guar_request guar_serial_log guar_signals; simp)+

end

sublocale ram_free_relation \<subseteq> mailbox_relation R hw A
  by unfold_locales (rule guar_request1)

context ram_free_relation
begin

lemma mailbox_relation: "mailbox_relation R hw A"
  by unfold_locales

end

interpretation same_card: mailbox_relation same_card hw "{}" for hw :: "'d hw"
  by unfold_locales

end
