(* ===== verification/Sd.thy ===== *)
theory Sd
  imports Sd_Cmd Tag
begin

unbundle bit_operations_syntax

text \<open>
  \<^verbatim>\<open>src/bld/sd/sd.c\<close>: initialisation of the host controller and the card, block reads and
  reset. The functions that take a pointer to a \<^verbatim>\<open>struct card\<close> are only ever given the static
  \<^verbatim>\<open>card\<close>, which is the field \<open>sdcard\<close> of the machine.
\<close>

section \<open>What the VideoCore must have set up\<close>

definition EMMC2_EXPECTED_BASE_CLOCK_HZ :: int where "EMMC2_EXPECTED_BASE_CLOCK_HZ = 100000000"
definition IDENTIFICATION_CLOCK_RATE_HZ :: int where "IDENTIFICATION_CLOCK_RATE_HZ = 400000"
definition DEFAULT_SPEED_CLOCK_RATE_HZ :: int where "DEFAULT_SPEED_CLOCK_RATE_HZ = 25000000"

definition sd_assert_base_clock :: "'d hw \<Rightarrow> ('d, unit) io" where
  "sd_assert_base_clock hw =
     bnd (tag_clock_get_state hw CLK_EMMC2) (\<lambda>state.
     bnd (when_io (clk_not_exists state \<or> \<not> clk_on state)
            (bnd (serial_log hw ''SD init error: EMMC2 clock either doesn't exist or isn't on'' []) (\<lambda>_.
             signal_error hw ERROR_VC_NOT_INIT_MMC))) (\<lambda>_.
     bnd (tag_clock_get_rate hw CLK_EMMC2) (\<lambda>rate.
     when_io (sint rate \<noteq> EMMC2_EXPECTED_BASE_CLOCK_HZ)
       (bnd (serial_log hw ''SD init error: EMMC2 clock rate %u Hz doesn't match expected clock rate %u Hz''
               [VaU rate, VaU (of_int EMMC2_EXPECTED_BASE_CLOCK_HZ)]) (\<lambda>_.
        signal_error hw ERROR_VC_NOT_INIT_MMC)))))"

definition sd_assert_voltage :: "'d hw \<Rightarrow> ('d, unit) io" where
  "sd_assert_voltage hw =
     bnd (tag_gpio_get_config hw GPIO_EXPANDER_VDD_SD_IO_SEL) (\<lambda>cfg.
     bnd (when_io (\<not> gpio_config_pin_is_output cfg \<or> \<not> gpio_config_pin_is_active_high cfg)
            (bnd (serial_log hw ''SD init error: expected GPIO expander pin SD voltage select to be both an output and active high'' []) (\<lambda>_.
             signal_error hw ERROR_VC_NOT_INIT_MMC))) (\<lambda>_.
     bnd (tag_gpio_get_state hw GPIO_EXPANDER_VDD_SD_IO_SEL) (\<lambda>state.
     when_io (state \<noteq> 0)
       (bnd (serial_log hw ''SD init error: GPIO expander pin SD voltage select has 1.8V selected, but expected 3.3V'' []) (\<lambda>_.
        signal_error hw ERROR_VC_NOT_INIT_MMC)))))"

definition sd_assert_card_power :: "'d hw \<Rightarrow> ('d, unit) io" where
  "sd_assert_card_power hw =
     bnd (tag_gpio_get_config hw GPIO_EXPANDER_SD_PWR_ON) (\<lambda>cfg.
     bnd (when_io (\<not> gpio_config_pin_is_output cfg \<or> \<not> gpio_config_pin_is_active_high cfg)
            (bnd (serial_log hw ''SD init error: expected GPIO expander pin SD card power to be both an output and active high'' []) (\<lambda>_.
             signal_error hw ERROR_VC_NOT_INIT_MMC))) (\<lambda>_.
     bnd (tag_gpio_get_state hw GPIO_EXPANDER_SD_PWR_ON) (\<lambda>state.
     when_io (\<not> (state \<noteq> 0))
       (bnd (serial_log hw ''SD init error: GPIO expander pin SD card power not selected to supply power'' []) (\<lambda>_.
        signal_error hw ERROR_VC_NOT_INIT_MMC)))))"

definition sd_assert_vc_init :: "'d hw \<Rightarrow> ('d, unit) io" where
  "sd_assert_vc_init hw =
     bnd (sd_assert_base_clock hw) (\<lambda>_.
     bnd (sd_assert_voltage hw) (\<lambda>_.
     sd_assert_card_power hw))"

section \<open>Host controller\<close>

definition sd_sw_reset_hc_bit_set :: "'d hw \<Rightarrow> ('d, bool) io" where
  "sd_sw_reset_hc_bit_set hw =
     bnd (register_get hw sd_access CONTROL1) (\<lambda>v. ret (v AND CONTROL1_SW_RESET_HC \<noteq> 0))"

definition sd_reset_host :: "'d hw \<Rightarrow> ('d, unit) io" where
  "sd_reset_host hw =
     bnd (register_enable_bits hw sd_access CONTROL1 CONTROL1_SW_RESET_HC) (\<lambda>_.
     while_cond_timeout_infinite hw (sd_sw_reset_hc_bit_set hw) 20)"

definition sd_supply_bus_power :: "'d hw \<Rightarrow> ('d, unit) io" where
  "sd_supply_bus_power hw =
     (let pwr_ctl_bits = PWR_CTL_SD_BUS_VOLT_SEL_3V3 OR PWR_CTL_SD_BUS_POWER
      in register_enable_bits hw sd_access CONTROL0 (push_bit CONTROL0_PWR_CTL_SHIFT pwr_ctl_bits))"

text \<open>
  The divisor is an \<^verbatim>\<open>int\<close> that starts at 1 and is doubled; doubling \<open>2 ^ 30\<close> would overflow
  it, so \<open>k\<close> of 31 tests are all it can pass, and beyond them the result is undefined.
\<close>

primrec divisor_loop :: "nat \<Rightarrow> int \<Rightarrow> int \<Rightarrow> int \<Rightarrow> int option" where
  "divisor_loop 0 base_rate target_rate divisor = None"
| "divisor_loop (Suc k) base_rate target_rate divisor =
     (if target_rate < c_div base_rate divisor then divisor_loop k base_rate target_rate (divisor * 2)
      else Some divisor)"

definition sd_8bit_clock_divider :: "int \<Rightarrow> int \<Rightarrow> int option" where
  "sd_8bit_clock_divider base_rate target_rate =
     (case divisor_loop 31 base_rate target_rate 1 of
        None \<Rightarrow> None | Some divisor \<Rightarrow> Some (divisor div 2))"

definition sd_internal_clock_not_stable :: "'d hw \<Rightarrow> ('d, bool) io" where
  "sd_internal_clock_not_stable hw =
     bnd (register_get hw sd_access CONTROL1) (\<lambda>v. ret (\<not> (v AND CONTROL1_INT_CLK_STABLE \<noteq> 0)))"

definition sd_supply_clock :: "'d hw \<Rightarrow> int \<Rightarrow> ('d, unit) io" where
  "sd_supply_clock hw clock_rate =
     (case sd_8bit_clock_divider EMMC2_EXPECTED_BASE_CLOCK_HZ clock_rate of
        None \<Rightarrow> stop Undef
      | Some clock_divider \<Rightarrow>
          bnd (register_disable_bits hw sd_access CONTROL1 (CONTROL1_CLK_EN OR CONTROL1_INT_CLK_EN)) (\<lambda>_.
          bnd (register_disable_bits hw sd_access CONTROL1 CONTROL1_CLK_FREQ_SEL) (\<lambda>_.
          bnd (register_enable_bits hw sd_access CONTROL1
                 (push_bit CONTROL1_CLK_FREQ_SEL_SHIFT (of_int clock_divider) OR CONTROL1_INT_CLK_EN)) (\<lambda>_.
          bnd (while_cond_timeout_infinite hw (sd_internal_clock_not_stable hw) 20) (\<lambda>_.
          register_enable_bits hw sd_access CONTROL1 CONTROL1_CLK_EN)))))"

definition sd_enable_interrupts :: "'d hw \<Rightarrow> interrupt \<Rightarrow> ('d, unit) io" where
  "sd_enable_interrupts hw irpt = register_enable_bits hw sd_access IRPT_MASK (cast_interrupt irpt)"

definition sd_enable_cmd_interrupts :: "'d hw \<Rightarrow> ('d, unit) io" where
  "sd_enable_cmd_interrupts hw =
     sd_enable_interrupts hw ((interrupt_of 0)
       \<lparr>irq_cmd_complete := 1, irq_cmd_timeout_error := 1, irq_cmd_crc_error := 1,
        irq_cmd_end_bit_error := 1, irq_cmd_index_error := 1\<rparr>)"

definition sd_enable_transfer_interrupts :: "'d hw \<Rightarrow> ('d, unit) io" where
  "sd_enable_transfer_interrupts hw =
     sd_enable_interrupts hw ((interrupt_of 0)
       \<lparr>irq_read_ready := 1, irq_transfer_complete := 1, irq_data_timeout_error := 1,
        irq_data_crc_error := 1, irq_data_end_bit_error := 1\<rparr>)"

definition sd_pre_cmd_init :: "'d hw \<Rightarrow> ('d, unit) io" where
  "sd_pre_cmd_init hw =
     bnd (sd_assert_vc_init hw) (\<lambda>_.
     bnd (sd_reset_host hw) (\<lambda>_.
     bnd (sd_supply_bus_power hw) (\<lambda>_.
     bnd (sd_supply_clock hw IDENTIFICATION_CLOCK_RATE_HZ) (\<lambda>_.
     sd_enable_cmd_interrupts hw))))"

section \<open>Card initialisation\<close>

datatype sd_init_error = SD_INIT_ERROR_NONE | SD_INIT_ERROR_ISSUE_CMD | SD_INIT_ERROR_UNUSABLE_CARD

definition set_card :: "(card \<Rightarrow> card) \<Rightarrow> ('d, unit) io" where
  "set_card f = modify (\<lambda>s. s\<lparr>sdcard := f (sdcard s)\<rparr>)"

definition sd_card_init_and_identify :: "'d hw \<Rightarrow> ('d, sd_init_error) io" where
  "sd_card_init_and_identify hw =
     bnd (set_card (\<lambda>c. c\<lparr>cstate := CARD_STATE_IDLE\<rparr>)) (\<lambda>_.
     bnd (sd_issue_cmd hw CMD_IDX_GO_IDLE_STATE 0) (\<lambda>error.
     if error \<noteq> CMD_ERROR_NONE then ret SD_INIT_ERROR_ISSUE_CMD else
     bnd (sd_issue_cmd8 hw) (\<lambda>error.
     if error = CMD_ERROR_RESPONSE_CONTENTS then ret SD_INIT_ERROR_UNUSABLE_CARD else
     if error \<noteq> CMD_ERROR_NONE then ret SD_INIT_ERROR_ISSUE_CMD else
     bnd (sd_issue_acmd41 hw) (\<lambda>(error, ccs).
     if error = CMD_ERROR_RESPONSE_CONTENTS then ret SD_INIT_ERROR_UNUSABLE_CARD else
     case ccs of
       None \<Rightarrow> ret SD_INIT_ERROR_ISSUE_CMD
     | Some ccs \<Rightarrow>
     if error \<noteq> CMD_ERROR_NONE then ret SD_INIT_ERROR_ISSUE_CMD else
     bnd (set_card (\<lambda>c. c\<lparr>sdhc_or_sdxc := ccs\<rparr>)) (\<lambda>_.
     bnd (set_card (\<lambda>c. c\<lparr>cstate := CARD_STATE_READY\<rparr>)) (\<lambda>_.
     bnd (sd_issue_cmd hw CMD_IDX_ALL_SEND_CID 0) (\<lambda>error.
     if error \<noteq> CMD_ERROR_NONE then ret SD_INIT_ERROR_ISSUE_CMD else
     bnd (set_card (\<lambda>c. c\<lparr>cstate := CARD_STATE_IDENTIFICATION\<rparr>)) (\<lambda>_.
     bnd (sd_issue_cmd3 hw) (\<lambda>(error, rca_out).
     bnd (case rca_out of None \<Rightarrow> ret () | Some r \<Rightarrow> set_card (\<lambda>c. c\<lparr>card_rca := r\<rparr>)) (\<lambda>_.
     if error \<noteq> CMD_ERROR_NONE then ret SD_INIT_ERROR_ISSUE_CMD else
     bnd (set_card (\<lambda>c. c\<lparr>cstate := CARD_STATE_STANDBY\<rparr>)) (\<lambda>_.
     ret SD_INIT_ERROR_NONE)))))))))))"

definition sd_set_4bit_data_bus_width :: "'d hw \<Rightarrow> u32 \<Rightarrow> ('d, sd_init_error) io" where
  "sd_set_4bit_data_bus_width hw rca =
     bnd (register_get hw sd_access IRPT_MASK) (\<lambda>prev_irpt_mask.
     bnd (register_disable_bits hw sd_access IRPT_MASK
            (cast_interrupt ((interrupt_of 0)\<lparr>irq_card := 1\<rparr>))) (\<lambda>_.
     bnd (sd_issue_acmd6 hw rca True) (\<lambda>error.
     bnd (when_io (error = CMD_ERROR_NONE)
            (register_enable_bits hw sd_access CONTROL0 CONTROL0_DATA_TRANSFER_WIDTH)) (\<lambda>_.
     bnd (register_set hw sd_access IRPT_MASK prev_irpt_mask) (\<lambda>_.
     ret (if error = CMD_ERROR_NONE then SD_INIT_ERROR_NONE else SD_INIT_ERROR_ISSUE_CMD))))))"

text \<open>The part of \<^verbatim>\<open>sd_init_card()\<close> after the card has been identified, lines 372 to 408.\<close>

definition sd_init_transfer :: "'d hw \<Rightarrow> ('d, sd_init_error) io" where
  "sd_init_transfer hw =
     bnd (sd_supply_clock hw DEFAULT_SPEED_CLOCK_RATE_HZ) (\<lambda>_.
     bnd (gets (\<lambda>s. card_rca (sdcard s))) (\<lambda>rca.
     bnd (sd_issue_cmd7 hw rca) (\<lambda>cmd_error.
     if cmd_error \<noteq> CMD_ERROR_NONE then ret SD_INIT_ERROR_ISSUE_CMD else
     bnd (sd_issue_cmd13 hw rca) (\<lambda>(cmd_error, cs).
     case cs of
       None \<Rightarrow> ret SD_INIT_ERROR_ISSUE_CMD
     | Some cs \<Rightarrow>
     if cmd_error \<noteq> CMD_ERROR_NONE then ret SD_INIT_ERROR_ISSUE_CMD else
     if uint (cs_current_state cs) \<noteq> card_state_value CARD_STATE_TRANSFER then
       bnd (serial_log hw ''SD init error: cmd 13 didn't put card into transfer state'' []) (\<lambda>_.
       ret SD_INIT_ERROR_ISSUE_CMD)
     else
     bnd (set_card (\<lambda>c. c\<lparr>cstate := CARD_STATE_TRANSFER\<rparr>)) (\<lambda>_.
     bnd (sd_enable_transfer_interrupts hw) (\<lambda>_.
     bnd (sd_issue_acmd51 hw rca) (\<lambda>(cmd_error, scr).
     if cmd_error \<noteq> CMD_ERROR_NONE then ret SD_INIT_ERROR_ISSUE_CMD else
     bnd (set_card (\<lambda>c. c\<lparr>cmd23_supported := (scr_cmd23 scr \<noteq> 0)\<rparr>)) (\<lambda>_.
     bnd (if scr_bus_widths scr AND SCR_BUS_WIDTHS_4BIT \<noteq> 0
          then sd_set_4bit_data_bus_width hw rca else ret SD_INIT_ERROR_NONE) (\<lambda>sd_init_error.
     if sd_init_error \<noteq> SD_INIT_ERROR_NONE then ret sd_init_error else
     bnd (gets sdcard) (\<lambda>c.
     bnd (serial_log hw ''Successfully initialised SD: %s capacity, CMD23 %s, %s-bit data bus width, 25 MHz clock, default speed bus mode''
            [VaS (if sdhc_or_sdxc c then ''SDHC/SDXC'' else ''SDSC''),
             VaS (if cmd23_supported c then ''supported'' else ''not supported''),
             VaS (if scr_bus_widths scr AND SCR_BUS_WIDTHS_4BIT \<noteq> 0 then ''4'' else ''1'')]) (\<lambda>_.
     ret SD_INIT_ERROR_NONE)))))))))))"

definition zero_card :: card where
  "zero_card = \<lparr>cstate = CARD_STATE_IDLE, sdhc_or_sdxc = False, card_rca = 0, cmd23_supported = False\<rparr>"

definition sd_init_card :: "'d hw \<Rightarrow> ('d, sd_init_error) io" where
  "sd_init_card hw =
     bnd (serial_log hw ''Initialising SD...'' []) (\<lambda>_.
     bnd (set_card (\<lambda>_. zero_card)) (\<lambda>_.
     bnd (sd_pre_cmd_init hw) (\<lambda>_.
     bnd (sd_card_init_and_identify hw) (\<lambda>sd_init_error.
     if sd_init_error \<noteq> SD_INIT_ERROR_NONE then ret sd_init_error
     else sd_init_transfer hw))))"

definition sd_init :: "'d hw \<Rightarrow> ('d, sd_init_error) io" where
  "sd_init hw = sd_init_card hw"

section \<open>Reads\<close>

text \<open>
  The fallback loop of single block transfers; it returns the error, and the destination,
  source and count with which it stopped, which the error message prints.
\<close>

primrec single_block_reads :: "'d hw \<Rightarrow> bool \<Rightarrow> addr \<Rightarrow> u32 \<Rightarrow> nat \<Rightarrow>
    ('d, cmd_error \<times> addr \<times> u32 \<times> nat) io" where
  "single_block_reads hw hc dest src 0 = ret (CMD_ERROR_NONE, dest, src, 0)"
| "single_block_reads hw hc dest src (Suc nblks) =
     bnd (sd_issue_cmd17 hw dest src) (\<lambda>error.
     if error \<noteq> CMD_ERROR_NONE then ret (error, dest, src, Suc nblks)
     else single_block_reads hw hc (dest + of_nat SD_BLKSZ) (src + (if hc then 1 else of_nat SD_BLKSZ)) nblks)"

text \<open>
  \<^verbatim>\<open>_sd_read_blocks_card()\<close>, whose choice of transfer (lines 433 to 453) is a definition of
  its own.
\<close>

definition transfer_blocks :: "'d hw \<Rightarrow> card \<Rightarrow> addr \<Rightarrow> u32 \<Rightarrow> u16 \<Rightarrow>
    ('d, cmd_error \<times> addr \<times> u32 \<times> nat) io" where
  "transfer_blocks hw c ram_dest_addr sd_src_addr nblks =
     (if nblks = 1 then
        bnd (sd_issue_cmd17 hw ram_dest_addr sd_src_addr) (\<lambda>error.
        ret (error, ram_dest_addr, sd_src_addr, unat nblks))
      else if 1 < nblks then
        (if cmd23_supported c then
           bnd (sd_issue_cmd hw CMD_IDX_SET_BLOCK_COUNT (ucast nblks)) (\<lambda>error.
           bnd (if error = CMD_ERROR_NONE
                then sd_issue_cmd18 hw ram_dest_addr sd_src_addr (unat nblks) else ret error) (\<lambda>error.
           ret (error, ram_dest_addr, sd_src_addr, unat nblks)))
         else single_block_reads hw (sdhc_or_sdxc c) ram_dest_addr sd_src_addr (unat nblks))
      else ret (CMD_ERROR_NONE, ram_dest_addr, sd_src_addr, unat nblks))"

definition sd_read_blocks_card_16 :: "'d hw \<Rightarrow> addr \<Rightarrow> u32 \<Rightarrow> u16 \<Rightarrow> ('d, bool) io" where
  "sd_read_blocks_card_16 hw ram_dest_addr sd_src_lba nblks =
     (if \<not> address_aligned ram_dest_addr 4 then
        bnd (serial_log hw ''SD read error: RAM destination address %08x not 4-byte aligned'' [VaU ram_dest_addr]) (\<lambda>_.
        ret False)
      else
      bnd (gets sdcard) (\<lambda>c.
      let sd_src_addr = (if \<not> sdhc_or_sdxc c then sd_src_lba * of_nat SD_BLKSZ else sd_src_lba)
      in
      bnd (transfer_blocks hw c ram_dest_addr sd_src_addr nblks) (\<lambda>(error, dest, src, n).
      bnd (when_io (error \<noteq> CMD_ERROR_NONE)
             (serial_log hw ''SD read error: RAM dest addr %08x, SD src addr %08x, number of blocks %u''
                [VaU dest, VaU src, VaU (of_nat n)])) (\<lambda>_.
      ret (error = CMD_ERROR_NONE)))))"

definition UINT16_MAX :: int where "UINT16_MAX = 65535"

function sd_read_blocks_card :: "'d hw \<Rightarrow> addr \<Rightarrow> u32 \<Rightarrow> int \<Rightarrow> ('d, bool) io" where
  "sd_read_blocks_card hw ram_dest_addr sd_src_lba nblks =
     (if 0 < nblks then
        bnd (sd_read_blocks_card_16 hw ram_dest_addr sd_src_lba
               (of_int (if nblks < UINT16_MAX then nblks else UINT16_MAX))) (\<lambda>read_ok.
        if \<not> read_ok then ret False
        else sd_read_blocks_card hw (ram_dest_addr + of_int (int SD_BLKSZ * UINT16_MAX))
               (sd_src_lba + of_int UINT16_MAX) (nblks - UINT16_MAX))
      else ret True)"
  by pat_completeness auto
termination
  by (relation "measure (\<lambda>(hw, dest, lba, n). nat n)") (auto simp: UINT16_MAX_def)

declare sd_read_blocks_card.simps [simp del]

definition sd_read_blocks :: "'d hw \<Rightarrow> addr \<Rightarrow> u32 \<Rightarrow> int \<Rightarrow> ('d, bool) io" where
  "sd_read_blocks hw ram_dest_addr sd_src_lba nblks = sd_read_blocks_card hw ram_dest_addr sd_src_lba nblks"

definition bytes_to_blocks :: "int \<Rightarrow> int" where
  "bytes_to_blocks bytes =
     (let nblks = c_div bytes (int SD_BLKSZ)
      in if c_rem bytes (int SD_BLKSZ) \<noteq> 0 then nblks + 1 else nblks)"

definition sd_read_bytes :: "'d hw \<Rightarrow> addr \<Rightarrow> u32 \<Rightarrow> int \<Rightarrow> ('d, bool) io" where
  "sd_read_bytes hw ram_dest_addr sd_src_lba bytes =
     (let nblks = bytes_to_blocks bytes in sd_read_blocks hw ram_dest_addr sd_src_lba nblks)"

section \<open>Reset\<close>

definition sd_reset_card :: "'d hw \<Rightarrow> ('d, bool) io" where
  "sd_reset_card hw =
     bnd (sd_issue_cmd hw CMD_IDX_GO_IDLE_STATE 0) (\<lambda>error.
     if error \<noteq> CMD_ERROR_NONE then ret False else
     bnd (set_card (\<lambda>c. c\<lparr>cstate := CARD_STATE_IDLE\<rparr>)) (\<lambda>_.
     bnd (sd_reset_host hw) (\<lambda>_.
     ret True)))"

definition sd_reset :: "'d hw \<Rightarrow> ('d, bool) io" where
  "sd_reset hw = sd_reset_card hw"

end
