(* ===== verification/Mbr.thy ===== *)
theory Mbr
  imports Helpers
begin

unbundle bit_operations_syntax

text \<open>
  \<^verbatim>\<open>src/bld/mbr.c\<close>: the master boot record, read from memory at \<^verbatim>\<open>mbr_base_addr\<close>.
\<close>

definition MBR_MAGIC :: u16 where "MBR_MAGIC = 0xaa55"
definition MBR_MAGIC_OFF :: addr where "MBR_MAGIC_OFF = 0x01fe"
definition MBR_PART_ENTRIES_OFF :: addr where "MBR_PART_ENTRIES_OFF = 0x01be"
definition MBR_FIRST_PART_NR :: int where "MBR_FIRST_PART_NR = 1"
definition MBR_LAST_PART_NR :: int where "MBR_LAST_PART_NR = 4"
definition PART_ENTRY_SZ :: int where "PART_ENTRY_SZ = 16"
definition PART_ENTRY_LBA_OFF :: addr where "PART_ENTRY_LBA_OFF = 0x08"
definition PART_ENTRY_NBLOCKS_OFF :: addr where "PART_ENTRY_NBLOCKS_OFF = 0x0c"

definition mbr_magic :: "addr \<Rightarrow> ram \<Rightarrow> bool" where
  "mbr_magic mbr_base_addr m \<longleftrightarrow> ram_get16 m (mbr_base_addr + MBR_MAGIC_OFF) = MBR_MAGIC"

definition mbr_partition_valid :: "int \<Rightarrow> bool" where
  "mbr_partition_valid part_nr \<longleftrightarrow> MBR_FIRST_PART_NR \<le> part_nr \<and> part_nr \<le> MBR_LAST_PART_NR"

text \<open>The local \<^verbatim>\<open>val\<close> is filled byte by byte, so no alignment is needed.\<close>

definition mbr_get_part_entry_field :: "addr \<Rightarrow> int \<Rightarrow> addr \<Rightarrow> ram \<Rightarrow> u32" where
  "mbr_get_part_entry_field mbr_base_addr part_nr field_offset m =
     (let part_entry = (mbr_base_addr + MBR_PART_ENTRIES_OFF) + of_int ((part_nr - 1) * PART_ENTRY_SZ)
      in ram_get32 m (part_entry + field_offset))"

definition mbr_get_partition_lba :: "addr \<Rightarrow> int \<Rightarrow> ram \<Rightarrow> u32" where
  "mbr_get_partition_lba mbr_base_addr part_nr m =
     mbr_get_part_entry_field mbr_base_addr part_nr PART_ENTRY_LBA_OFF m"

definition mbr_get_partition_nblks :: "addr \<Rightarrow> int \<Rightarrow> ram \<Rightarrow> u32" where
  "mbr_get_partition_nblks mbr_base_addr part_nr m =
     mbr_get_part_entry_field mbr_base_addr part_nr PART_ENTRY_NBLOCKS_OFF m"

lemmas mbr_defs = MBR_MAGIC_def MBR_MAGIC_OFF_def MBR_PART_ENTRIES_OFF_def MBR_FIRST_PART_NR_def
  MBR_LAST_PART_NR_def PART_ENTRY_SZ_def PART_ENTRY_LBA_OFF_def PART_ENTRY_NBLOCKS_OFF_def

section \<open>Where the fields are\<close>

text \<open>
  A part_nr table as the specification of the record has it: 446 bytes of code, four
  16-byte entries with the first block and the number of blocks in their last eight bytes,
  and the signature.
\<close>

record part_entry =
  part_head :: "u8 list"
  part_lba :: u32
  part_nblks :: u32

definition entry_bytes :: "part_entry \<Rightarrow> u8 list" where
  "entry_bytes e = part_head e @ bytes32 (part_lba e) @ bytes32 (part_nblks e)"

definition mbr_bytes :: "u8 list \<Rightarrow> part_entry list \<Rightarrow> u8 list" where
  "mbr_bytes code entries = code @ concat (map entry_bytes entries) @ [0x55, 0xaa]"

definition mbr_wf :: "u8 list \<Rightarrow> part_entry list \<Rightarrow> bool" where
  "mbr_wf code entries \<longleftrightarrow> length code = 446 \<and> length entries = 4 \<and>
     (\<forall>e \<in> set entries. length (part_head e) = 8)"

lemma length_entry_bytes: "length (part_head e) = 8 \<Longrightarrow> length (entry_bytes e) = 16"
  by (simp add: entry_bytes_def)

lemma drop_concat_blocks:
  "(\<forall>x \<in> set xs. length x = n) \<Longrightarrow> k < length xs \<Longrightarrow> drop (k * n) (concat xs) = xs ! k @ concat (drop (Suc k) xs)"
proof (induction xs arbitrary: k)
  case (Cons x xs)
  then show ?case by (cases k) (simp_all add: add.commute)
qed simp

lemma mbr_fields:
  assumes "mbr_wf code entries" and "1 \<le> p" and "p \<le> 4"
  defines "e \<equiv> entries ! nat (p - 1)"
  shows "mbr_get_partition_lba a p (ram_write m a (mbr_bytes code entries)) = part_lba e"
    and "mbr_get_partition_nblks a p (ram_write m a (mbr_bytes code entries)) = part_nblks e"
    and "mbr_magic a (ram_write m a (mbr_bytes code entries))"
proof -
  let ?bs = "mbr_bytes code entries" and ?k = "nat (p - 1)"
  let ?m = "ram_write m a (mbr_bytes code entries)"
  have wf: "length code = 446" "length entries = 4" "\<forall>x \<in> set (map entry_bytes entries). length x = 16"
    using assms(1) by (auto simp: mbr_wf_def length_entry_bytes)
  then have len: "length (concat (map entry_bytes entries)) = 64"
    by (simp add: length_concat comp_def sum_list_triv cong: map_cong)
  then have L: "length ?bs = 512" using wf(1) by (simp add: mbr_bytes_def)
  have k: "?k < length (map entry_bytes entries)" using assms(2,3) wf(2) by simp
  have d: "drop (446 + ?k * 16) ?bs = entry_bytes e @ concat (drop (Suc ?k) (map entry_bytes entries)) @ [0x55, 0xaa]"
  proof -
    have "?k * 16 \<le> length (concat (map entry_bytes entries))" using len assms(2,3) by simp
    then have "drop (446 + ?k * 16) ?bs = drop (?k * 16) (concat (map entry_bytes entries)) @ [0x55, 0xaa]"
      using wf(1) by (simp add: mbr_bytes_def)
    then show ?thesis using drop_concat_blocks [OF wf(3) k] k by (simp add: e_def)
  qed
  have h: "length (part_head e) = 8" using assms(1) k by (simp add: mbr_wf_def e_def)
  have pw: "(of_int ((p - 1) * PART_ENTRY_SZ) :: addr) = of_nat (?k * 16)"
  proof -
    have "(p - 1) * 16 = int (?k * 16)" using assms(2) by simp
    then show ?thesis unfolding PART_ENTRY_SZ_def by (simp only: of_int_of_nat_eq)
  qed
  have fld: "ram_get32 ?m (a + of_nat (446 + ?k * 16 + j)) = w"
    if "take 4 (drop j (entry_bytes e)) = bytes32 w" "j \<le> 12" for j w
  proof (rule ram_get32_eqI)
    have "drop (446 + ?k * 16 + j) ?bs = drop j (drop (446 + ?k * 16) ?bs)" by (simp add: add.commute)
    also have "take 4 \<dots> = take 4 (drop j (entry_bytes e))" using h that(2) by (simp add: d length_entry_bytes)
    finally show "ram_bytes ?m (a + of_nat (446 + ?k * 16 + j)) 4 = bytes32 w"
      using assms(2,3) L that by (subst ram_bytes_write_sub) simp_all
  qed
  show "mbr_get_partition_lba a p ?m = part_lba e"
    using fld [of 8 "part_lba e"] h
    unfolding mbr_get_partition_lba_def mbr_get_part_entry_field_def pw Let_def
    by (simp add: mbr_defs entry_bytes_def add_ac)
  show "mbr_get_partition_nblks a p ?m = part_nblks e"
    using fld [of 12 "part_nblks e"] h
    unfolding mbr_get_partition_nblks_def mbr_get_part_entry_field_def pw Let_def
    by (simp add: mbr_defs entry_bytes_def add_ac)
  have "ram_bytes ?m (a + of_nat 510) 2 = [0x55, 0xaa]"
    using L len wf(1) by (subst ram_bytes_write_sub) (simp_all add: mbr_bytes_def)
  then show "mbr_magic a ?m"
    by (simp add: mbr_magic_def mbr_defs ram_get16_def ram_bytes_def upt_conv_Cons)
qed

end
