(* ===== verification/Ic.thy ===== *)
theory Ic
  imports Timer
begin

unbundle bit_operations_syntax

text \<open>
  \<^verbatim>\<open>src/bld/ic.c\<close> and \<^verbatim>\<open>src/bld/int.c\<close>: the legacy interrupt controller and the interrupt
  mask of the CPU. The bootloader is built with \<^verbatim>\<open>ENABLE_GIC\<close>, so its own code does not
  call them; the exception vector does.
\<close>

section \<open>Registers\<close>

datatype arm_local_register = IRQ_SOURCE0

fun arm_local_register_offset :: "arm_local_register \<Rightarrow> u32" where
  "arm_local_register_offset IRQ_SOURCE0 = 0x60"

definition arm_local_access :: "arm_local_register periph_access" where
  "arm_local_access = \<lparr>periph_base_off = 0x3800000, register_offsets = arm_local_register_offset\<rparr>"

definition IRQ_SOURCE_CORE_IRQ :: u32 where "IRQ_SOURCE_CORE_IRQ = BIT 8"

datatype armc_register =
    IRQ0_PENDING0 | IRQ0_PENDING1 | IRQ0_PENDING2 | IRQ0_SET_EN_0 | IRQ0_SET_EN_1 | IRQ0_SET_EN_2
  | IRQ0_CLR_EN_0 | IRQ0_CLR_EN_1 | SWIRQ_SET

fun armc_register_offset :: "armc_register \<Rightarrow> u32" where
  "armc_register_offset IRQ0_PENDING0 = 0x200"
| "armc_register_offset IRQ0_PENDING1 = 0x204"
| "armc_register_offset IRQ0_PENDING2 = 0x208"
| "armc_register_offset IRQ0_SET_EN_0 = 0x210"
| "armc_register_offset IRQ0_SET_EN_1 = 0x214"
| "armc_register_offset IRQ0_SET_EN_2 = 0x218"
| "armc_register_offset IRQ0_CLR_EN_0 = 0x220"
| "armc_register_offset IRQ0_CLR_EN_1 = 0x224"
| "armc_register_offset SWIRQ_SET = 0x3f0"

definition armc_access :: "armc_register periph_access" where
  "armc_access = \<lparr>periph_base_off = 0x200b000, register_offsets = armc_register_offset\<rparr>"

definition IRQ_PENDING2_INT31_0 :: u32 where "IRQ_PENDING2_INT31_0 = BIT 24"
definition IRQ_PENDING2_INT63_32 :: u32 where "IRQ_PENDING2_INT63_32 = BIT 25"
definition IRQ_INT31_0_TIMER1 :: u32 where "IRQ_INT31_0_TIMER1 = BIT 1"
definition IRQ_INT63_32_EMMC2 :: u32 where "IRQ_INT63_32_EMMC2 = BIT 30"

datatype irq = IRQ_UNIMPLEMENTED | IRQ_VC_TIMER1 | IRQ_VC_EMMC2

section \<open>Operations\<close>

definition ic_enable_interrupts :: "'d hw \<Rightarrow> ('d, unit) io" where
  "ic_enable_interrupts hw =
     bnd (register_set hw armc_access IRQ0_SET_EN_0 IRQ_INT31_0_TIMER1) (\<lambda>_.
     register_set hw armc_access IRQ0_SET_EN_1 IRQ_INT63_32_EMMC2)"

definition ic_disable_interrupts :: "'d hw \<Rightarrow> ('d, unit) io" where
  "ic_disable_interrupts hw =
     bnd (register_set hw armc_access IRQ0_CLR_EN_0 IRQ_INT31_0_TIMER1) (\<lambda>_.
     register_set hw armc_access IRQ0_CLR_EN_1 IRQ_INT63_32_EMMC2)"

definition get_irq_source :: "'d hw \<Rightarrow> ('d, irq) io" where
  "get_irq_source hw =
     bnd (register_get hw arm_local_access IRQ_SOURCE0) (\<lambda>src.
     if src AND IRQ_SOURCE_CORE_IRQ \<noteq> 0 then
       bnd (register_get hw armc_access IRQ0_PENDING2) (\<lambda>pending2.
       if pending2 AND IRQ_PENDING2_INT31_0 \<noteq> 0 then
         bnd (register_get hw armc_access IRQ0_PENDING0) (\<lambda>p.
         ret (if p AND IRQ_INT31_0_TIMER1 \<noteq> 0 then IRQ_VC_TIMER1 else IRQ_UNIMPLEMENTED))
       else if pending2 AND IRQ_PENDING2_INT63_32 \<noteq> 0 then
         bnd (register_get hw armc_access IRQ0_PENDING1) (\<lambda>p.
         ret (if p AND IRQ_INT63_32_EMMC2 \<noteq> 0 then IRQ_VC_EMMC2 else IRQ_UNIMPLEMENTED))
       else ret IRQ_UNIMPLEMENTED)
     else ret IRQ_UNIMPLEMENTED)"

definition ic_irq_exception_handler :: "'d hw \<Rightarrow> ('d, unit) io" where
  "ic_irq_exception_handler hw =
     bnd (get_irq_source hw) (\<lambda>irq.
     case irq of
       IRQ_VC_TIMER1 \<Rightarrow> timer_isr hw
     | IRQ_VC_EMMC2 \<Rightarrow> ret ()
     | IRQ_UNIMPLEMENTED \<Rightarrow> ret ())"

definition CPSR_I :: u32 where "CPSR_I = BIT 7"

definition enable_interrupts :: "('d, unit) io" where
  "enable_interrupts = modify (\<lambda>s. s\<lparr>cpsr := cpsr s AND NOT CPSR_I\<rparr>)"

definition disable_interrupts :: "('d, unit) io" where
  "disable_interrupts = modify (\<lambda>s. s\<lparr>cpsr := cpsr s OR CPSR_I\<rparr>)"

section \<open>The handler\<close>

text \<open>
  C39. The interrupt handler acknowledges the timer exactly when the controller reports a
  core interrupt, a pending VideoCore interrupt of the first bank and the timer's bit there:
  then, and only then, it writes to the timer, first zero to the compare register and then
  the match bit, with the other bits as read, to the control register, and raises the flag
  that a sleeping caller waits for. The handler always returns, with RAM as it was.
\<close>

theorem irq_handler_spec:
  fixes hw :: "'d hw" and s :: "'d machine"
  defines "s1 \<equiv> after_read hw (get_peripheral_reg_addr arm_local_access IRQ_SOURCE0) s"
  defines "s2 \<equiv> after_read hw (get_peripheral_reg_addr armc_access IRQ0_PENDING2) s1"
  defines "s3 \<equiv> after_read hw (get_peripheral_reg_addr armc_access IRQ0_PENDING0) s2"
  defines "c1 \<equiv> get_peripheral_reg_addr timer_access C1"
  defines "cs \<equiv> get_peripheral_reg_addr timer_access CS"
  defines "status \<equiv> dev_read hw cs (after_write hw c1 0 s3)"
  defines "timer_pending \<equiv>
       bit (dev_read hw (get_peripheral_reg_addr arm_local_access IRQ_SOURCE0) s) 8 \<and>
       bit (dev_read hw (get_peripheral_reg_addr armc_access IRQ0_PENDING2) s1) 24 \<and>
       bit (dev_read hw (get_peripheral_reg_addr armc_access IRQ0_PENDING0) s2) 1"
  shows "\<exists>t. ic_irq_exception_handler hw s = (Ret (), t) \<and> ram t = ram s \<and>
    history {c1, cs} t = history {c1, cs} s @
      (if timer_pending then [Wr c1 0, Rd cs status, Wr cs (status OR 2)] else []) \<and>
    (queued_timer_irq_serviced t \<longleftrightarrow> queued_timer_irq_serviced s \<or> timer_pending)"
proof -
  have other: "get_peripheral_reg_addr arm_local_access IRQ_SOURCE0 \<notin> {c1, cs}"
    "get_peripheral_reg_addr armc_access r \<notin> {c1, cs}" "cs \<noteq> c1" for r
    by (cases r; simp add: c1_def cs_def get_peripheral_reg_addr_def ARM_LO_MAIN_PERIPH_BASE_ADDR_def
        timer_access_def arm_local_access_def armc_access_def)+
  have m: "CS_MATCH1 = 2" by (simp add: CS_MATCH1_def BIT_def)
  show ?thesis
    using other
    by (simp add: ic_irq_exception_handler_def get_irq_source_def bnd_assoc run_simps timer_isr_def
        register_enable_bits_def and_BIT_eq_0 IRQ_SOURCE_CORE_IRQ_def IRQ_PENDING2_INT31_0_def
        IRQ_PENDING2_INT63_32_def IRQ_INT31_0_TIMER1_def IRQ_INT63_32_EMMC2_def m
        c1_def [symmetric] cs_def [symmetric] s1_def s2_def s3_def status_def timer_pending_def)
qed

end
