(* ===== verification/Uart_Init.thy ===== *)
theory Uart_Init
  imports Tag
begin

unbundle bit_operations_syntax

text \<open>
  The initialisation of the mini UART in \<^verbatim>\<open>src/bld/uart.c\<close>, which asks the VideoCore for the
  rate of the core clock.
\<close>

definition baudrate_reg :: "u32 \<Rightarrow> int \<Rightarrow> u32" where
  "baudrate_reg rate baudrate =
     (let system_clk_freq = sint rate;
          oversampling = 8
      in of_int (c_div system_clk_freq (baudrate * oversampling) - 1))"

definition uart_set_baudrate :: "'d hw \<Rightarrow> int \<Rightarrow> ('d, unit) io" where
  "uart_set_baudrate hw baudrate =
     bnd (tag_clock_get_rate hw CLK_CORE) (\<lambda>rate.
     register_set hw uart_access AUX_MU_BAUD_REG (baudrate_reg rate baudrate))"

definition uart_init :: "'d hw \<Rightarrow> ('d, unit) io" where
  "uart_init hw =
     bnd (gpio_pin_select_op hw GPIO_PIN_TXD1 GPIO_OP_ALT_FN_5) (\<lambda>_.
     bnd (register_set hw uart_access AUX_ENABLES AUX_ENABLES_MINI_UART_ENABLE) (\<lambda>_.
     bnd (register_disable_bits hw uart_access AUX_MU_CNTL_REG AUX_MU_CNTL_REG_RX_EN) (\<lambda>_.
     bnd (uart_set_baudrate hw 115200) (\<lambda>_.
     register_set hw uart_access AUX_MU_LCR_REG AUX_MU_LCR_REG_DATA_SIZE))))"

context mailbox_relation
begin

lemma guar_uart_init: "guar R (uart_init hw)"
  unfolding uart_init_def uart_set_baudrate_def
  by (intro guar_rules guar_access uart_not_A guar_signals guar_tags)

end

text \<open>
  C37. The divisor: for a core clock between one and \<open>2 ^ 31\<close> baud periods the register gets
  the largest divisor whose line rate, clock over eight times the divisor plus one, is not
  below the requested one; with the clock fixed to 250 MHz it is 270.
\<close>

theorem baudrate_reg_spec:
  assumes "8 * baud \<le> uint rate" and "0 < baud" and "uint rate < 2 ^ 31"
  shows "8 * baud * (uint (baudrate_reg rate baud) + 1) \<le> uint rate \<and>
    uint rate < 8 * baud * (uint (baudrate_reg rate baud) + 2)"
proof -
  let ?r = "uint rate" and ?d = "baud * 8"
  have s: "sint rate = ?r"
  proof -
    have "int (unat rate) < int (2 ^ 31)" using assms(3) by simp
    then show ?thesis using sint_of_nat_lt [of "unat rate"] by (simp only: of_nat_less_iff) simp
  qed
  have q: "1 \<le> ?r div ?d" using assms(1,2) by (simp add: pos_imp_zdiv_pos_iff int_one_le_iff_zero_less mult.commute)
  have "?r div ?d \<le> ?r" using zdiv_mono2 [of ?r 1 ?d] assms(2) by simp
  moreover have "?r < 2 ^ 31" using assms(3) by simp
  ultimately have "?r div ?d - 1 < 2 ^ 32" by simp
  then have u: "uint (baudrate_reg rate baud) = ?r div ?d - 1"
    unfolding baudrate_reg_def Let_def s using q assms(2) by (subst uint_of_int_lt) simp_all
  have m: "?r = ?d * (?r div ?d) + ?r mod ?d" "0 \<le> ?r mod ?d" "?r mod ?d < ?d" using assms(2) by simp_all
  show ?thesis unfolding u using m by (simp add: algebra_simps)
qed

theorem baudrate_reg_spec_witness:
  "8 * 115200 * (uint (baudrate_reg 250000000 115200) + 1) \<le> 250000000 \<and>
   250000000 < 8 * 115200 * (uint (baudrate_reg 250000000 115200) + 2) \<and>
   baudrate_reg 250000000 115200 = 270"
  using baudrate_reg_spec [of 115200 250000000]
  by (simp add: baudrate_reg_def)

end
