(* ===== verification/Boot.thy ===== *)
theory Boot
  imports Sd Mbr Ic Uart_Init Image
begin

unbundle bit_operations_syntax

text \<open>
  \<^verbatim>\<open>src/bld/boot.c\<close>: from the entry of the C code to the jump to the kernel. The number of
  the image partition is given on the command line of the build, and the place of the
  assembled vector table by the linker: both are parameters.
\<close>

record build =
  IMAGE_PARTITION :: int
  vector_table :: addr
  vector_table_pool_end :: addr

definition DTB_MAGIC :: u32 where "DTB_MAGIC = 0xd00dfeed"
definition ZIMAGE_MAGIC :: u32 where "ZIMAGE_MAGIC = 0x016F2818"
definition ZIMAGE_MAGIC_OFF :: addr where "ZIMAGE_MAGIC_OFF = 0x24"

section \<open>Peripherals\<close>

definition install_vector_table :: "build \<Rightarrow> ('d, unit) io" where
  "install_vector_table cfg =
     modify (\<lambda>s. s\<lparr>ram := mcopy (vector_table cfg) 0x0
       (sint (vector_table_pool_end cfg - vector_table cfg)) (ram s)\<rparr>)"

definition init_peripherals :: "'d hw \<Rightarrow> ('d, unit) io" where
  "init_peripherals hw =
     bnd (uart_init hw) (\<lambda>_.
     bnd (serial_log hw ''Bootloader started: enabled mini UART'' []) (\<lambda>_.
     bnd (when_io (\<not> ENABLE_GIC)
            (bnd enable_interrupts (\<lambda>_.
             bnd (ic_enable_interrupts hw) (\<lambda>_.
             serial_log hw ''Enabled interrupts'' [])))) (\<lambda>_.
     bnd (sd_init hw) (\<lambda>error.
     when_io (error \<noteq> SD_INIT_ERROR_NONE)
       (bnd (serial_log hw ''Failed to initialise SD'' []) (\<lambda>_.
        signal_error hw ERROR_SD_INIT))))))"

definition reset_peripherals :: "'d hw \<Rightarrow> ('d, unit) io" where
  "reset_peripherals hw =
     bnd (sd_reset hw) (\<lambda>ok.
     bnd (when_io (\<not> ok)
            (bnd (serial_log hw ''Error: failed to reset SD'' []) (\<lambda>_.
             signal_error hw ERROR_SD_RESET))) (\<lambda>_.
     when_io (\<not> ENABLE_GIC)
       (bnd (ic_disable_interrupts hw) (\<lambda>_.
        bnd disable_interrupts (\<lambda>_.
        serial_log hw ''Disabled interrupts'' [])))))"

section \<open>Loading\<close>

definition load_mbr :: "'d hw \<Rightarrow> build \<Rightarrow> ('d, addr) io" where
  "load_mbr hw cfg =
     (let mbr_base_addr = heap_get_base_address
      in
      bnd (serial_log hw ''Loading MBR...'' []) (\<lambda>_.
      bnd (sd_read_blocks hw mbr_base_addr 0 1) (\<lambda>ok.
      bnd (when_io (\<not> ok) (signal_error hw ERROR_SD_READ)) (\<lambda>_.
      bnd (gets (\<lambda>s. mbr_magic mbr_base_addr (ram s))) (\<lambda>magic.
      bnd (when_io (\<not> magic)
             (bnd (serial_log hw ''Error: couldn't find MBR on SD card: no MBR magic'' []) (\<lambda>_.
              signal_error hw ERROR_NO_MBR_MAGIC))) (\<lambda>_.
      bnd (when_io (\<not> mbr_partition_valid (IMAGE_PARTITION cfg))
             (bnd (serial_log hw ''Error: partition %u not a valid primary partition''
                     [VaU (of_int (IMAGE_PARTITION cfg))]) (\<lambda>_.
              signal_error hw ERROR_INVALID_PARTITION))) (\<lambda>_.
      bnd (serial_log hw ''Successfully loaded and validated MBR'' []) (\<lambda>_.
      ret mbr_base_addr))))))))"

definition load_image_head :: "'d hw \<Rightarrow> build \<Rightarrow> addr \<Rightarrow> ('d, u32) io" where
  "load_image_head hw cfg mbr_base_addr =
     bnd (gets (\<lambda>s. mbr_get_partition_lba mbr_base_addr (IMAGE_PARTITION cfg) (ram s))) (\<lambda>img_part_lba.
     bnd (gets (\<lambda>s. mbr_get_partition_nblks mbr_base_addr (IMAGE_PARTITION cfg) (ram s))) (\<lambda>img_part_nblks.
     let img = heap_get_base_address
     in
     bnd (serial_log hw ''Loading image head from partition %u'' [VaU (of_int (IMAGE_PARTITION cfg))]) (\<lambda>_.
     bnd (sd_read_blocks hw img img_part_lba 1) (\<lambda>ok.
     bnd (when_io (\<not> ok) (signal_error hw ERROR_SD_READ)) (\<lambda>_.
     bnd (gets (\<lambda>s. ram_get32 (ram s) img)) (\<lambda>magic.
     bnd (when_io (magic \<noteq> IMG_MAGIC)
            (bnd (serial_log hw ''Error: couldn't find image at start of partition %u: no image magic''
                    [VaU (of_int (IMAGE_PARTITION cfg))]) (\<lambda>_.
             signal_error hw ERROR_NO_IMAGE_MAGIC))) (\<lambda>_.
     bnd (gets (\<lambda>s. ram_get32 (ram s) (img + image_imgsz_off))) (\<lambda>imgsz.
     bnd (when_io (img_part_nblks * of_nat SD_BLKSZ < imgsz)
            (bnd (serial_log hw ''Error: image overflow: image size %u bytes is greater than size of image partition %u bytes''
                    [VaU imgsz, VaU (img_part_nblks * of_nat SD_BLKSZ)]) (\<lambda>_.
             signal_error hw ERROR_IMAGE_OVERFLOW))) (\<lambda>_.
     bnd (serial_log hw ''Successfully loaded and validated image head, image size %u bytes'' [VaU imgsz]) (\<lambda>_.
     ret img_part_lba))))))))))"

text \<open>\<open>None\<close>: control falls off the end of \<^verbatim>\<open>stritem()\<close>, whose result is then used.\<close>

definition stritem :: "u32 \<Rightarrow> string option" where
  "stritem i =
     (if i = item_id_value ITEM_ID_END then Some ''end''
      else if i = item_id_value ITEM_ID_KERNEL then Some ''kernel''
      else if i = item_id_value ITEM_ID_DEVICE_TREE_BLOB then Some ''device tree blob''
      else None)"

definition itemsz :: "addr \<Rightarrow> ram \<Rightarrow> int" where
  "itemsz item m = sint (of_nat sizeof_item + ram_get32 m (item + item_datasz_off))"

definition load_item :: "'d hw \<Rightarrow> item_id \<Rightarrow> addr \<Rightarrow> u32 \<Rightarrow> ('d, addr) io" where
  "load_item hw want ram_item_dest_addr sd_item_src_lba =
     (case stritem (item_id_value want) of None \<Rightarrow> stop Undef | Some name \<Rightarrow>
     bnd (serial_log hw ''Loading %s item to RAM address %08x...'' [VaS name, VaU ram_item_dest_addr]) (\<lambda>_.
     bnd (sd_read_blocks hw ram_item_dest_addr sd_item_src_lba 1) (\<lambda>ok.
     bnd (when_io (\<not> ok) (signal_error hw ERROR_SD_READ)) (\<lambda>_.
     let item = ram_item_dest_addr
     in
     bnd (gets (\<lambda>s. ram_get32 (ram s) item)) (\<lambda>iid.
     bnd (when_io (iid \<noteq> item_id_value want)
            (case stritem iid of
               None \<Rightarrow> stop Undef
             | Some got \<Rightarrow>
                 bnd (serial_log hw ''Error: loaded image item %s but expected %s'' [VaS got, VaS name]) (\<lambda>_.
                 signal_error hw ERROR_IMAGE_CONTENTS))) (\<lambda>_.
     bnd (gets (\<lambda>s. itemsz item (ram s))) (\<lambda>sz.
     bnd (when_io (int SD_BLKSZ < sz)
            (bnd (sd_read_bytes hw ram_item_dest_addr sd_item_src_lba sz) (\<lambda>ok.
             when_io (\<not> ok) (signal_error hw ERROR_SD_READ)))) (\<lambda>_.
     bnd (gets (\<lambda>s. ram_get32 (ram s) (item + item_datasz_off))) (\<lambda>datasz.
     bnd (serial_log hw ''Successfully loaded %s item, data size %u bytes'' [VaS name, VaU datasz]) (\<lambda>_.
     ret item))))))))))"

definition load_image_items :: "'d hw \<Rightarrow> u32 \<Rightarrow> ('d, unit) io" where
  "load_image_items hw img_part_lba =
     (let item_lba = img_part_lba + 1
      in
      bnd (load_item hw ITEM_ID_KERNEL (KERN_RAM_ADDR - of_nat sizeof_item) item_lba) (\<lambda>item.
      bnd (gets (\<lambda>s. ram_get32 (ram s) (item + item_datasz_off))) (\<lambda>datasz.
      bnd (when_io (DTB_RAM_ADDR < KERN_RAM_ADDR + datasz)
             (bnd (serial_log hw ''Error: kernel size %u bytes overflows into device tree blob'' [VaU datasz]) (\<lambda>_.
              signal_error hw ERROR_KERN_OVERFLOW))) (\<lambda>_.
      bnd (gets (\<lambda>s. ram_get32 (ram s) (KERN_RAM_ADDR + ZIMAGE_MAGIC_OFF))) (\<lambda>magic.
      bnd (when_io (magic \<noteq> ZIMAGE_MAGIC)
             (bnd (serial_log hw ''Error: couldn't find kernel zImage magic'' []) (\<lambda>_.
              signal_error hw ERROR_IMAGE_CONTENTS))) (\<lambda>_.
      bnd (serial_log hw ''Successfully validated kernel'' []) (\<lambda>_.
      bnd (gets (\<lambda>s. item_lba + of_int (bytes_to_blocks (itemsz item (ram s))))) (\<lambda>item_lba.
      bnd (load_item hw ITEM_ID_DEVICE_TREE_BLOB (DTB_RAM_ADDR - of_nat sizeof_item) item_lba) (\<lambda>item.
      bnd (gets (\<lambda>s. ram_get32 (ram s) DTB_RAM_ADDR)) (\<lambda>magic.
      bnd (when_io (bswap32 magic \<noteq> DTB_MAGIC)
             (bnd (serial_log hw ''Error: couldn't find device tree blob magic'' []) (\<lambda>_.
              signal_error hw ERROR_IMAGE_CONTENTS))) (\<lambda>_.
      bnd (serial_log hw ''Successfully validated device tree blob'' []) (\<lambda>_.
      bnd (gets (\<lambda>s. item_lba + of_int (bytes_to_blocks (itemsz item (ram s))))) (\<lambda>item_lba.
      bnd (load_item hw ITEM_ID_END heap_get_base_address item_lba) (\<lambda>_.
      ret ()))))))))))))))"

section \<open>Boot\<close>

text \<open>
  The hypervisor call traps to \<^verbatim>\<open>_boot_kernel\<close> of \<^verbatim>\<open>src/bld/entry.S\<close> through the vector
  table, with the kernel's address in \<^verbatim>\<open>r3\<close>.
\<close>

definition boot_kernel :: "'d hw \<Rightarrow> ('d, unit) io" where
  "boot_kernel hw =
     bnd (serial_log hw ''Jumping to kernel...'' []) (\<lambda>_.
     stop (Boot \<lparr>reg_r0 = 0, reg_r1 = NOT 0, reg_r2 = DTB_RAM_ADDR, reg_pc = KERN_RAM_ADDR\<rparr>))"

definition c_entry :: "'d hw \<Rightarrow> build \<Rightarrow> ('d, unit) io" where
  "c_entry hw cfg =
     bnd (install_vector_table cfg) (\<lambda>_.
     bnd (init_peripherals hw) (\<lambda>_.
     bnd (load_mbr hw cfg) (\<lambda>mbr_base_addr.
     bnd (load_image_head hw cfg mbr_base_addr) (\<lambda>img_part_lba.
     bnd (load_image_items hw img_part_lba) (\<lambda>_.
     bnd (reset_peripherals hw) (\<lambda>_.
     boot_kernel hw))))))"

end
