(* ===== verification/Imager.thy ===== *)
theory Imager
  imports Image
begin

unbundle bit_operations_syntax

text \<open>
  \<^verbatim>\<open>src/img/img.c\<close>: the program that writes a kernel and a device tree blob to a partition. It
  runs on the host, and the system and library calls it makes are a parameter \<open>os\<close> over an
  arbitrary type of system states; a block of memory is the list of its bytes, so the fresh
  contents of \<^verbatim>\<open>malloc()\<close> and \<^verbatim>\<open>realloc()\<close> are part of their results and \<^verbatim>\<open>free()\<close> has no
  effect to model. A write outside a block, and the use of a null pointer, are undefined. Messages
  to the terminal are left out.
\<close>

section \<open>The system\<close>

record 'o os =
  os_open :: "string \<Rightarrow> bool \<Rightarrow> 'o \<Rightarrow> int \<times> 'o"
  os_fstat :: "int \<Rightarrow> 'o \<Rightarrow> int option \<times> 'o"
  os_malloc :: "nat \<Rightarrow> 'o \<Rightarrow> u8 list option \<times> 'o"
  os_realloc :: "u8 list \<Rightarrow> nat \<Rightarrow> 'o \<Rightarrow> u8 list option \<times> 'o"
  os_read :: "int \<Rightarrow> nat \<Rightarrow> 'o \<Rightarrow> (int \<times> u8 list) \<times> 'o"
  os_write :: "int \<Rightarrow> u8 list \<Rightarrow> 'o \<Rightarrow> int \<times> 'o"
  os_close :: "int \<Rightarrow> 'o \<Rightarrow> 'o"
  os_fuel :: nat

definition call :: "('o \<Rightarrow> 'a \<times> 'o) \<Rightarrow> ('o, 'a) prog" where
  "call f = (\<lambda>s. let (x, t) = f s in (Ret x, t))"

text \<open>Conversion to a 32-bit \<^verbatim>\<open>int\<close>, and a \<^verbatim>\<open>size_t\<close> from one.\<close>

definition c_int :: "int \<Rightarrow> int" where
  "c_int x = signed_take_bit 31 x"

definition c_size :: "int \<Rightarrow> nat" where
  "c_size x = nat (x mod 2 ^ 64)"

text \<open>Store bytes into a block.\<close>

definition put_bytes :: "nat \<Rightarrow> u8 list \<Rightarrow> u8 list \<Rightarrow> ('o, u8 list) prog" where
  "put_bytes off bs mem =
     (if off + length bs \<le> length mem then ret (take off mem @ bs @ drop (off + length bs) mem)
      else stop Undef)"

definition get_word :: "nat \<Rightarrow> u8 list \<Rightarrow> u32" where
  "get_word off mem = le32 (mem ! off) (mem ! (off + 1)) (mem ! (off + 2)) (mem ! (off + 3))"

definition RDWR_SZ :: nat where "RDWR_SZ = 4096"

section \<open>Files\<close>

definition filesz :: "'o os \<Rightarrow> int \<Rightarrow> ('o, int) prog" where
  "filesz os fd =
     bnd (call (os_fstat os fd)) (\<lambda>st.
     case st of None \<Rightarrow> ret (-1) | Some st_size \<Rightarrow> ret (c_int st_size))"

text \<open>The loop reads until the end of the file, not until the buffer is full.\<close>

primrec file_read_loop :: "'o os \<Rightarrow> int \<Rightarrow> nat \<Rightarrow> u8 list \<Rightarrow> nat \<Rightarrow> ('o, int \<times> u8 list) prog" where
  "file_read_loop os fd cur mem 0 = stop Hang"
| "file_read_loop os fd cur mem (Suc k) =
     bnd (call (os_read os fd RDWR_SZ)) (\<lambda>(n, bs).
     if 0 < n then
       bnd (put_bytes cur (take (nat n) bs) mem) (\<lambda>mem.
       file_read_loop os fd (cur + nat n) mem k)
     else ret (n, mem))"

definition file_read :: "'o os \<Rightarrow> string \<Rightarrow> ('o, (u8 list \<times> int) option) prog" where
  "file_read os fpath =
     bnd (call (os_open os fpath False)) (\<lambda>fd.
     if fd = -1 then ret None
     else
     bnd (filesz os fd) (\<lambda>fsz.
     if fsz = -1 then bnd (modify (os_close os fd)) (\<lambda>_. ret None)
     else
     bnd (call (os_malloc os (c_size fsz))) (\<lambda>mem.
     case mem of
       None \<Rightarrow> bnd (modify (os_close os fd)) (\<lambda>_. ret None)
     | Some mem \<Rightarrow>
     bnd (file_read_loop os fd 0 mem (os_fuel os)) (\<lambda>(n, mem).
     bnd (modify (os_close os fd)) (\<lambda>_.
     ret (if n = -1 then None else Some (mem, fsz)))))))"

section \<open>Images\<close>

definition round_up_multiple :: "int \<Rightarrow> int \<Rightarrow> int" where
  "round_up_multiple n m = (if c_rem n m \<noteq> 0 then n + (m - c_rem n m) else n)"

definition datasz_after_pad :: "int \<Rightarrow> int" where
  "datasz_after_pad datasz =
     c_int (round_up_multiple (c_int (int sizeof_item + datasz)) (int SD_BLKSZ) - int sizeof_item)"

definition image_append_item ::
  "'o os \<Rightarrow> u8 list \<Rightarrow> item_id \<Rightarrow> int \<Rightarrow> u8 list \<Rightarrow> ('o, u8 list option) prog" where
  "image_append_item os img iid datasz data =
     (let pad_sz = datasz_after_pad datasz;
          imgsz = get_word 4 img
      in
      bnd (call (os_realloc os img (c_size (uint imgsz + (int sizeof_item + pad_sz))))) (\<lambda>r.
      case r of
        None \<Rightarrow> ret None
      | Some img \<Rightarrow>
          let item = unat (get_word 4 img)
          in
          bnd (put_bytes item (bytes32 (item_id_value iid)) img) (\<lambda>img.
          bnd (put_bytes (item + 4) (bytes32 (of_int pad_sz)) img) (\<lambda>img.
          bnd (if datasz \<noteq> 0
               then (if c_size datasz \<le> length data then put_bytes (item + sizeof_item) (take (c_size datasz) data) img
                     else stop Undef)
               else ret img) (\<lambda>img.
          bnd (put_bytes 4 (bytes32 (get_word 4 img + of_int (int sizeof_item + pad_sz))) img) (\<lambda>img.
          ret (Some img)))))))"

definition image_append_file :: "'o os \<Rightarrow> u8 list \<Rightarrow> string \<Rightarrow> item_id \<Rightarrow> ('o, u8 list option) prog" where
  "image_append_file os img fpath iid =
     bnd (file_read os fpath) (\<lambda>r.
     case r of
       None \<Rightarrow> ret None
     | Some (file_contents, fsz) \<Rightarrow> image_append_item os img iid fsz file_contents)"

definition image_append_file_free_on_fail ::
  "'o os \<Rightarrow> u8 list \<Rightarrow> string \<Rightarrow> item_id \<Rightarrow> ('o, u8 list option) prog" where
  "image_append_file_free_on_fail os img fpath iid =
     bnd (image_append_file os img fpath iid) (\<lambda>new_img.
     case new_img of None \<Rightarrow> ret None | Some new_img \<Rightarrow> ret (Some new_img))"

definition build_image :: "'o os \<Rightarrow> string \<Rightarrow> string \<Rightarrow> ('o, u8 list option) prog" where
  "build_image os kern_fpath dtb_fpath =
     bnd (call (os_malloc os sizeof_image)) (\<lambda>img.
     case img of
       None \<Rightarrow> stop Undef
     | Some img \<Rightarrow>
     bnd (put_bytes 0 (bytes32 IMG_MAGIC) img) (\<lambda>img.
     bnd (put_bytes 4 (bytes32 (of_nat sizeof_image)) img) (\<lambda>img.
     bnd (image_append_file_free_on_fail os img kern_fpath ITEM_ID_KERNEL) (\<lambda>img.
     case img of
       None \<Rightarrow> ret None
     | Some img \<Rightarrow>
     bnd (image_append_file_free_on_fail os img dtb_fpath ITEM_ID_DEVICE_TREE_BLOB) (\<lambda>img.
     case img of
       None \<Rightarrow> ret None
     | Some img \<Rightarrow>
     bnd (image_append_item os img ITEM_ID_END 0 []) (\<lambda>new_img.
     case new_img of None \<Rightarrow> ret None | Some new_img \<Rightarrow> ret (Some new_img)))))))"

section \<open>Writing the image\<close>

primrec file_write_loop :: "'o os \<Rightarrow> int \<Rightarrow> u8 list \<Rightarrow> int \<Rightarrow> nat \<Rightarrow> ('o, bool) prog" where
  "file_write_loop os fd mem n 0 = stop Hang"
| "file_write_loop os fd mem n (Suc k) =
     (if 0 < n then
        bnd (call (os_write os fd (take (nat (if n < int RDWR_SZ then n else int RDWR_SZ)) mem))) (\<lambda>bytes_written.
        if bytes_written = -1 then bnd (modify (os_close os fd)) (\<lambda>_. ret False)
        else file_write_loop os fd (drop (nat bytes_written) mem) (n - bytes_written) k)
      else bnd (modify (os_close os fd)) (\<lambda>_. ret True))"

definition file_write :: "'o os \<Rightarrow> string \<Rightarrow> u8 list \<Rightarrow> int \<Rightarrow> ('o, bool) prog" where
  "file_write os fpath mem n =
     bnd (call (os_open os fpath True)) (\<lambda>fd.
     if fd = -1 then ret False
     else file_write_loop os fd mem n (os_fuel os))"

definition any_arg_is_help :: "string list \<Rightarrow> bool" where
  "any_arg_is_help argv = list_ex (\<lambda>a. a = ''-h'' \<or> a = ''--help'') (drop 1 argv)"

datatype exit_status = EXIT_SUCCESS | EXIT_FAILURE

definition imager_main :: "'o os \<Rightarrow> string list \<Rightarrow> ('o, exit_status) prog" where
  "imager_main os argv =
     (if any_arg_is_help argv then ret EXIT_SUCCESS
      else if length argv \<noteq> 4 then ret EXIT_FAILURE
      else
      let part = argv ! 1; kern_fpath = argv ! 2; dtb_fpath = argv ! 3
      in
      bnd (build_image os kern_fpath dtb_fpath) (\<lambda>img.
      case img of
        None \<Rightarrow> ret EXIT_FAILURE
      | Some img \<Rightarrow>
          bnd (file_write os part img (sint (get_word 4 img))) (\<lambda>ok.
          ret (if ok then EXIT_SUCCESS else EXIT_FAILURE))))"

end
