(* ===== verification/Sd_Cmd_Facts.thy ===== *)
theory Sd_Cmd_Facts
  imports Sd_Cmd
begin

unbundle bit_operations_syntax

text \<open>
  What the SD commands do, for every hardware: what they leave alone, how a wait classifies
  the flags it sees, which writes reach the controller and in which order, and that the bytes in
  RAM after a read are the words read from the data register, in order. The statements
  speak of the history of bus accesses, so they hold whatever the controller answers.
\<close>

section \<open>The command table\<close>

abbreviation sd_reg :: "sd_register \<Rightarrow> addr" where
  "sd_reg r \<equiv> get_peripheral_reg_addr sd_access r"

lemma sd_reg_simps [reg_simps]:
  "sd_reg BLKSIZECNT = 0xfe340004" "sd_reg ARG1 = 0xfe340008" "sd_reg CMDTM = 0xfe34000c"
  "sd_reg RESP0 = 0xfe340010" "sd_reg DATA = 0xfe340020" "sd_reg STATUS = 0xfe340024"
  "sd_reg CONTROL0 = 0xfe340028" "sd_reg CONTROL1 = 0xfe34002c" "sd_reg INTERRUPT = 0xfe340030"
  "sd_reg IRPT_MASK = 0xfe340034" "sd_reg IRPT_EN = 0xfe340038" "sd_reg FORCE_IRPT = 0xfe340050"
  by (simp_all add: get_peripheral_reg_addr_def sd_access_def ARM_LO_MAIN_PERIPH_BASE_ADDR_def)

lemma sd_reg_page: "sd_reg r \<in> sd_page"
  by (cases r) (simp_all add: reg_simps sd_page_def)

lemma sd_reg_inject [simp]: "sd_reg r = sd_reg q \<longleftrightarrow> r = q"
  by (cases r; cases q) (simp_all add: reg_simps)

lemma sd_data_addr_eq: "sd_data_addr = sd_reg DATA"
  by (simp add: sd_data_addr_def get_peripheral_reg_addr_def)

definition command_of :: "cmd_index \<Rightarrow> command" where
  "command_of idx = the (get_command idx)"

lemma get_command_found: "get_command idx = Some (command_of idx) \<and> index (command_of idx) = idx"
  by (cases idx) (simp_all add: get_command_def command_of_def commands_def)

abbreviation command_word :: "cmd_index \<Rightarrow> u32" where
  "command_word idx \<equiv> cast_cmdtm (set_cmdtm (command_of idx))"

text \<open>The argument that carries a relative card address, and the one of ACMD41.\<close>

lemma rca_arg: "drop_bit 16 (cast_ac_rca_args ((ac_rca_args_of 0)\<lparr>ac_rca := rca\<rparr>)) = take_bit 16 rca"
  by (rule bit_word_eqI) (auto simp: cast_ac_rca_args_def ac_rca_args_of_def fld_def getfld_def bit_drop_bit_eq
      bit_push_bit_iff bit_take_bit_iff)

definition op_cond_args :: u32 where
  "op_cond_args = 0 OR OCR_VDD_2V7_TO_3V6 OR ACMD41_HOST_CAPACITY_SUPPORT"

section \<open>Frames\<close>

context access_relation
begin

lemma guar_wait_any_loop: "sd_reg INTERRUPT \<notin> A \<Longrightarrow> guar R (wait_any_loop hw ts k)"
  by (induction k) (auto intro!: guar_rules guar_access guar_timer)

lemma guar_wait:
  "sd_reg INTERRUPT \<notin> A \<Longrightarrow> guar R (sd_wait_for_any_interrupt hw)"
  "sd_reg INTERRUPT \<notin> A \<Longrightarrow> guar R (sd_wait_for_interrupt hw m)"
  unfolding sd_wait_for_any_interrupt_def sd_wait_for_interrupt_def
  by (intro guar_rules guar_timer guar_wait_any_loop guar_serial_log; assumption)+

end

text \<open>Relations that all command registers respect, the data register excepted.\<close>

locale sd_relation = access_relation R hw A
  for R :: "'d machine \<Rightarrow> 'd machine \<Rightarrow> bool" and hw :: "'d hw" and A :: "addr set" +
  assumes cmd_regs: "r \<noteq> DATA \<Longrightarrow> sd_reg r \<notin> A"
begin

lemma cmd_reg_not_A:
  "sd_reg BLKSIZECNT \<notin> A" "sd_reg ARG1 \<notin> A" "sd_reg CMDTM \<notin> A" "sd_reg RESP0 \<notin> A"
  "sd_reg STATUS \<notin> A" "sd_reg CONTROL0 \<notin> A" "sd_reg CONTROL1 \<notin> A" "sd_reg INTERRUPT \<notin> A"
  "sd_reg IRPT_MASK \<notin> A"
  by (rule cmd_regs, simp)+

lemma guar_sd_issue_cmd: "guar R (sd_issue_cmd hw idx args)"
  unfolding sd_issue_cmd_def check_card_status_def
  by (intro guar_rules guar_access guar_wait guar_serial_log cmd_reg_not_A)

lemma guar_sd_issue_acmd: "guar R (sd_issue_acmd hw idx args rca)"
  unfolding sd_issue_acmd_def
  by (intro guar_rules guar_access guar_sd_issue_cmd guar_serial_log cmd_reg_not_A)

lemma guar_acmd41_loop: "guar R (acmd41_loop hw ts i args k)"
  by (induction k arbitrary: i)
    (auto intro!: guar_rules guar_access guar_sd_issue_acmd guar_timer guar_serial_log cmd_reg_not_A)

lemma guar_set_blkszcnt: "guar R (set_blkszcnt hw sz cnt)"
  unfolding set_blkszcnt_def by (intro guar_access cmd_reg_not_A)

lemma guar_sd_cmds:
  "guar R (sd_issue_cmd8 hw)" "guar R (sd_issue_acmd41 hw)" "guar R (sd_issue_cmd3 hw)"
  "guar R (sd_issue_cmd7 hw rca)" "guar R (sd_issue_cmd13 hw rca)" "guar R (sd_issue_acmd6 hw rca b)"
  unfolding sd_issue_cmd8_def sd_issue_acmd41_def sd_issue_cmd3_def sd_issue_cmd7_def
    sd_issue_cmd13_def sd_issue_acmd6_def Let_def
  by (intro guar_rules guar_access guar_sd_issue_cmd guar_sd_issue_acmd guar_acmd41_loop guar_timer
      guar_serial_log cmd_reg_not_A)+

end

interpretation same_ram: sd_relation same_ram hw "{}" for hw :: "'d hw"
  by unfold_locales simp

interpretation same_card: sd_relation same_card hw "{}" for hw :: "'d hw"
  by unfold_locales simp

interpretation same_except: sd_relation "same_except X" hw "{}" for hw :: "'d hw" and X
  by unfold_locales simp

abbreviation same_data :: "'d machine \<Rightarrow> 'd machine \<Rightarrow> bool" where
  "same_data \<equiv> untouched ({sd_reg DATA} \<inter> sd_page)"

interpretation same_data: sd_relation same_data hw "{sd_reg DATA} \<inter> sd_page" for hw :: "'d hw"
  by unfold_locales simp

section \<open>Waiting for an interrupt\<close>

text \<open>
  A wait that sees a flag ends with the read that saw it and the write that acknowledges
  exactly the flags read; one that sees none has timed out and acknowledges nothing.
\<close>

lemma wait_any_loop_ends:
  "wait_any_loop hw ts k s = (Ret irpt, t) \<Longrightarrow> irpt \<noteq> 0 \<Longrightarrow>
     \<exists>u. irpt = dev_read hw (sd_reg INTERRUPT) u \<and>
         t = after_write hw (sd_reg INTERRUPT) irpt (after_read hw (sd_reg INTERRUPT) u)"
proof (induction k arbitrary: s)
  case (Suc k)
  show ?case
  proof (cases "dev_read hw (sd_reg INTERRUPT) s = 0")
    case True
    then show ?thesis using Suc.prems Suc.IH
      by (auto simp: run_simps bnd_Ret_iff split: if_splits)
  next
    case False
    then show ?thesis using Suc.prems by (auto simp: run_simps)
  qed
qed (simp add: run_simps)

lemma wait_any_ends:
  "sd_wait_for_any_interrupt hw s = (Ret irpt, t) \<Longrightarrow> irpt \<noteq> 0 \<Longrightarrow>
     \<exists>u. irpt = dev_read hw (sd_reg INTERRUPT) u \<and>
         t = after_write hw (sd_reg INTERRUPT) irpt (after_read hw (sd_reg INTERRUPT) u)"
  unfolding sd_wait_for_any_interrupt_def bnd_timer_run by (rule wait_any_loop_ends)

lemma irq_error_bit: "irq_error (interrupt_of w) \<noteq> 0 \<longleftrightarrow> bit w 15"
proof -
  have "getfld 15 1 w = (if bit w 15 then 1 else 0)"
    by (rule bit_word_eqI) (auto simp: bit_getfld bit_1_iff)
  then show ?thesis by (simp add: interrupt_of_def)
qed

lemma wait_result:
  "(if irpt = 0 then bnd (serial_log hw f1 a1) (\<lambda>_. ret CMD_ERROR_WAIT_FOR_INTERRUPT_TIMEOUT)
    else if irq_error (interrupt_of irpt) \<noteq> 0 then bnd (serial_log hw f2 a2) (\<lambda>_. ret CMD_ERROR_INTERRUPT_ERROR)
    else if \<not> (irpt AND m \<noteq> 0) then bnd (serial_log hw f3 a3) (\<lambda>_. ret CMD_ERROR_EXPECTED_INTERRUPT_NOT_TRIGGERED)
    else ret CMD_ERROR_NONE) u = (Ret e, t) \<Longrightarrow>
   e = (if irpt = 0 then CMD_ERROR_WAIT_FOR_INTERRUPT_TIMEOUT
        else if bit irpt 15 then CMD_ERROR_INTERRUPT_ERROR
        else if irpt AND m = 0 then CMD_ERROR_EXPECTED_INTERRUPT_NOT_TRIGGERED
        else CMD_ERROR_NONE) \<and> (e = CMD_ERROR_NONE \<longrightarrow> t = u)"
  by (simp add: irq_error_bit bnd_ret_iff ret_run split: if_splits)

text \<open>How the answer depends on the flags seen.\<close>

lemma wait_classifies:
  assumes "sd_wait_for_interrupt hw m s = (Ret e, t)"
  obtains irpt u where "sd_wait_for_any_interrupt hw s = (Ret irpt, u)"
    and "e = (if irpt = 0 then CMD_ERROR_WAIT_FOR_INTERRUPT_TIMEOUT
              else if bit irpt 15 then CMD_ERROR_INTERRUPT_ERROR
              else if irpt AND m = 0 then CMD_ERROR_EXPECTED_INTERRUPT_NOT_TRIGGERED
              else CMD_ERROR_NONE)"
    and "e = CMD_ERROR_NONE \<Longrightarrow> t = u"
  using assms unfolding sd_wait_for_interrupt_def
  by (elim bnd_RetE) (drule wait_result, blast)

section \<open>What reaches the controller\<close>

text \<open>
  The conversation with the card: writes to the block count, the argument and the command
  register, and reads of the data register, in their order.
\<close>

definition cmd_regs_set :: "addr set" where
  "cmd_regs_set = {sd_reg BLKSIZECNT, sd_reg ARG1, sd_reg CMDTM, sd_reg DATA}"

abbreviation cmd_history :: "'d machine \<Rightarrow> bus_event list" where
  "cmd_history \<equiv> history cmd_regs_set"

lemma cmd_regs_page: "cmd_regs_set \<inter> sd_page = cmd_regs_set"
  using sd_reg_page by (auto simp: cmd_regs_set_def)

lemma cmd_history_guar:
  "guar (untouched (cmd_regs_set \<inter> sd_page)) m \<Longrightarrow> m s = (r, t) \<Longrightarrow> cmd_history t = cmd_history s"
  unfolding cmd_regs_page by (metis guarD untouched_def)

lemma cmd_history_wait:
  "sd_wait_for_interrupt hw m s = (r, t) \<Longrightarrow> cmd_history t = cmd_history s"
  by (rule cmd_history_guar, rule untouched.guar_wait, simp_all add: cmd_regs_set_def)

lemma cmd_history_log: "serial_log hw fmt ap s = (r, t) \<Longrightarrow> cmd_history t = cmd_history s"
  by (rule cmd_history_guar, rule untouched.guar_serial_log)

text \<open>The two writes that issue a command.\<close>

definition issue_events :: "cmd_index \<Rightarrow> u32 \<Rightarrow> bus_event list" where
  "issue_events idx args = [Wr (sd_reg ARG1) args, Wr (sd_reg CMDTM) (command_word idx)]"

text \<open>The command was refused before anything was written to the controller.\<close>

definition refused :: "cmd_error \<Rightarrow> bool" where
  "refused e \<longleftrightarrow> e \<in> {CMD_ERROR_COMMAND_INHIBIT_CMD_BIT_SET, CMD_ERROR_COMMAND_INHIBIT_DAT_BIT_SET}"

lemma check_card_status_history:
  "check_card_status hw idx c e1 u = (Ret e, t) \<Longrightarrow> cmd_history t = cmd_history u"
proof -
  have "guar (untouched (cmd_regs_set \<inter> sd_page)) (check_card_status hw idx c e1)"
    unfolding check_card_status_def
    by (intro untouched.guar_rules untouched.guar_access untouched.guar_serial_log) (simp add: cmd_regs_set_def)
  then show "check_card_status hw idx c e1 u = (Ret e, t) \<Longrightarrow> ?thesis" by (rule cmd_history_guar)
qed

lemma check_card_status_not_refused:
  "check_card_status hw idx c e1 u = (Ret e, t) \<Longrightarrow> \<not> refused e1 \<Longrightarrow> \<not> refused e"
  by (auto simp: check_card_status_def run_simps bnd_ret_iff refused_def split: if_splits)

lemma wait_not_refused: "sd_wait_for_interrupt hw m s = (Ret e, t) \<Longrightarrow> \<not> refused e"
  by (erule wait_classifies) (simp add: refused_def)

lemma sd_issue_cmd_run:
  "sd_issue_cmd hw idx args s =
    (let v = dev_read hw (sd_reg STATUS) s; u = after_read hw (sd_reg STATUS) s; c = command_of idx
     in if v AND STATUS_COMMAND_INHIBIT_CMD \<noteq> 0 then
          bnd (serial_log hw ''SD cmd error: CMD line already set when trying to issue command %s%u''
                 (IDX_SPEC_ARGS idx)) (\<lambda>_. ret CMD_ERROR_COMMAND_INHIBIT_CMD_BIT_SET) u
        else if (cmdtype c = CMD_TYPE_ADTC \<or> response c = CMD_RESPONSE_R1B_NORMAL_BUSY) \<and>
                v AND STATUS_COMMAND_INHIBIT_DAT \<noteq> 0 then
          bnd (serial_log hw ''SD cmd error: command %s%u uses DAT line but DAT line already set''
                 (IDX_SPEC_ARGS idx)) (\<lambda>_. ret CMD_ERROR_COMMAND_INHIBIT_DAT_BIT_SET) u
        else bnd (sd_wait_for_interrupt hw INTERRUPT_CMD_COMPLETE) (check_card_status hw idx c)
               (after_write hw (sd_reg CMDTM) (command_word idx) (after_write hw (sd_reg ARG1) args u)))"
  using get_command_found [of idx] by (simp add: sd_issue_cmd_def run_simps Let_def)

text \<open>How a command ends: refused because of a busy line, or issued.\<close>

lemma sd_issue_cmdE:
  assumes "sd_issue_cmd hw idx args s = (Ret e, t)"
  defines "v \<equiv> dev_read hw (sd_reg STATUS) s"
  obtains
    (cmd) "v AND STATUS_COMMAND_INHIBIT_CMD \<noteq> 0" and "e = CMD_ERROR_COMMAND_INHIBIT_CMD_BIT_SET"
      and "cmd_history t = cmd_history s"
  | (dat) "v AND STATUS_COMMAND_INHIBIT_CMD = 0" and "e = CMD_ERROR_COMMAND_INHIBIT_DAT_BIT_SET"
      and "cmdtype (command_of idx) = CMD_TYPE_ADTC \<or> response (command_of idx) = CMD_RESPONSE_R1B_NORMAL_BUSY"
      and "v AND STATUS_COMMAND_INHIBIT_DAT \<noteq> 0" and "cmd_history t = cmd_history s"
  | (issued) "v AND STATUS_COMMAND_INHIBIT_CMD = 0" and "\<not> refused e"
      and "\<not> ((cmdtype (command_of idx) = CMD_TYPE_ADTC \<or> response (command_of idx) = CMD_RESPONSE_R1B_NORMAL_BUSY) \<and>
        v AND STATUS_COMMAND_INHIBIT_DAT \<noteq> 0)"
      and "cmd_history t = cmd_history s @ issue_events idx args"
proof -
  let ?u = "after_read hw (sd_reg STATUS) s"
  let ?w = "after_write hw (sd_reg CMDTM) (command_word idx) (after_write hw (sd_reg ARG1) args ?u)"
  have h: "cmd_history ?u = cmd_history s" "cmd_history ?w = cmd_history s @ issue_events idx args"
    by (simp_all add: cmd_regs_set_def issue_events_def)
  have log: "cmd_history t = cmd_history s" if "bnd (serial_log hw fmt ap) (\<lambda>_. ret e') ?u = (Ret e, t)" for fmt ap e'
    using that h(1) by (auto simp: bnd_ret_iff dest: cmd_history_log)
  have iss: "\<not> refused e" "cmd_history t = cmd_history s @ issue_events idx args"
    if r: "bnd (sd_wait_for_interrupt hw INTERRUPT_CMD_COMPLETE) (check_card_status hw idx (command_of idx)) ?w = (Ret e, t)"
  proof -
    from r obtain e1 x where w: "sd_wait_for_interrupt hw INTERRUPT_CMD_COMPLETE ?w = (Ret e1, x)"
      and c: "check_card_status hw idx (command_of idx) e1 x = (Ret e, t)" by (rule bnd_RetE)
    show "\<not> refused e" using check_card_status_not_refused [OF c] wait_not_refused [OF w] by blast
    show "cmd_history t = cmd_history s @ issue_events idx args"
      using check_card_status_history [OF c] cmd_history_wait [OF w] h(2) by simp
  qed
  note run = assms(1) [unfolded sd_issue_cmd_run Let_def v_def [symmetric]]
  show ?thesis
  proof (cases "v AND STATUS_COMMAND_INHIBIT_CMD = 0")
    case False
    then show ?thesis using run cmd log by (auto simp: bnd_ret_iff)
  next
    case True
    then show ?thesis using run dat log issued iss by (auto simp: bnd_ret_iff split: if_splits)
  qed
qed

lemma sd_issue_cmd_history:
  assumes "sd_issue_cmd hw idx args s = (Ret e, t)"
  shows "cmd_history t = cmd_history s @ (if refused e then [] else issue_events idx args)"
  using assms by (rule sd_issue_cmdE) (simp_all add: refused_def)

section \<open>Data\<close>

text \<open>
  \<open>loaded a evs ws s t\<close>: between \<open>s\<close> and \<open>t\<close> the conversation with the card is \<open>evs\<close>, RAM has
  changed by the words \<open>ws\<close>, stored from \<open>a\<close> on, and the driver's record of the card is the same.
\<close>

definition loaded :: "addr \<Rightarrow> bus_event list \<Rightarrow> u32 list \<Rightarrow> 'd machine \<Rightarrow> 'd machine \<Rightarrow> bool" where
  "loaded a evs ws s t \<longleftrightarrow>
     cmd_history t = cmd_history s @ evs \<and> ram t = ram_write (ram s) a (words_bytes ws) \<and> sdcard t = sdcard s"

lemma loaded_trans:
  assumes "loaded a evs ws s t" and "loaded (a + of_nat (4 * length ws)) evs' vs t u"
    and "4 * (length ws + length vs) \<le> 2 ^ 32"
  shows "loaded a (evs @ evs') (ws @ vs) s u"
proof -
  let ?b = "words_bytes ws"
  have "ram_write (ram_write (ram s) a ?b) (a + of_nat (length ?b)) (words_bytes vs) =
      ram_write (ram s) a (?b @ words_bytes vs)"
    using assms(3) by (intro ram_write_append) (simp add: length_words)
  then show ?thesis using assms(1,2) by (simp add: loaded_def length_words)
qed

text \<open>Steps that load nothing, before and after one that does.\<close>

lemma loaded_quiet:
  "loaded a [] [] s s"
  "loaded a evs [] s t \<Longrightarrow> loaded a evs' ws t u \<Longrightarrow> loaded a (evs @ evs') ws s u"
  "loaded a evs ws s t \<Longrightarrow> loaded b evs' [] t u \<Longrightarrow> loaded a (evs @ evs') ws s u"
  by (simp_all add: loaded_def)

lemma wait_loaded: "sd_wait_for_interrupt hw m s = (r, t) \<Longrightarrow> loaded a [] [] s t"
  using guarD [OF same_ram.guar_wait(2)] guarD [OF same_card.guar_wait(2)] cmd_history_wait
  by (auto simp: loaded_def same_ram_def same_card_def)

lemma issue_cmd_loaded:
  assumes "sd_issue_cmd hw idx args s = (Ret e, t)"
  shows "loaded a (if refused e then [] else issue_events idx args) [] s t"
  using guarD [OF same_ram.guar_sd_issue_cmd assms] guarD [OF same_card.guar_sd_issue_cmd assms]
    sd_issue_cmd_history [OF assms] by (simp add: loaded_def same_ram_def same_card_def)

text \<open>Words read from the data register.\<close>

abbreviation data_reads :: "u32 list \<Rightarrow> bus_event list" where
  "data_reads ws \<equiv> map (Rd (sd_reg DATA)) ws"

lemma read_data_loads:
  assumes "4 * n \<le> 2 ^ 32"
  shows "\<exists>ws t. read_data hw a n s = (Ret (a + of_nat (4 * n)), t) \<and> length ws = n \<and> loaded a (data_reads ws) ws s t"
  using assms
proof (induction n arbitrary: a s)
  case 0
  then show ?case by (simp add: run_simps loaded_quiet(1))
next
  case (Suc n)
  let ?w = "dev_read hw (sd_reg DATA) s"
  let ?s = "(after_read hw (sd_reg DATA) s)\<lparr>ram := ram_set32 (ram s) a ?w\<rparr>"
  have 1: "loaded a (data_reads [?w]) [?w] s ?s"
    by (simp add: loaded_def ram_set32_write cmd_regs_set_def)
  obtain ws t where t: "read_data hw (a + 4) n ?s = (Ret (a + 4 + of_nat (4 * n)), t)" "length ws = n"
    "loaded (a + 4) (data_reads ws) ws ?s t"
    using Suc.IH [of "a + 4" ?s] Suc.prems by auto
  have "loaded a (data_reads [?w] @ data_reads ws) ([?w] @ ws) s t"
    using Suc.prems t by (intro loaded_trans [OF 1]) simp_all
  then show ?case using t(1,2)
    by (intro exI [of _ "?w # ws"] exI [of _ t]) (simp add: sd_data_addr_eq run_simps add.assoc)
qed

lemma read_blocks_loop_loads:
  assumes "read_blocks_loop hw a n s = (Ret CMD_ERROR_NONE, t)" and "512 * n \<le> 2 ^ 32"
  shows "\<exists>ws. length ws = 128 * n \<and> loaded a (data_reads ws) ws s t"
  using assms
proof (induction n arbitrary: a s)
  case 0
  then have "sd_wait_for_interrupt hw INTERRUPT_TRANSFER_COMPLETE s = (Ret CMD_ERROR_NONE, t)" by simp
  from wait_loaded [OF this] show ?case by (intro exI [of _ "[]"]) simp
next
  case (Suc n)
  then obtain u where w: "sd_wait_for_interrupt hw INTERRUPT_READ_READY s = (Ret CMD_ERROR_NONE, u)"
    and r: "bnd (read_data hw a 128) (\<lambda>r5. read_blocks_loop hw r5 n) u = (Ret CMD_ERROR_NONE, t)"
    by (auto simp: bnd_Ret_iff run_simps SD_BLKSZ_def split: if_splits)
  obtain ws v where v: "read_data hw a 128 u = (Ret (a + of_nat (4 * 128)), v)" "length ws = 128"
    "loaded a (data_reads ws) ws u v"
    using read_data_loads [of 128 hw a u] by auto
  with r have "read_blocks_loop hw (a + of_nat (4 * 128)) n v = (Ret CMD_ERROR_NONE, t)"
    by (simp add: bnd_def)
  then obtain vs where vs: "length vs = 128 * n" "loaded (a + of_nat (4 * 128)) (data_reads vs) vs v t"
    using Suc.IH Suc.prems(2) by auto
  have "loaded a (data_reads ws @ data_reads vs) (ws @ vs) u t"
    using Suc.prems(2) v(2) vs by (intro loaded_trans [OF v(3)]) simp_all
  from loaded_quiet(2) [OF wait_loaded [OF w] this] show ?case
    using v(2) vs(1) by (intro exI [of _ "ws @ vs"]) simp
qed

text \<open>The conversation of a read command that succeeds.\<close>

definition read_events :: "cmd_index \<Rightarrow> u32 \<Rightarrow> nat \<Rightarrow> bus_event list" where
  "read_events idx src n =
     Wr (sd_reg BLKSIZECNT) (of_nat 512 OR push_bit 16 (take_bit 16 (of_nat n))) # issue_events idx src"

lemma set_blkszcnt_run:
  "bnd (set_blkszcnt hw SD_BLKSZ cnt) f s = f () (after_write hw (sd_reg BLKSIZECNT)
     (of_nat 512 OR push_bit 16 (take_bit 16 (of_nat cnt))) s)"
  by (simp add: set_blkszcnt_def run_simps cast_blksizecnt_def blksizecnt_of_def fld_def SD_BLKSZ_def)

lemma read_cmd_loads:
  assumes "sd_issue_read_cmd hw idx a src n s = (Ret CMD_ERROR_NONE, t)" and "512 * n \<le> 2 ^ 32"
  shows "\<exists>ws. length ws = 128 * n \<and> loaded a (read_events idx src n @ data_reads ws) ws s t"
proof -
  let ?w = "of_nat 512 OR push_bit 16 (take_bit 16 (of_nat n)) :: u32"
  let ?s1 = "after_write hw (sd_reg BLKSIZECNT) ?w s"
  obtain u where c: "sd_issue_cmd hw idx src ?s1 = (Ret CMD_ERROR_NONE, u)"
    and r: "read_blocks_loop hw a n u = (Ret CMD_ERROR_NONE, t)"
    using assms(1) by (auto simp: sd_issue_read_cmd_def set_blkszcnt_run bnd_Ret_iff run_simps split: if_splits)
  obtain ws where ws: "length ws = 128 * n" "loaded a (data_reads ws) ws u t"
    using read_blocks_loop_loads [OF r assms(2)] by blast
  have "loaded a (issue_events idx src @ data_reads ws) ws ?s1 t"
    using loaded_quiet(2) [OF issue_cmd_loaded [OF c] ws(2)] by (simp add: refused_def)
  moreover have "loaded a [Wr (sd_reg BLKSIZECNT) ?w] [] s ?s1"
    by (simp add: loaded_def cmd_regs_set_def)
  ultimately have "loaded a (read_events idx src n @ data_reads ws) ws s t"
    using loaded_quiet(2) by (fastforce simp: read_events_def)
  then show ?thesis using ws(1) by blast
qed

end
