(* ===== verification/Sd_Facts.thy ===== *)
theory Sd_Facts
  imports Sd Sd_Cmd_Facts
begin

unbundle bit_operations_syntax

text \<open>
  What a read of blocks does: the commands it gives to the controller, and the words it
  leaves in RAM. A read of more than 65535 blocks is made of chunks, and a chunk of one
  block, of many blocks with CMD23, or of many single blocks, as \<^verbatim>\<open>_sd_read_blocks_card()\<close>
  chooses.
\<close>

section \<open>Waiting for the controller\<close>

interpretation sd_reset_wait: polled_condition
  "sd_sw_reset_hc_bit_set hw" hw "sd_reg CONTROL1" "\<lambda>v. v AND CONTROL1_SW_RESET_HC \<noteq> 0" for hw :: "'d hw"
  by unfold_locales (simp add: sd_sw_reset_hc_bit_set_def run_simps)

interpretation sd_clock_wait: polled_condition
  "sd_internal_clock_not_stable hw" hw "sd_reg CONTROL1" "\<lambda>v. \<not> (v AND CONTROL1_INT_CLK_STABLE \<noteq> 0)" for hw :: "'d hw"
  by unfold_locales (simp add: sd_internal_clock_not_stable_def run_simps)

section \<open>Chunks of a read\<close>

definition sd_src :: "card \<Rightarrow> u32 \<Rightarrow> u32" where
  "sd_src c lba = (if sdhc_or_sdxc c then lba else lba * 512)"

text \<open>The conversation that reads \<open>n\<close> blocks in single block transfers, then in one chunk, then in any number of chunks.\<close>

primrec singles_plan :: "card \<Rightarrow> u32 \<Rightarrow> nat \<Rightarrow> u32 list \<Rightarrow> bus_event list" where
  "singles_plan c lba 0 ws = []"
| "singles_plan c lba (Suc n) ws =
     read_events CMD_IDX_READ_SINGLE_BLOCK (sd_src c lba) 1 @ data_reads (take 128 ws) @
     singles_plan c (lba + 1) n (drop 128 ws)"

definition chunk_plan :: "card \<Rightarrow> u32 \<Rightarrow> nat \<Rightarrow> u32 list \<Rightarrow> bus_event list" where
  "chunk_plan c lba n ws =
     (if n = 1 \<or> \<not> cmd23_supported c then singles_plan c lba n ws
      else issue_events CMD_IDX_SET_BLOCK_COUNT (of_nat n) @
        read_events CMD_IDX_READ_MULTIPLE_BLOCK (sd_src c lba) n @ data_reads ws)"

function read_plan :: "card \<Rightarrow> u32 \<Rightarrow> nat \<Rightarrow> u32 list \<Rightarrow> bus_event list" where
  "read_plan c lba n ws =
     (if n = 0 then []
      else chunk_plan c lba (min n 65535) (take (128 * min n 65535) ws) @
        read_plan c (lba + 65535) (n - 65535) (drop (128 * 65535) ws))"
  by pat_completeness auto
termination
  by (relation "measure (\<lambda>(c, lba, n, ws). n)") auto

declare read_plan.simps [simp del]

lemma single_block_reads_load:
  assumes "single_block_reads hw (sdhc_or_sdxc c) a (sd_src c lba) n s = (Ret (CMD_ERROR_NONE, a', src', n'), t)"
    and "512 * n \<le> 2 ^ 32"
  shows "\<exists>ws. length ws = 128 * n \<and> loaded a (singles_plan c lba n ws) ws s t"
  using assms
proof (induction n arbitrary: a lba s)
  case 0
  then show ?case by (simp add: run_simps loaded_quiet(1))
next
  case (Suc n)
  let ?step = "if sdhc_or_sdxc c then 1 else 512 :: u32"
  have src: "sd_src c lba + ?step = sd_src c (lba + 1)" by (simp add: sd_src_def distrib_right)
  from Suc.prems(1) obtain u where c: "sd_issue_cmd17 hw a (sd_src c lba) s = (Ret CMD_ERROR_NONE, u)"
    and r: "single_block_reads hw (sdhc_or_sdxc c) (a + 512) (sd_src c (lba + 1)) n u = (Ret (CMD_ERROR_NONE, a', src', n'), t)"
    unfolding src [symmetric] by (auto simp: bnd_Ret_iff run_simps SD_BLKSZ_def split: if_splits)
  obtain ws where ws: "length ws = 128"
    "loaded a (read_events CMD_IDX_READ_SINGLE_BLOCK (sd_src c lba) 1 @ data_reads ws) ws s u"
    using read_cmd_loads [OF c [unfolded sd_issue_cmd17_def]] by auto
  obtain vs where vs: "length vs = 128 * n" "loaded (a + 512) (singles_plan c (lba + 1) n vs) vs u t"
    using Suc.IH [OF r] Suc.prems(2) by auto
  have "loaded a ((read_events CMD_IDX_READ_SINGLE_BLOCK (sd_src c lba) 1 @ data_reads ws) @ singles_plan c (lba + 1) n vs)
      (ws @ vs) s t"
    using Suc.prems(2) ws vs by (intro loaded_trans [OF ws(2)]) simp_all
  then show ?case using ws(1) vs(1) by (intro exI [of _ "ws @ vs"]) simp
qed

lemma read_chunk:
  assumes "sd_read_blocks_card_16 hw a lba (of_nat n) s = (Ret True, t)" and "0 < n" and "n \<le> 65535"
  shows "\<exists>ws. length ws = 128 * n \<and> loaded a (chunk_plan (sdcard s) lba n ws) ws s t"
proof -
  let ?c = "sdcard s" and ?src = "sd_src (sdcard s) lba"
  have un: "unat (of_nat n :: u16) = n" using assms(3) by (simp add: unat_of_nat take_bit_nat_eq_self)
  have n1: "(of_nat n :: u16) = 1 \<longleftrightarrow> n = 1" "(1 :: u16) < of_nat n \<longleftrightarrow> 1 < n"
    using un by (metis unat_1 word_unat_eq_iff, simp add: word_less_nat_alt)
  have uc: "(ucast (of_nat n :: u16) :: u32) = of_nat n" using un by (metis of_nat_unat)
  have src: "(if \<not> sdhc_or_sdxc ?c then lba * of_nat SD_BLKSZ else lba) = ?src"
    by (simp add: sd_src_def SD_BLKSZ_def)
  have big: "512 * n \<le> 2 ^ 32" using assms(3) by simp
  obtain d r k where "transfer_blocks hw ?c a ?src (of_nat n) s = (Ret (CMD_ERROR_NONE, d, r, k), t)"
    using assms(1) unfolding sd_read_blocks_card_16_def
    by (auto simp: run_simps bnd_ret_iff src elim!: bnd_RetE split: if_splits)
  note p = this [unfolded transfer_blocks_def un n1 uc]
  consider (one) "n = 1" | (multi) "1 < n" "cmd23_supported ?c" | (singles) "1 < n" "\<not> cmd23_supported ?c"
    using assms(2) by linarith
  then show ?thesis
  proof cases
    case one
    then have "sd_issue_cmd17 hw a ?src s = (Ret CMD_ERROR_NONE, t)" using p by (auto simp: bnd_Ret_iff run_simps)
    from read_cmd_loads [OF this [unfolded sd_issue_cmd17_def]] show ?thesis
      using one by (auto simp: chunk_plan_def)
  next
    case multi
    then obtain v where v: "sd_issue_cmd hw CMD_IDX_SET_BLOCK_COUNT (of_nat n) s = (Ret CMD_ERROR_NONE, v)"
      and w: "sd_issue_read_cmd hw CMD_IDX_READ_MULTIPLE_BLOCK a ?src n v = (Ret CMD_ERROR_NONE, t)"
      using p by (auto simp: bnd_Ret_iff run_simps sd_issue_cmd18_def split: if_splits)
    obtain ws where ws: "length ws = 128 * n"
      "loaded a (read_events CMD_IDX_READ_MULTIPLE_BLOCK ?src n @ data_reads ws) ws v t"
      using read_cmd_loads [OF w big] by blast
    have "loaded a (chunk_plan ?c lba n ws) ws s t"
      using loaded_quiet(2) [OF issue_cmd_loaded [OF v] ws(2)] multi by (simp add: chunk_plan_def refused_def)
    then show ?thesis using ws(1) by blast
  next
    case singles
    then have "single_block_reads hw (sdhc_or_sdxc ?c) a ?src n s = (Ret (CMD_ERROR_NONE, d, r, k), t)" using p by simp
    from single_block_reads_load [OF this big] show ?thesis using singles by (simp add: chunk_plan_def)
  qed
qed

lemma read_blocks_load:
  assumes "sd_read_blocks_card hw a lba (int n) s = (Ret True, t)" and "512 * n \<le> 2 ^ 32"
  shows "\<exists>ws. length ws = 128 * n \<and> loaded a (read_plan (sdcard s) lba n ws) ws s t"
  using assms
proof (induction n arbitrary: a lba s rule: less_induct)
  case (less n)
  show ?case
  proof (cases "n = 0")
    case True
    then show ?thesis using less.prems(1)
      by (simp add: sd_read_blocks_card.simps run_simps loaded_quiet(1) read_plan.simps)
  next
    case False
    define m where "m = min n 65535"
    have m: "0 < m" "m \<le> 65535" using False by (simp_all add: m_def)
    have arg: "of_int (if int n < UINT16_MAX then int n else UINT16_MAX) = (of_nat m :: u16)"
      by (simp add: UINT16_MAX_def m_def min_def)
    obtain u where c: "sd_read_blocks_card_16 hw a lba (of_nat m) s = (Ret True, u)"
      and r: "sd_read_blocks_card hw (a + of_int (int SD_BLKSZ * UINT16_MAX)) (lba + of_int UINT16_MAX) (int n - UINT16_MAX) u = (Ret True, t)"
      using less.prems(1) False
      by (subst (asm) sd_read_blocks_card.simps) (auto simp: arg bnd_Ret_iff run_simps split: if_splits)
    obtain ws where ws: "length ws = 128 * m" "loaded a (chunk_plan (sdcard s) lba m ws) ws s u"
      using read_chunk [OF c m] by blast
    have card: "sdcard u = sdcard s" using ws(2) by (simp add: loaded_def)
    show ?thesis
    proof (cases "n < 65535")
      case True
      then have "int n - UINT16_MAX \<le> 0" by (simp add: UINT16_MAX_def)
      then have "t = u" using r by (simp add: sd_read_blocks_card.simps run_simps)
      moreover have "m = n" "n - 65535 = 0" using True by (simp_all add: m_def)
      ultimately show ?thesis using ws False
        by (subst read_plan.simps) (auto simp: read_plan.simps [of _ _ 0] intro!: exI [of _ ws])
    next
      case ge: False
      then have mn: "m = 65535" and k: "int n - UINT16_MAX = int (n - 65535)" "n - 65535 < n"
        using False by (simp_all add: m_def UINT16_MAX_def)
      have b: "512 * (n - 65535) \<le> 2 ^ 32" using less.prems(2) by linarith
      obtain vs where vs: "length vs = 128 * (n - 65535)"
        "loaded (a + of_int (int SD_BLKSZ * UINT16_MAX)) (read_plan (sdcard s) (lba + of_int UINT16_MAX) (n - 65535) vs) vs u t"
        using less.IH [OF k(2) r [unfolded k(1)] b] card by auto
      have "loaded a (chunk_plan (sdcard s) lba m ws @ read_plan (sdcard s) (lba + of_int UINT16_MAX) (n - 65535) vs) (ws @ vs) s t"
        using less.prems(2) ws(1) vs(1,2) mn ge
        by (intro loaded_trans [OF ws(2)]) (simp_all add: SD_BLKSZ_def UINT16_MAX_def)
      moreover have "read_plan (sdcard s) lba n (ws @ vs) =
          chunk_plan (sdcard s) lba m ws @ read_plan (sdcard s) (lba + of_int UINT16_MAX) (n - 65535) vs"
        using ws(1) mn False m_def by (subst read_plan.simps) (simp add: UINT16_MAX_def)
      ultimately show ?thesis using ws(1) vs(1) mn ge by (intro exI [of _ "ws @ vs"]) simp
    qed
  qed
qed

end
