(* ===== verification/Sd_Card.thy ===== *)
theory Sd_Card
  imports Sd_Facts
begin

unbundle bit_operations_syntax

text \<open>
  The other end of the wire: what the SD specification promises of a card and its host
  controller, as far as the driver uses it. First what a card says when it is read: the words
  that come out of the data register after a read command are the words of the card from
  the address of the command on. Then a reference controller, with which the driver's
  operations are shown to succeed.
\<close>

section \<open>Contents\<close>

type_synonym disk = "nat \<Rightarrow> u8"

definition disk_bytes :: "disk \<Rightarrow> nat \<Rightarrow> nat \<Rightarrow> u8 list" where
  "disk_bytes d p n = map d [p..<p + n]"

definition disk_word :: "disk \<Rightarrow> nat \<Rightarrow> u32" where
  "disk_word d p = le32 (d p) (d (p + 1)) (d (p + 2)) (d (p + 3))"

definition disk_words :: "disk \<Rightarrow> nat \<Rightarrow> nat \<Rightarrow> u32 list" where
  "disk_words d p n = map (\<lambda>i. disk_word d (p + 4 * i)) [0..<n]"

lemma length_disk [simp]: "length (disk_bytes d p n) = n" "length (disk_words d p n) = n"
  by (simp_all add: disk_bytes_def disk_words_def)

lemma disk_words_Suc: "disk_words d p (Suc n) = disk_word d p # disk_words d (p + 4) n"
  by (simp add: disk_words_def upt_conv_Cons map_Suc_upt [symmetric] algebra_simps del: upt_Suc)

lemma disk_words_add: "disk_words d p (m + n) = disk_words d p m @ disk_words d (p + 4 * m) n"
proof -
  have "map (\<lambda>i. disk_word d (p + 4 * i)) [m..<m + n] = disk_words d (p + 4 * m) n"
    by (rule nth_equalityI) (simp_all add: disk_words_def add.assoc)
  then show ?thesis using upt_add_eq_append [of 0 m n] by (simp add: disk_words_def)
qed

lemma disk_bytes_add: "disk_bytes d p (m + n) = disk_bytes d p m @ disk_bytes d (p + m) n"
  using upt_add_eq_append [of p "p + m" n] by (simp add: disk_bytes_def add.assoc)

lemma words_bytes_disk: "words_bytes (disk_words d p n) = disk_bytes d p (4 * n)"
proof (induction n arbitrary: p)
  case (Suc n)
  have "disk_bytes d p 4 = bytes32 (disk_word d p)"
    by (simp add: disk_bytes_def disk_word_def upt_conv_Cons eval_nat_numeral)
  with Suc show ?case using disk_bytes_add [of d p 4 "4 * n"] by (simp add: disk_words_Suc)
qed (simp add: disk_words_def disk_bytes_def)

section \<open>What a card says\<close>

text \<open>
  The state of a reading: the argument register and, after a read command, the byte
  address of the next word. A card of high capacity is addressed by block, others by byte.
\<close>

type_synonym reading = "u32 \<times> nat option"

definition card_addr :: "bool \<Rightarrow> u32 \<Rightarrow> nat" where
  "card_addr hc arg = (if hc then 512 * unat arg else unat arg)"

fun reading_step :: "bool \<Rightarrow> reading \<Rightarrow> bus_event \<Rightarrow> reading" where
  "reading_step hc (arg, pos) (Wr a v) =
     (if a = sd_reg ARG1 then (v, pos)
      else if a = sd_reg CMDTM then
        (arg, if v = command_word CMD_IDX_READ_SINGLE_BLOCK \<or> v = command_word CMD_IDX_READ_MULTIPLE_BLOCK
              then Some (card_addr hc arg) else None)
      else (arg, pos))"
| "reading_step hc (arg, pos) (Rd a v) = (arg, if a = sd_reg DATA then map_option ((+) 4) pos else pos)"

fun card_says :: "disk \<Rightarrow> reading \<Rightarrow> bus_event \<Rightarrow> bool" where
  "card_says d (arg, pos) (Wr a v) = True"
| "card_says d (arg, pos) (Rd a v) = (a = sd_reg DATA \<longrightarrow> (case pos of None \<Rightarrow> True | Some p \<Rightarrow> v = disk_word d p))"

primrec faithful :: "bool \<Rightarrow> disk \<Rightarrow> reading \<Rightarrow> bus_event list \<Rightarrow> bool" where
  "faithful hc d r [] = True"
| "faithful hc d r (e # es) = (card_says d r e \<and> faithful hc d (reading_step hc r e) es)"

lemma faithful_append:
  "faithful hc d r (xs @ ys) \<longleftrightarrow> faithful hc d r xs \<and> faithful hc d (foldl (reading_step hc) r xs) ys"
  by (induction xs arbitrary: r) auto

lemma faithful_suffix: "faithful hc d r (xs @ ys) \<Longrightarrow> \<exists>r'. faithful hc d r' ys"
  unfolding faithful_append by blast

lemma faithful_data_reads:
  "faithful hc d (arg, Some p) (data_reads ws) \<Longrightarrow> ws = disk_words d p (length ws)"
proof (induction ws arbitrary: p)
  case (Cons w ws)
  then show ?case by (simp add: disk_words_Suc) (metis add.commute)
qed (simp add: disk_words_def)

lemma faithful_read:
  assumes "faithful hc d r (read_events idx src n @ data_reads ws)"
    and "idx = CMD_IDX_READ_SINGLE_BLOCK \<or> idx = CMD_IDX_READ_MULTIPLE_BLOCK"
  shows "ws = disk_words d (card_addr hc src) (length ws)"
proof -
  obtain arg pos where r: "r = (arg, pos)" by (cases r)
  have "foldl (reading_step hc) r (read_events idx src n) = (src, Some (card_addr hc src))"
    using assms(2) by (auto simp: r read_events_def issue_events_def)
  then show ?thesis using assms(1) faithful_data_reads by (auto simp: faithful_append)
qed

section \<open>The contents of a read\<close>

text \<open>Blocks within the reach of the command argument.\<close>

definition within_card :: "bool \<Rightarrow> nat \<Rightarrow> bool" where
  "within_card hc blk \<longleftrightarrow> blk \<le> (if hc then 2 ^ 32 else 2 ^ 23)"

lemma card_addr_sd_src:
  assumes "within_card (sdhc_or_sdxc c) (unat lba + n)" and "0 < n"
  shows "card_addr (sdhc_or_sdxc c) (sd_src c lba) = 512 * unat lba"
proof (cases "sdhc_or_sdxc c")
  case False
  have "unat lba * 512 < 2 ^ 32" using assms False by (simp add: within_card_def)
  then have "unat (lba * 512) = unat lba * 512"
    using unat_mult_lem [of lba 512] by simp
  then show ?thesis using False by (simp add: card_addr_def sd_src_def)
qed (simp add: card_addr_def sd_src_def)

lemma unat_lba_add:
  assumes "within_card hc (unat (lba :: u32) + n)" and "m < n"
  shows "unat (lba + of_nat m) = unat lba + m"
proof -
  have "unat lba + m < 2 ^ 32" using assms by (auto simp: within_card_def split: if_splits)
  moreover from this have "unat (of_nat m :: u32) = m" by (intro unat_of_nat_lt) linarith
  ultimately show ?thesis using unat_add_lem [of lba "of_nat m"] by simp
qed

lemma faithful_singles:
  assumes "faithful (sdhc_or_sdxc c) d r (singles_plan c lba n ws)" and "length ws = 128 * n"
    and "within_card (sdhc_or_sdxc c) (unat lba + n)"
  shows "ws = disk_words d (512 * unat lba) (128 * n)"
  using assms
proof (induction n arbitrary: r lba ws)
  case 0
  then show ?case by (simp add: disk_words_def)
next
  case (Suc n)
  have "faithful (sdhc_or_sdxc c) d r (read_events CMD_IDX_READ_SINGLE_BLOCK (sd_src c lba) 1 @ data_reads (take 128 ws))"
    using Suc.prems(1) by (simp add: faithful_append)
  then have 1: "take 128 ws = disk_words d (512 * unat lba) 128"
    using Suc.prems(2) card_addr_sd_src [OF Suc.prems(3)] by (auto dest: faithful_read)
  have "drop 128 ws = disk_words d (512 * (unat lba + 1)) (128 * n)"
  proof (cases "n = 0")
    case True
    then show ?thesis using Suc.prems(2) by (simp add: disk_words_def)
  next
    case False
    then have lba: "unat (lba + 1) = unat lba + 1"
      using unat_lba_add [OF Suc.prems(3), of 1] by simp
    obtain r' where "faithful (sdhc_or_sdxc c) d r' (singles_plan c (lba + 1) n (drop 128 ws))"
      using faithful_suffix Suc.prems(1) unfolding singles_plan.simps append_assoc [symmetric] by blast
    then show ?thesis using Suc.IH [of r' "lba + 1" "drop 128 ws"] Suc.prems(2,3) lba by simp
  qed
  with 1 have "ws = disk_words d (512 * unat lba) 128 @ disk_words d (512 * unat lba + 4 * 128) (128 * n)"
    using append_take_drop_id [of 128 ws] by (simp add: distrib_left add.commute)
  then show ?case using disk_words_add [of d "512 * unat lba" 128 "128 * n"] by simp
qed

lemma faithful_chunk:
  assumes "faithful (sdhc_or_sdxc c) d r (chunk_plan c lba n ws)" and "length ws = 128 * n" and "0 < n"
    and "within_card (sdhc_or_sdxc c) (unat lba + n)"
  shows "ws = disk_words d (512 * unat lba) (128 * n)"
proof (cases "n = 1 \<or> \<not> cmd23_supported c")
  case True
  then have "faithful (sdhc_or_sdxc c) d r (singles_plan c lba n ws)"
    using assms(1) by (auto simp: chunk_plan_def split: if_splits)
  from faithful_singles [OF this assms(2,4)] show ?thesis .
next
  case False
  then obtain r' where "faithful (sdhc_or_sdxc c) d r' (read_events CMD_IDX_READ_MULTIPLE_BLOCK (sd_src c lba) n @ data_reads ws)"
    using faithful_suffix [of _ d r "issue_events CMD_IDX_SET_BLOCK_COUNT (of_nat n)"] assms(1)
    unfolding chunk_plan_def by fastforce
  then show ?thesis using faithful_read assms(2) card_addr_sd_src [OF assms(4,3)] by metis
qed

lemma faithful_plan:
  assumes "faithful (sdhc_or_sdxc c) d r (read_plan c lba n ws)" and "length ws = 128 * n"
    and "within_card (sdhc_or_sdxc c) (unat lba + n)"
  shows "ws = disk_words d (512 * unat lba) (128 * n)"
  using assms
proof (induction n arbitrary: r lba ws rule: less_induct)
  case (less n)
  show ?case
  proof (cases "n \<le> 65535")
    case True
    then show ?thesis
      using less.prems faithful_chunk [of c d r lba n ws]
      by (cases "n = 0") (simp_all add: read_plan.simps [of _ _ n] read_plan.simps [of _ _ 0] disk_words_def [of _ _ 0])
  next
    case False
    let ?m = 65535 and ?ws = "take (128 * 65535) ws" and ?vs = "drop (128 * 65535) ws"
    have p: "read_plan c lba n ws = chunk_plan c lba ?m ?ws @ read_plan c (lba + 65535) (n - ?m) ?vs"
      using False by (subst read_plan.simps) simp
    have w: "within_card (sdhc_or_sdxc c) (unat lba + ?m)" using less.prems(3) False
      by (auto simp: within_card_def split: if_splits)
    have lba: "unat (lba + 65535) = unat lba + ?m" using unat_lba_add [OF less.prems(3), of ?m] False by simp
    have "?ws = disk_words d (512 * unat lba) (128 * ?m)"
      using less.prems(1,2) False by (intro faithful_chunk [of c d r, OF _ _ _ w]) (simp_all add: p faithful_append)
    moreover have "?vs = disk_words d (512 * unat (lba + 65535)) (128 * (n - ?m))"
      using less.prems False lba
      by (intro less.IH [of "n - ?m" "foldl (reading_step (sdhc_or_sdxc c)) r (chunk_plan c lba ?m ?ws)"])
        (simp_all add: p faithful_append)
    ultimately have "ws = disk_words d (512 * unat lba) (128 * ?m) @
        disk_words d (512 * unat lba + 4 * (128 * ?m)) (128 * (n - ?m))"
      using append_take_drop_id [of "128 * 65535" ws] lba by (simp add: distrib_left)
    moreover have "128 * ?m + 128 * (n - ?m) = 128 * n" using False by simp
    ultimately show ?thesis
      using disk_words_add [of d "512 * unat lba" "128 * ?m" "128 * (n - ?m)"] by simp
  qed
qed

lemma read_blocks_content:
  assumes "sd_read_blocks hw a lba (int n) s = (Ret True, t)" and "512 * n \<le> 2 ^ 32"
    and "faithful (sdhc_or_sdxc (sdcard s)) d r (cmd_history t)"
    and "within_card (sdhc_or_sdxc (sdcard s)) (unat lba + n)"
  shows "ram t = ram_write (ram s) a (disk_bytes d (512 * unat lba) (512 * n)) \<and> sdcard t = sdcard s"
proof -
  obtain ws where ws: "length ws = 128 * n" "loaded a (read_plan (sdcard s) lba n ws) ws s t"
    using read_blocks_load [OF assms(1) [unfolded sd_read_blocks_def] assms(2)] by blast
  have "ws = disk_words d (512 * unat lba) (128 * n)"
    using faithful_plan [OF _ ws(1) assms(4)] faithful_suffix assms(3) ws(2) by (metis loaded_def)
  then show ?thesis using ws(2) words_bytes_disk [of d _ "128 * n"] by (simp add: loaded_def)
qed

end
