(* ===== verification/Image_Spec.thy ===== *)
theory Image_Spec
  imports Sd_Card
begin

text \<open>
  The image format as a specification that the imager and the loader share: a head that fills one
  block, then the items one after another, each an identifier, the size of its data and the
  data. The items of a well-formed image are whole blocks.
\<close>

definition item_bytes :: "item_id \<Rightarrow> u8 list \<Rightarrow> u8 list" where
  "item_bytes i data = bytes32 (item_id_value i) @ bytes32 (of_nat (length data)) @ data"

definition whole_blocks :: "u8 list \<Rightarrow> bool" where
  "whole_blocks data \<longleftrightarrow> (8 + length data) mod 512 = 0 \<and> 8 + length data < 2 ^ 31"

definition image_size :: "u8 list \<Rightarrow> u8 list \<Rightarrow> u8 list \<Rightarrow> nat" where
  "image_size k d e = 512 + (8 + length k) + (8 + length d) + (8 + length e)"

definition image_bytes :: "u8 list \<Rightarrow> u8 list \<Rightarrow> u8 list \<Rightarrow> u8 list \<Rightarrow> u8 list" where
  "image_bytes pad k d e = bytes32 IMG_MAGIC @ bytes32 (of_nat (image_size k d e)) @ pad @
     item_bytes ITEM_ID_KERNEL k @ item_bytes ITEM_ID_DEVICE_TREE_BLOB d @ item_bytes ITEM_ID_END e"

definition image_wf :: "u8 list \<Rightarrow> u8 list \<Rightarrow> u8 list \<Rightarrow> u8 list \<Rightarrow> bool" where
  "image_wf pad k d e \<longleftrightarrow> length pad = 504 \<and> whole_blocks k \<and> whole_blocks d \<and> whole_blocks e \<and> image_size k d e < 2 ^ 32"

lemma length_item_bytes [simp]: "length (item_bytes i data) = 8 + length data"
  by (simp add: item_bytes_def)

lemma length_image_bytes: "length pad = 504 \<Longrightarrow> length (image_bytes pad k d e) = image_size k d e"
  by (simp add: image_bytes_def image_size_def)

lemma whole_blocks_div:
  assumes "whole_blocks data"
  shows "512 * ((8 + length data) div 512) = 8 + length data" and "0 < (8 + length data) div 512"
proof -
  show *: "512 * ((8 + length data) div 512) = 8 + length data"
    using assms mult_div_mod_eq [of 512 "8 + length data"] by (simp add: whole_blocks_def)
  show "0 < (8 + length data) div 512" using * by (cases "(8 + length data) div 512") auto
qed

text \<open>Parts of a disk.\<close>

lemma disk_bytes_slice: "k + n \<le> m \<Longrightarrow> disk_bytes d (p + k) n = take n (drop k (disk_bytes d p m))"
  by (rule nth_equalityI) (simp_all add: disk_bytes_def add.assoc)

lemma disk_bytes_parts:
  assumes "disk_bytes d p (length (xs @ ys @ zs)) = xs @ ys @ zs"
  shows "disk_bytes d (p + length xs) (length ys) = ys"
  using assms by (subst disk_bytes_slice [where m = "length (xs @ ys @ zs)"]) simp_all

lemma image_on_disk:
  assumes "disk_bytes d p (image_size k dt e) = image_bytes pad k dt e" and "length pad = 504"
  shows "disk_bytes d p 512 = bytes32 IMG_MAGIC @ bytes32 (of_nat (image_size k dt e)) @ pad"
    and "disk_bytes d (p + 512) (8 + length k) = item_bytes ITEM_ID_KERNEL k"
    and "disk_bytes d (p + 512 + (8 + length k)) (8 + length dt) = item_bytes ITEM_ID_DEVICE_TREE_BLOB dt"
    and "disk_bytes d (p + 512 + (8 + length k) + (8 + length dt)) (8 + length e) = item_bytes ITEM_ID_END e"
proof -
  let ?h = "bytes32 IMG_MAGIC @ bytes32 (of_nat (image_size k dt e)) @ pad"
  let ?k = "item_bytes ITEM_ID_KERNEL k" and ?d = "item_bytes ITEM_ID_DEVICE_TREE_BLOB dt" and ?e = "item_bytes ITEM_ID_END e"
  have h: "length ?h = 512" using assms(2) by simp
  have all: "disk_bytes d p (length (?h @ ?k @ ?d @ ?e)) = ?h @ ?k @ ?d @ ?e"
    using assms h by (simp add: image_bytes_def image_size_def add.assoc)
  show "disk_bytes d p 512 = ?h" using disk_bytes_parts [of d p "[]" ?h "?k @ ?d @ ?e"] all h by (simp del: length_append)
  show "disk_bytes d (p + 512) (8 + length k) = ?k"
    using disk_bytes_parts [of d p ?h ?k "?d @ ?e"] all h by simp
  show "disk_bytes d (p + 512 + (8 + length k)) (8 + length dt) = ?d"
    using disk_bytes_parts [of d p "?h @ ?k" ?d ?e] all h by (simp add: add.assoc)
  show "disk_bytes d (p + 512 + (8 + length k) + (8 + length dt)) (8 + length e) = ?e"
    using disk_bytes_parts [of d p "?h @ ?k @ ?d" ?e "[]"] all h by (simp add: add.assoc)
qed

end
