(* ===== verification/Total.thy ===== *)
theory Total
  imports Machine
begin

text \<open>
  Total correctness of programs: a triple that says a program returns, with which result and in
  what kind of state, and one rule for each way programs are put together.
\<close>

text \<open>\<open>gives m s x P\<close>: \<open>m\<close> returns \<open>x\<close> from \<open>s\<close>, in a state that satisfies \<open>P\<close>.\<close>

definition gives :: "('s, 'a) prog \<Rightarrow> 's \<Rightarrow> 'a \<Rightarrow> ('s \<Rightarrow> bool) \<Rightarrow> bool" where
  "gives m s x P \<longleftrightarrow> (\<exists>t. m s = (Ret x, t) \<and> P t)"

lemma givesE:
  assumes "gives m s x P"
  obtains t where "m s = (Ret x, t)" and "P t"
  using assms by (auto simp: gives_def)

lemma gives_bnd: "gives m s x P \<Longrightarrow> (\<And>t. P t \<Longrightarrow> gives (f x) t y Q) \<Longrightarrow> gives (bnd m f) s y Q"
  unfolding gives_def bnd_def by fastforce

lemma gives_ret: "P s \<Longrightarrow> gives (ret x) s x P"
  by (simp add: gives_def ret_run)

lemma gives_gets: "P s \<Longrightarrow> f s = x \<Longrightarrow> gives (gets f) s x P"
  by (simp add: gives_def gets_run)

lemma gives_skip: "\<not> b \<Longrightarrow> P s \<Longrightarrow> gives (when_io b m) s () P"
  by (simp add: gives_def when_io_run)

lemma gives_weaken: "gives m s x P \<Longrightarrow> (\<And>t. P t \<Longrightarrow> Q t) \<Longrightarrow> gives m s x Q"
  by (auto simp: gives_def)

end
