(* ===== verification/Imager_Facts.thy ===== *)
theory Imager_Facts
  imports Imager Image_Spec Total
begin

unbundle bit_operations_syntax

text \<open>
  The imager on a system that works as its manual pages say: it writes to the partition the image
  that \<open>Image_Spec\<close> describes, with the two files padded to whole blocks as its items.
\<close>

section \<open>A system that works\<close>

text \<open>
  \<open>contents\<close> gives the files; \<open>unread o fd\<close> is what is left to read of an open file, \<open>written o fd\<close>
  what has been written to it. Reads and writes may transfer less than they are asked to, but make
  progress; the file does not change while it is read, and memory is not exhausted.
\<close>

definition os_opens :: "'o os \<Rightarrow> (string \<Rightarrow> u8 list option) \<Rightarrow> ('o \<Rightarrow> int \<Rightarrow> u8 list) \<Rightarrow> ('o \<Rightarrow> int \<Rightarrow> u8 list) \<Rightarrow> bool" where
  "os_opens os contents unread written \<longleftrightarrow>
     (\<forall>path bs o1. contents path = Some bs \<longrightarrow>
        (\<exists>fd o2. os_open os path False o1 = (fd, o2) \<and> fd \<noteq> -1 \<and> unread o2 fd = bs)) \<and>
     (\<forall>path o1. \<exists>fd o2. os_open os path True o1 = (fd, o2) \<and> fd \<noteq> -1 \<and> written o2 fd = []) \<and>
     (\<forall>fd o1. written (os_close os fd o1) fd = written o1 fd)"

definition os_reads :: "'o os \<Rightarrow> ('o \<Rightarrow> int \<Rightarrow> u8 list) \<Rightarrow> bool" where
  "os_reads os unread \<longleftrightarrow>
     (\<forall>fd o1. \<exists>o2. os_fstat os fd o1 = (Some (int (length (unread o1 fd))), o2) \<and> unread o2 fd = unread o1 fd) \<and>
     (\<forall>fd n o1. 0 < n \<longrightarrow> (\<exists>k o2. os_read os fd n o1 = ((int k, take k (unread o1 fd)), o2) \<and> k \<le> n \<and>
        k \<le> length (unread o1 fd) \<and> (k = 0 \<longrightarrow> unread o1 fd = []) \<and> unread o2 fd = drop k (unread o1 fd)))"

definition os_allocates :: "'o os \<Rightarrow> ('o \<Rightarrow> int \<Rightarrow> u8 list) \<Rightarrow> bool" where
  "os_allocates os unread \<longleftrightarrow>
     (\<forall>n o1. 0 < n \<longrightarrow> (\<exists>mem o2. os_malloc os n o1 = (Some mem, o2) \<and> length mem = n \<and> (\<forall>fd. unread o2 fd = unread o1 fd))) \<and>
     (\<forall>mem n o1. length mem \<le> n \<and> 0 < n \<longrightarrow>
        (\<exists>ext o2. os_realloc os mem n o1 = (Some (mem @ ext), o2) \<and> length (mem @ ext) = n))"

definition os_writes :: "'o os \<Rightarrow> ('o \<Rightarrow> int \<Rightarrow> u8 list) \<Rightarrow> bool" where
  "os_writes os written \<longleftrightarrow>
     (\<forall>fd bs o1. bs \<noteq> [] \<longrightarrow> (\<exists>k o2. os_write os fd bs o1 = (int k, o2) \<and> 0 < k \<and> k \<le> length bs \<and>
        written o2 fd = written o1 fd @ take k bs))"

definition os_works :: "'o os \<Rightarrow> (string \<Rightarrow> u8 list option) \<Rightarrow> ('o \<Rightarrow> int \<Rightarrow> u8 list) \<Rightarrow> ('o \<Rightarrow> int \<Rightarrow> u8 list) \<Rightarrow> bool" where
  "os_works os contents unread written \<longleftrightarrow>
     os_opens os contents unread written \<and> os_reads os unread \<and> os_allocates os unread \<and> os_writes os written"

lemma os_worksD:
  assumes "os_works os contents unread written"
  shows "contents path = Some bs \<Longrightarrow> \<exists>fd o2. os_open os path False o1 = (fd, o2) \<and> fd \<noteq> -1 \<and> unread o2 fd = bs"
    and "\<exists>fd o2. os_open os path True o1 = (fd, o2) \<and> fd \<noteq> -1 \<and> written o2 fd = []"
    and "written (os_close os fd o1) fd = written o1 fd"
    and "\<exists>o2. os_fstat os fd o1 = (Some (int (length (unread o1 fd))), o2) \<and> unread o2 fd = unread o1 fd"
    and "0 < n \<Longrightarrow> \<exists>k o2. os_read os fd n o1 = ((int k, take k (unread o1 fd)), o2) \<and> k \<le> n \<and>
        k \<le> length (unread o1 fd) \<and> (k = 0 \<longrightarrow> unread o1 fd = []) \<and> unread o2 fd = drop k (unread o1 fd)"
    and "0 < n \<Longrightarrow> \<exists>mem o2. os_malloc os n o1 = (Some mem, o2) \<and> length mem = n \<and> (\<forall>fd. unread o2 fd = unread o1 fd)"
    and "length m \<le> n \<Longrightarrow> 0 < n \<Longrightarrow> \<exists>ext o2. os_realloc os m n o1 = (Some (m @ ext), o2) \<and> length (m @ ext) = n"
    and "ws \<noteq> [] \<Longrightarrow> \<exists>k o2. os_write os fd ws o1 = (int k, o2) \<and> 0 < k \<and> k \<le> length ws \<and> written o2 fd = written o1 fd @ take k ws"
proof -
  have w: "os_opens os contents unread written" "os_reads os unread" "os_allocates os unread" "os_writes os written"
    using assms by (simp_all add: os_works_def)
  show "contents path = Some bs \<Longrightarrow> \<exists>fd o2. os_open os path False o1 = (fd, o2) \<and> fd \<noteq> -1 \<and> unread o2 fd = bs"
    and "\<exists>fd o2. os_open os path True o1 = (fd, o2) \<and> fd \<noteq> -1 \<and> written o2 fd = []"
    and "written (os_close os fd o1) fd = written o1 fd"
    using w(1) unfolding os_opens_def by blast+
  show "\<exists>o2. os_fstat os fd o1 = (Some (int (length (unread o1 fd))), o2) \<and> unread o2 fd = unread o1 fd"
    and "0 < n \<Longrightarrow> \<exists>k o2. os_read os fd n o1 = ((int k, take k (unread o1 fd)), o2) \<and> k \<le> n \<and>
        k \<le> length (unread o1 fd) \<and> (k = 0 \<longrightarrow> unread o1 fd = []) \<and> unread o2 fd = drop k (unread o1 fd)"
    using w(2) unfolding os_reads_def by blast+
  show "0 < n \<Longrightarrow> \<exists>mem o2. os_malloc os n o1 = (Some mem, o2) \<and> length mem = n \<and> (\<forall>fd. unread o2 fd = unread o1 fd)"
    and "length m \<le> n \<Longrightarrow> 0 < n \<Longrightarrow> \<exists>ext o2. os_realloc os m n o1 = (Some (m @ ext), o2) \<and> length (m @ ext) = n"
    using w(3) unfolding os_allocates_def by blast+
  show "ws \<noteq> [] \<Longrightarrow> \<exists>k o2. os_write os fd ws o1 = (int k, o2) \<and> 0 < k \<and> k \<le> length ws \<and> written o2 fd = written o1 fd @ take k ws"
    using w(4) unfolding os_writes_def by blast
qed

lemma bnd_call: "bnd (call f) g s = g (fst (f s)) (snd (f s))"
  by (simp add: call_def bnd_def split: prod.splits)

section \<open>Reading a file\<close>

lemma file_read_loop_reads:
  assumes "os_works os contents unread written"
  shows "length mem = cur + length (unread s fd) \<Longrightarrow> length (unread s fd) < fuel \<Longrightarrow>
    \<exists>t. file_read_loop os fd cur mem fuel s = (Ret (0, take cur mem @ unread s fd), t)"
proof (induction fuel arbitrary: cur mem s)
  case (Suc fuel)
  obtain k u where r: "os_read os fd RDWR_SZ s = ((int k, take k (unread s fd)), u)" "k \<le> length (unread s fd)"
    "k = 0 \<longrightarrow> unread s fd = []" "unread u fd = drop k (unread s fd)"
    using os_worksD(5) [OF assms, of RDWR_SZ fd s] by (auto simp: RDWR_SZ_def)
  show ?case
  proof (cases "k = 0")
    case True
    then show ?thesis using r Suc.prems by (simp add: bnd_call r(1) ret_run)
  next
    case False
    let ?mem = "take cur mem @ take k (unread s fd) @ drop (cur + k) mem"
    have "length ?mem = (cur + k) + length (unread u fd)" "length (unread u fd) < fuel"
      using Suc.prems r(2,4) False by simp_all
    from Suc.IH [OF this] obtain t where
      "file_read_loop os fd (cur + k) ?mem fuel u = (Ret (0, take (cur + k) ?mem @ unread u fd), t)" by blast
    moreover have "take (cur + k) ?mem @ unread u fd = take cur mem @ unread s fd"
      using Suc.prems(1) r(2,4) by simp
    ultimately show ?thesis using False Suc.prems(1) r(2)
      by (simp add: bnd_call r(1) put_bytes_def bnd_prim_run min_absorb2)
  qed
qed simp

lemma file_read_reads:
  assumes "os_works os contents unread written" and "contents path = Some bs" and "bs \<noteq> []" and "length bs < 2 ^ 31"
    and "length bs < os_fuel os"
  shows "\<exists>t. file_read os path s = (Ret (Some (bs, int (length bs))), t)"
proof -
  obtain fd s1 where o: "os_open os path False s = (fd, s1)" "fd \<noteq> -1" "unread s1 fd = bs"
    using os_worksD(1) [OF assms(1,2)] by blast
  obtain s2 where st: "os_fstat os fd s1 = (Some (int (length bs)), s2)" "unread s2 fd = bs"
    using os_worksD(4) [OF assms(1), of fd s1] o(3) by auto
  have sz: "c_int (int (length bs)) = int (length bs)" "c_size (int (length bs)) = length bs"
    using assms(4) by (simp_all add: c_int_def c_size_def signed_take_bit_int_eq_self nat_mod_distrib)
  obtain mem s3 where m: "os_malloc os (length bs) s2 = (Some mem, s3)" "length mem = length bs" "unread s3 fd = bs"
    using os_worksD(6) [OF assms(1), of "length bs" s2] assms(3) st(2) by auto
  obtain s4 where l: "file_read_loop os fd 0 mem (os_fuel os) s3 = (Ret (0, bs), s4)"
    using file_read_loop_reads [OF assms(1), of mem 0 s3 fd "os_fuel os"] m(2,3) assms(5) by auto
  have "file_read_loop os fd 0 mem (os_fuel os) s3 = (Ret (0, bs), s4)" by (rule l)
  then have loop: "bnd (file_read_loop os fd 0 mem (os_fuel os)) f s3 = f (0, bs) s4" for f :: "_ \<Rightarrow> ('a, 'b) prog" by (simp add: bnd_def)
  show ?thesis using o(2)
    by (simp add: file_read_def filesz_def bnd_call o(1) bnd_assoc st(1) bnd_prim_run sz
        m(1) loop ret_run run_simps)
qed

section \<open>Appending an item\<close>

lemma datasz_after_pad_spec:
  assumes "n + 1024 < 2 ^ 31"
  obtains p where "datasz_after_pad (int n) = int p" and "n \<le> p" and "p < n + 512" and "(8 + p) mod 512 = 0"
proof -
  define q r where "q = (8 + n) div 512" and "r = (8 + n) mod 512"
  have n: "8 + n = 512 * q + r" "r < 512" by (simp_all add: q_def r_def)
  define m where "m = (if r = 0 then 8 + n else 8 + n + (512 - r))"
  have m: "8 + n \<le> m" "m < 8 + n + 512" "m mod 512 = 0" "8 \<le> m"
    using n by (auto simp: m_def)
  have sm: "signed_take_bit 31 (int k) = int k" if "k < 2 ^ 31" for k
    using that by (intro signed_take_bit_int_eq_self) simp_all
  have "int (8 + n) mod 512 = int r" unfolding r_def zmod_int by simp
  then have "round_up_multiple (int (8 + n)) 512 = int m"
    using n(2) by (simp add: round_up_multiple_def m_def)
  moreover have "c_int (int sizeof_item + int n) = int (8 + n)"
    using sm [of "8 + n"] assms by (simp add: c_int_def sizeof_item_def)
  ultimately have "datasz_after_pad (int n) = c_int (int m - 8)"
    by (simp add: datasz_after_pad_def SD_BLKSZ_def) (simp add: sizeof_item_def)
  also have "int m - 8 = int (m - 8)" using m(4) by simp
  also have "c_int (int (m - 8)) = int (m - 8)" using sm [of "m - 8"] m assms by (simp add: c_int_def)
  finally show ?thesis using m by (intro that [of "m - 8"]) simp_all
qed

lemma get_word_at: "take 4 (drop off mem) = bytes32 w \<Longrightarrow> get_word off mem = w"
proof -
  assume t: "take 4 (drop off mem) = bytes32 w"
  then have "length (take 4 (drop off mem)) = 4" by simp
  then have l: "off + 4 \<le> length mem" by simp
  have "mem ! (off + i) = bytes32 w ! i" if "i < 4" for i
    using arg_cong [OF t, of "\<lambda>xs. xs ! i"] that l by simp
  from this [of 0] this [of 1] this [of 2] this [of 3] show ?thesis
    by (simp add: get_word_def bytes32_def)
qed

lemma put_bytes_mid:
  "length ys = length bs \<Longrightarrow> n = length xs \<Longrightarrow> put_bytes n bs (xs @ ys @ zs) = ret (xs @ bs @ zs)"
  by (simp add: put_bytes_def)

lemma split_at: "length e = n + k \<Longrightarrow> \<exists>x y. e = x @ y \<and> length x = n \<and> length y = k"
  by (intro exI [of _ "take n e"] exI [of _ "drop n e"]) simp

text \<open>The block that holds an image, whose items are \<open>body\<close>.\<close>

definition image_block :: "u8 list \<Rightarrow> u8 list \<Rightarrow> u8 list" where
  "image_block pad body = bytes32 IMG_MAGIC @ bytes32 (of_nat (512 + length body)) @ pad @ body"

lemma image_block_size: "get_word 4 (image_block pad body) = of_nat (512 + length body)"
  by (rule get_word_at) (simp add: image_block_def)

lemma image_append_item_appends:
  assumes "os_works os contents unread written" and "length pad = 504" and "512 + length body + length data + 2048 < 2 ^ 31"
  shows "\<exists>ext t. image_append_item os (image_block pad body) iid (int (length data)) data s =
      (Ret (Some (image_block pad (body @ item_bytes iid (data @ ext)))), t) \<and>
    whole_blocks (data @ ext) \<and> length ext < 512"
proof -
  let ?n = "length data" and ?img = "image_block pad body"
  let ?L = "512 + length body"
  have "?n + 1024 < 2 ^ 31" using assms(3) by simp
  then obtain p where p: "datasz_after_pad (int ?n) = int p" "?n \<le> p" "p < ?n + 512" "(8 + p) mod 512 = 0"
    by (rule datasz_after_pad_spec)
  have L: "length ?img = ?L" using assms(2) by (simp add: image_block_def)
  have szs: "uint (get_word 4 ?img) = int ?L" "unat (get_word 4 ?img) = ?L"
  proof -
    show u: "unat (get_word 4 ?img) = ?L" unfolding image_block_size using assms(3) by (intro unat_of_nat_lt) simp
    show "uint (get_word 4 ?img) = int ?L" using u by (simp only: uint_nat)
  qed
  have "c_size (int ?L + (int sizeof_item + int p)) = ?L + 8 + p"
  proof -
    have "int ?L + (int sizeof_item + int p) = int (?L + 8 + p)" by (simp add: sizeof_item_def)
    moreover have "c_size (int k) = k" if "k < 2 ^ 32" for k using that by (simp add: c_size_def nat_mod_distrib)
    ultimately show ?thesis using assms(3) p(3) by (simp del: of_nat_add)
  qed
  moreover obtain e t where r: "os_realloc os ?img (?L + 8 + p) s = (Some (?img @ e), t)" "length (?img @ e) = ?L + 8 + p"
    using os_worksD(7) [OF assms(1), of ?img "?L + 8 + p" s] L by auto
  ultimately have ra: "os_realloc os ?img (c_size (uint (get_word 4 ?img) + (int sizeof_item + int p))) s = (Some (?img @ e), t)"
    unfolding szs by simp
  have le: "length e = 8 + p" using r(2) L by simp
  obtain e1 f1 where f1: "e = e1 @ f1" "length e1 = 4" "length f1 = 4 + p" using split_at [of e 4 "4 + p"] le by auto
  obtain e2 f2 where f2: "f1 = e2 @ f2" "length e2 = 4" "length f2 = p" using split_at [of f1 4 p] f1 by auto
  obtain e3 e4 where f3: "f2 = e3 @ e4" "length e3 = ?n" "length e4 = p - ?n" using split_at [of f2 ?n "p - ?n"] f2 p(2) by auto
  let ?sz = "bytes32 (of_nat ?L)" and ?m = "bytes32 IMG_MAGIC"
  let ?body = "body @ item_bytes iid (data @ e4)"
  have dl: "length (data @ e4) = p" using f3 p(2) by simp
  have put: "put_bytes ?L (bytes32 (item_id_value iid)) (?img @ e) = ret (?img @ bytes32 (item_id_value iid) @ f1)"
    "put_bytes (?L + 4) (bytes32 (of_int (int p))) (?img @ bytes32 (item_id_value iid) @ f1) =
       ret ((?img @ bytes32 (item_id_value iid)) @ bytes32 (of_nat p) @ f2)"
    "put_bytes (?L + sizeof_item) data ((?img @ bytes32 (item_id_value iid)) @ bytes32 (of_nat p) @ f2) =
       ret ((?img @ bytes32 (item_id_value iid) @ bytes32 (of_nat p)) @ data @ e4)"
    using put_bytes_mid [of e1 "bytes32 (item_id_value iid)" ?L ?img f1]
      put_bytes_mid [of e2 "bytes32 (of_nat p)" "?L + 4" "?img @ bytes32 (item_id_value iid)" f2]
      put_bytes_mid [of e3 data "?L + 8" "?img @ bytes32 (item_id_value iid) @ bytes32 (of_nat p)" e4] L
    by (simp_all add: f1 f2 f3 sizeof_item_def)
  let ?img3 = "(?img @ bytes32 (item_id_value iid) @ bytes32 (of_nat p)) @ data @ e4"
  have i3: "?img3 = ?m @ ?sz @ (pad @ ?body)" by (simp add: image_block_def item_bytes_def dl [simplified])
  have gw: "get_word 4 ?img3 = of_nat ?L" unfolding i3 by (rule get_word_at) simp
  have sum: "of_nat ?L + of_int (int sizeof_item + int p) = (of_nat (512 + length ?body) :: u32)"
    using dl by (simp add: sizeof_item_def)
  have "put_bytes 4 bs ?img3 = ret (?m @ bs @ (pad @ ?body))" if "length bs = 4" for bs
    unfolding i3 using that by (intro put_bytes_mid) simp_all
  from this [OF length_bytes32, of "of_nat (512 + length ?body)"]
  have last: "put_bytes 4 (bytes32 (get_word 4 ?img3 + of_int (int sizeof_item + int p))) ?img3 = ret (image_block pad ?body)"
    unfolding gw sum by (simp only: image_block_def)
  have data: "(if int ?n \<noteq> 0 then (if c_size (int ?n) \<le> length data then put_bytes (?L + sizeof_item) (take (c_size (int ?n)) data) x
      else stop Undef) else ret x) = put_bytes (?L + sizeof_item) data x" if "?L + 8 + ?n \<le> length x" for x
    using assms(3) that by (simp add: c_size_def nat_mod_distrib put_bytes_def sizeof_item_def)
  have gi: "unat (get_word 4 (?img @ e)) = ?L"
  proof -
    have "get_word 4 (?img @ e) = of_nat ?L" by (rule get_word_at) (simp add: image_block_def)
    then show ?thesis using assms(3) by (simp only:) (intro unat_of_nat_lt; simp)
  qed
  have lx: "?L + 8 + ?n \<le> length ((?img @ bytes32 (item_id_value iid)) @ bytes32 (of_nat p) @ f2)"
    using L f2(3) p(2) by simp
  have "image_append_item os ?img iid (int ?n) data s = (Ret (Some (image_block pad ?body)), t)"
    unfolding image_append_item_def Let_def p(1) bnd_call ra fst_conv snd_conv option.case gi put(1,2) bnd_prim_run
      data [OF lx] put(3) last by (simp add: ret_run)
  moreover have "whole_blocks (data @ e4)" using dl p(3,4) assms(3) by (simp add: whole_blocks_def)
  ultimately show ?thesis using f3(3) p(3) by (intro exI [of _ e4] exI [of _ t]) simp
qed

section \<open>Building and writing the image\<close>

lemma image_append_file_appends:
  assumes "os_works os contents unread written" and "length pad = 504" and "512 + length body + length data + 2048 < 2 ^ 31"
    and "contents path = Some data" and "data \<noteq> []" and "length data < os_fuel os"
  shows "\<exists>ext t. image_append_file_free_on_fail os (image_block pad body) path iid s =
      (Ret (Some (image_block pad (body @ item_bytes iid (data @ ext)))), t) \<and> whole_blocks (data @ ext) \<and> length ext < 512"
proof -
  have "length data < 2 ^ 31" using assms(3) by simp
  from file_read_reads [OF assms(1,4,5) this assms(6)] obtain u where
    u: "file_read os path s = (Ret (Some (data, int (length data))), u)" by blast
  obtain ext t where t: "image_append_item os (image_block pad body) iid (int (length data)) data u =
      (Ret (Some (image_block pad (body @ item_bytes iid (data @ ext)))), t)" "whole_blocks (data @ ext)" "length ext < 512"
    using image_append_item_appends [OF assms(1-3)] by blast
  then show ?thesis
    by (auto simp: image_append_file_free_on_fail_def image_append_file_def bnd_def u ret_run)
qed

lemma build_image_builds:
  assumes "os_works os contents unread written" and "contents kern = Some k" and "contents dtb = Some d"
    and "k \<noteq> []" and "d \<noteq> []" and "length k + length d + 8192 < 2 ^ 31" and "length k < os_fuel os" and "length d < os_fuel os"
  shows "\<exists>pad kx dx e t. build_image os kern dtb s = (Ret (Some (image_bytes pad (k @ kx) (d @ dx) e)), t) \<and>
    image_wf pad (k @ kx) (d @ dx) e \<and> image_size (k @ kx) (d @ dx) e < 2 ^ 31 \<and>
    length kx < 512 \<and> length dx < 512 \<and> length e < 512"
proof -
  obtain mem s1 where m: "os_malloc os 512 s = (Some mem, s1)" "length mem = 512"
    using os_worksD(6) [OF assms(1), of 512 s] by auto
  define pad where "pad = drop 8 mem"
  have lp: "length pad = 504" using m(2) by (simp add: pad_def)
  have put: "put_bytes 0 (bytes32 IMG_MAGIC) mem = ret (bytes32 IMG_MAGIC @ drop 4 mem)"
    "put_bytes 4 (bytes32 (of_nat sizeof_image)) (bytes32 IMG_MAGIC @ drop 4 mem) = ret (image_block pad [])"
    using m(2) by (simp_all add: put_bytes_def image_block_def sizeof_image_def pad_def)
  have sz: "length k < 2 ^ 31" "length d < 2 ^ 31" using assms(6) by simp_all
  have "512 + length ([] :: u8 list) + length k + 2048 < 2 ^ 31" using assms(6) by simp
  from image_append_file_appends [OF assms(1) lp this assms(2,4,7), of ITEM_ID_KERNEL s1] obtain kx s2 where
    k: "image_append_file_free_on_fail os (image_block pad []) kern ITEM_ID_KERNEL s1 =
      (Ret (Some (image_block pad (item_bytes ITEM_ID_KERNEL (k @ kx)))), s2)" "whole_blocks (k @ kx)" "length kx < 512" by auto
  let ?k = "item_bytes ITEM_ID_KERNEL (k @ kx)"
  have "512 + length ?k + length d + 2048 < 2 ^ 31" using assms(6) k(3) by simp
  from image_append_file_appends [OF assms(1) lp this assms(3,5,8), of ITEM_ID_DEVICE_TREE_BLOB s2] obtain dx s3 where
    d: "image_append_file_free_on_fail os (image_block pad ?k) dtb ITEM_ID_DEVICE_TREE_BLOB s2 =
      (Ret (Some (image_block pad (?k @ item_bytes ITEM_ID_DEVICE_TREE_BLOB (d @ dx)))), s3)" "whole_blocks (d @ dx)" "length dx < 512"
    by auto
  let ?d = "item_bytes ITEM_ID_DEVICE_TREE_BLOB (d @ dx)"
  have "512 + length (?k @ ?d) + length ([] :: u8 list) + 2048 < 2 ^ 31" using assms(6) k(3) d(3) by simp
  from image_append_item_appends [OF assms(1) lp this, of ITEM_ID_END s3] obtain e s4 where
    e: "image_append_item os (image_block pad (?k @ ?d)) ITEM_ID_END 0 [] s3 =
      (Ret (Some (image_block pad ((?k @ ?d) @ item_bytes ITEM_ID_END e))), s4)" "whole_blocks e" "length e < 512"
    by auto
  have img: "image_block pad ((?k @ ?d) @ item_bytes ITEM_ID_END e) = image_bytes pad (k @ kx) (d @ dx) e"
    by (simp add: image_block_def image_bytes_def image_size_def)
  have "build_image os kern dtb s = (Ret (Some (image_bytes pad (k @ kx) (d @ dx) e)), s4)"
    unfolding build_image_def bnd_call sizeof_image_def m(1) fst_conv snd_conv option.case
    using put [THEN fun_cong, of s1] by (simp add: bnd_def k(1) d(1) e(1) img [simplified] ret_run sizeof_image_def)
  moreover have "image_size (k @ kx) (d @ dx) e < 2 ^ 31" using assms(6) k(3) d(3) e(3) by (simp add: image_size_def)
  moreover from this have "image_wf pad (k @ kx) (d @ dx) e"
    using lp k(2) d(2) e(2) by (simp add: image_wf_def)
  ultimately show ?thesis using k(3) d(3) e(3) by blast
qed

lemma file_write_loop_writes:
  assumes "os_works os contents unread written"
  shows "length mem < fuel \<Longrightarrow> \<exists>t. file_write_loop os fd mem (int (length mem)) fuel s = (Ret True, t) \<and>
    written t fd = written s fd @ mem"
proof (induction fuel arbitrary: mem s)
  case (Suc fuel)
  show ?case
  proof (cases "mem = []")
    case True
    then show ?thesis using os_worksD(3) [OF assms, of fd s] by (simp add: run_simps)
  next
    case False
    let ?n = "min (length mem) 4096"
    have n: "nat (if int (length mem) < int RDWR_SZ then int (length mem) else int RDWR_SZ) = ?n" by (simp add: RDWR_SZ_def)
    obtain k u where w: "os_write os fd (take ?n mem) s = (int k, u)" "0 < k" "k \<le> ?n"
      "written u fd = written s fd @ take k (take ?n mem)"
      using os_worksD(8) [OF assms, of "take ?n mem" fd s] False by auto
    have "length (drop k mem) < fuel" using Suc.prems w(2) False by (cases mem) auto
    from Suc.IH [OF this, of u] obtain t where
      t: "file_write_loop os fd (drop k mem) (int (length (drop k mem))) fuel u = (Ret True, t)"
        "written t fd = written u fd @ drop k mem" by blast
    have len: "int (length (drop k mem)) = int (length mem) - int k" using w(3) by simp
    have "written t fd = written s fd @ mem" using t(2) w(3,4) by (simp add: min_def split: if_splits)
    moreover have "file_write_loop os fd mem (int (length mem)) (Suc fuel) s = (Ret True, t)"
      using False w(1,2) t(1) len by (simp only: file_write_loop.simps n) (simp add: bnd_call)
    ultimately show ?thesis by blast
  qed
qed simp

lemma imager_writes:
  assumes "os_works os contents unread written" and "contents kern = Some k" and "contents dtb = Some d"
    and "k \<noteq> []" and "d \<noteq> []" and "length k + length d + 8192 < 2 ^ 31" and "length k + length d + 8192 < os_fuel os"
    and "\<not> any_arg_is_help [prog, part, kern, dtb]"
  shows "\<exists>pad kx dx e fd t. imager_main os [prog, part, kern, dtb] s = (Ret EXIT_SUCCESS, t) \<and>
    written t fd = image_bytes pad (k @ kx) (d @ dx) e \<and> image_wf pad (k @ kx) (d @ dx) e \<and>
    length kx < 512 \<and> length dx < 512 \<and> length e < 512"
proof -
  have "length k < os_fuel os" "length d < os_fuel os" using assms(7) by simp_all
  from build_image_builds [OF assms(1-6) this] obtain pad kx dx e u where
    b: "build_image os kern dtb s = (Ret (Some (image_bytes pad (k @ kx) (d @ dx) e)), u)"
      "image_wf pad (k @ kx) (d @ dx) e" "image_size (k @ kx) (d @ dx) e < 2 ^ 31" "length kx < 512" "length dx < 512" "length e < 512"
    by blast
  let ?img = "image_bytes pad (k @ kx) (d @ dx) e"
  have len: "length ?img = image_size (k @ kx) (d @ dx) e" using b(2) by (simp add: image_wf_def length_image_bytes)
  have "get_word 4 ?img = of_nat (image_size (k @ kx) (d @ dx) e)" by (rule get_word_at) (simp add: image_bytes_def)
  then have sz: "sint (get_word 4 ?img) = int (length ?img)" using sint_of_nat_lt [OF b(3)] len by (simp only:)
  obtain fd v where o: "os_open os part True u = (fd, v)" "fd \<noteq> -1" "written v fd = []"
    using os_worksD(2) [OF assms(1)] by blast
  have "length ?img < os_fuel os" using assms(7) b(4-6) unfolding len by (simp add: image_size_def)
  from file_write_loop_writes [OF assms(1) this] obtain t where
    t: "file_write_loop os fd ?img (int (length ?img)) (os_fuel os) v = (Ret True, t)" "written t fd = ?img"
    using o(3) by fastforce
  have "file_write os part ?img (int (length ?img)) u = (Ret True, t)"
    using o(2) t(1) by (simp add: file_write_def bnd_call o(1))
  then have "imager_main os [prog, part, kern, dtb] s = (Ret EXIT_SUCCESS, t)"
    using assms(8) sz by (simp add: imager_main_def bnd_def b(1) ret_run)
  then show ?thesis using t(2) b(2,4-6) by blast
qed

section \<open>What the system keeps\<close>

text \<open>A call that leaves what \<open>obs\<close> sees of the system as it is; all but opening a file for writing and writing to it do.\<close>

definition spares :: "'o os \<Rightarrow> ('o \<Rightarrow> 'v) \<Rightarrow> bool" where
  "spares os obs \<longleftrightarrow>
     (\<forall>path o1. obs (snd (os_open os path False o1)) = obs o1) \<and> (\<forall>fd o1. obs (snd (os_fstat os fd o1)) = obs o1) \<and>
     (\<forall>n o1. obs (snd (os_malloc os n o1)) = obs o1) \<and> (\<forall>mem n o1. obs (snd (os_realloc os mem n o1)) = obs o1) \<and>
     (\<forall>fd n o1. obs (snd (os_read os fd n o1)) = obs o1) \<and> (\<forall>fd o1. obs (os_close os fd o1) = obs o1)"

definition same_obs :: "('o \<Rightarrow> 'v) \<Rightarrow> 'o \<Rightarrow> 'o \<Rightarrow> bool" where
  "same_obs obs o1 o2 \<longleftrightarrow> obs o2 = obs o1"

interpretation same_obs: run_relation "same_obs obs" for obs :: "'o \<Rightarrow> 'v"
  by unfold_locales (simp_all add: same_obs_def)

lemma guar_call: "(\<And>o1. R o1 (snd (f o1))) \<Longrightarrow> guar R (call f)"
  by (simp add: guar_def call_def Let_def case_prod_beta)

lemma guar_put_bytes: "guar (same_obs obs) (put_bytes off bs mem)"
  unfolding put_bytes_def by (intro same_obs.guar_rules)

lemma guar_os:
  assumes "spares os obs"
  shows "guar (same_obs obs) (call (os_open os path False))" "guar (same_obs obs) (call (os_fstat os fd))"
    "guar (same_obs obs) (call (os_malloc os n))" "guar (same_obs obs) (call (os_realloc os mem n))"
    "guar (same_obs obs) (call (os_read os fd n))" "guar (same_obs obs) (modify (os_close os fd))"
  using assms by (intro guar_call same_obs.guar_modify; simp add: spares_def same_obs_def)+

lemma guar_file_read_loop: "spares os obs \<Longrightarrow> guar (same_obs obs) (file_read_loop os fd cur mem k)"
  by (induction k arbitrary: cur mem) (auto intro!: same_obs.guar_rules guar_os guar_put_bytes)

lemma guar_file_read: "spares os obs \<Longrightarrow> guar (same_obs obs) (file_read os path)"
  unfolding file_read_def filesz_def case_prod_beta
  by (intro same_obs.guar_rules guar_os guar_file_read_loop; assumption)

lemma guar_image_append_item: "spares os obs \<Longrightarrow> guar (same_obs obs) (image_append_item os img iid n data)"
  unfolding image_append_item_def Let_def
  by (intro same_obs.guar_rules guar_os guar_put_bytes; assumption)

lemma guar_image_append_file: "spares os obs \<Longrightarrow> guar (same_obs obs) (image_append_file_free_on_fail os img path iid)"
  unfolding image_append_file_free_on_fail_def image_append_file_def case_prod_beta
  by (intro same_obs.guar_rules guar_file_read guar_image_append_item; assumption)

lemma guar_build_image: "spares os obs \<Longrightarrow> guar (same_obs obs) (build_image os kern dtb)"
  unfolding build_image_def
  by (intro same_obs.guar_rules guar_os guar_put_bytes guar_image_append_file guar_image_append_item; assumption)

text \<open>A file that cannot be opened leads to no image, whatever else happens.\<close>

definition unreadable :: "'o os \<Rightarrow> string \<Rightarrow> bool" where
  "unreadable os path \<longleftrightarrow> (\<forall>o1. fst (os_open os path False o1) = -1)"

lemma returns_option:
  "(x = None \<Longrightarrow> returns m P) \<Longrightarrow> (\<And>y. x = Some y \<Longrightarrow> returns (f y) P) \<Longrightarrow>
     returns (case x of None \<Rightarrow> m | Some y \<Rightarrow> f y) P"
  by (cases x) simp_all

lemma append_unreadable: "unreadable os path \<Longrightarrow> returns (image_append_file_free_on_fail os img path iid) (\<lambda>x. x = None)"
  unfolding image_append_file_free_on_fail_def image_append_file_def file_read_def returns_def bnd_assoc bnd_call unreadable_def
  by (simp add: bnd_prim_run ret_run)

lemma build_image_unreadable:
  assumes "unreadable os kern \<or> unreadable os dtb"
  shows "returns (build_image os kern dtb) (\<lambda>x. x = None)"
proof -
  have k: "returns (image_append_file_free_on_fail os img kern ITEM_ID_KERNEL) (\<lambda>x. unreadable os kern \<longrightarrow> x = None)"
    "returns (image_append_file_free_on_fail os img dtb ITEM_ID_DEVICE_TREE_BLOB) (\<lambda>x. unreadable os dtb \<longrightarrow> x = None)" for img
    using append_unreadable [of os kern img ITEM_ID_KERNEL] append_unreadable [of os dtb img ITEM_ID_DEVICE_TREE_BLOB]
    by (simp_all add: returns_def)
  show ?thesis
    unfolding build_image_def using assms
    by (auto intro!: returns_bnd [OF k(1)] returns_bnd [OF k(2)] returns_option returns_ret returns_stop
        intro: returns_bnd [OF returns_any])
qed

end
