(* ===== verification/Sd_Controller.thy ===== *)
theory Sd_Controller
  imports Sd_Card
begin

unbundle bit_operations_syntax

text \<open>
  A reference host controller with a card in it, after the SD host controller and physical
  layer specifications: commands reach the card only with the bus powered and the clock
  running, the card answers only commands that its state admits and that carry its address,
  flags are recorded only when their mask bit is set, data flows block by block, and a flag
  goes away when it is acknowledged. The data of a command becomes available once its
  completion has been acknowledged. Hardware follows the reference when its registers behave like the
  reference's; the rest of its state is arbitrary.
\<close>

section \<open>The reference\<close>

text \<open>
  A card: whether it is of high capacity, the relative address it takes, its voltage window (bits
  15 to 23 of its operating conditions; every card covers the 3.2 to 3.4 V around the supply,
  bits 20 and 21, and the rest of its window is arbitrary), its SCR and its blocks.
\<close>

record sd_spec =
  spec_hc :: bool
  spec_rca :: u32
  spec_ocr :: u32
  spec_scr :: u32
  spec_disk :: disk

record ctl =
  c_arg :: u32
  c_blk :: u32
  c_idx :: u32
  c_app :: bool
  c_ctl0 :: u32
  c_ctl1 :: u32
  c_mask :: u32
  c_irq :: u32
  c_state :: card_state
  c_pos :: "nat option"
  c_left :: nat

definition running :: "ctl \<Rightarrow> bool" where
  "running c \<longleftrightarrow> c_ctl0 c AND 0x100 \<noteq> 0 \<and> c_ctl1 c AND CONTROL1_INT_CLK_EN \<noteq> 0 \<and> c_ctl1 c AND CONTROL1_CLK_EN \<noteq> 0"

definition block_words :: "ctl \<Rightarrow> nat" where
  "block_words c = unat (getfld 0 10 (c_blk c)) div 4"

definition block_count :: "ctl \<Rightarrow> nat" where
  "block_count c = unat (getfld 16 16 (c_blk c))"

text \<open>
  The state of the card after a command, by the number of the command and whether it is an
  application command; \<open>None\<close> when the card does not answer. Commands that select a card
  by its address are answered when the address is the card's, 0 before it has one.
\<close>

definition card_next :: "sd_spec \<Rightarrow> card_state \<Rightarrow> bool \<Rightarrow> u32 \<Rightarrow> u32 \<Rightarrow> card_state option" where
  "card_next sp st app idx arg =
     (if idx \<in> {7, 13, 55} \<and> drop_bit 16 arg \<noteq> (if st = CARD_STATE_IDLE then 0 else spec_rca sp) then None
      else if idx = 0 then Some CARD_STATE_IDLE
      else case st of
        CARD_STATE_IDLE \<Rightarrow>
          if app \<and> idx = 41 then Some (if arg AND 0xff8000 = 0 then CARD_STATE_IDLE else CARD_STATE_READY)
          else if idx \<in> {8, 55} then Some CARD_STATE_IDLE else None
      | CARD_STATE_READY \<Rightarrow> if idx = 2 then Some CARD_STATE_IDENTIFICATION else None
      | CARD_STATE_IDENTIFICATION \<Rightarrow> if idx = 3 then Some CARD_STATE_STANDBY else None
      | CARD_STATE_STANDBY \<Rightarrow> if idx = 7 then Some CARD_STATE_TRANSFER
          else if idx \<in> {13, 55} then Some CARD_STATE_STANDBY else None
      | CARD_STATE_TRANSFER \<Rightarrow> if app \<and> idx \<in> {6, 51} \<or> \<not> app \<and> idx \<in> {13, 17, 18, 23, 55}
          then Some CARD_STATE_TRANSFER else None
      | _ \<Rightarrow> None)"

definition ctl_issue :: "sd_spec \<Rightarrow> u32 \<Rightarrow> ctl \<Rightarrow> ctl" where
  "ctl_issue sp w c =
     (let idx = getfld 24 6 w
      in if \<not> running c then c
      else case card_next sp (c_state c) (c_app c) idx (c_arg c) of
        None \<Rightarrow> c\<lparr>c_irq := c_irq c OR 0x18000\<rparr>
      | Some st \<Rightarrow>
          c\<lparr>c_irq := c_irq c OR (INTERRUPT_CMD_COMPLETE AND c_mask c), c_state := st, c_idx := idx,
            c_app := (idx = 55),
            c_pos := (if idx = 17 \<or> idx = 18 then Some (card_addr (spec_hc sp) (c_arg c)) else None),
            c_left := (if idx = 17 \<or> idx = 18 \<or> idx = 51 then block_words c * block_count c else 0)\<rparr>)"

definition ctl_write :: "sd_spec \<Rightarrow> sd_register \<Rightarrow> u32 \<Rightarrow> ctl \<Rightarrow> ctl" where
  "ctl_write sp r v c =
     (case r of
        BLKSIZECNT \<Rightarrow> c\<lparr>c_blk := v\<rparr>
      | ARG1 \<Rightarrow> c\<lparr>c_arg := v\<rparr>
      | CMDTM \<Rightarrow> ctl_issue sp v c
      | CONTROL0 \<Rightarrow> c\<lparr>c_ctl0 := v\<rparr>
      | CONTROL1 \<Rightarrow>
          if v AND CONTROL1_SW_RESET_HC \<noteq> 0
          then c\<lparr>c_ctl0 := 0, c_ctl1 := 0, c_mask := 0, c_irq := 0, c_left := 0\<rparr> else c\<lparr>c_ctl1 := v\<rparr>
      | INTERRUPT \<Rightarrow>
          c\<lparr>c_irq := (c_irq c AND NOT v) OR
            (if v AND INTERRUPT_CMD_COMPLETE \<noteq> 0 \<and> 0 < c_left c then INTERRUPT_READ_READY AND c_mask c else 0)\<rparr>
      | IRPT_MASK \<Rightarrow> c\<lparr>c_mask := v\<rparr>
      | _ \<Rightarrow> c)"

definition card_resp :: "sd_spec \<Rightarrow> u32 \<Rightarrow> u32 \<Rightarrow> u32" where
  "card_resp sp idx arg =
     (if idx = 8 then arg AND 0xfff
      else if idx = 41 then (if spec_hc sp then 0xc0300000 else 0x80300000) OR (spec_ocr sp AND 0x00cf8000)
      else if idx = 3 then push_bit 16 (spec_rca sp) OR 0x500
      else if idx = 55 then 0x920
      else 0x900)"

definition data_word :: "sd_spec \<Rightarrow> ctl \<Rightarrow> u32" where
  "data_word sp c = (case c_pos c of Some p \<Rightarrow> disk_word (spec_disk sp) p | None \<Rightarrow> bswap32 (spec_scr sp))"

definition ctl_value :: "sd_spec \<Rightarrow> sd_register \<Rightarrow> ctl \<Rightarrow> u32" where
  "ctl_value sp r c =
     (case r of
        RESP0 \<Rightarrow> card_resp sp (c_idx c) (c_arg c)
      | DATA \<Rightarrow> data_word sp c
      | CONTROL0 \<Rightarrow> c_ctl0 c
      | CONTROL1 \<Rightarrow> if c_ctl1 c AND CONTROL1_INT_CLK_EN \<noteq> 0 then c_ctl1 c OR CONTROL1_INT_CLK_STABLE else c_ctl1 c
      | INTERRUPT \<Rightarrow> c_irq c
      | IRPT_MASK \<Rightarrow> c_mask c
      | _ \<Rightarrow> 0)"

definition ctl_read :: "sd_register \<Rightarrow> ctl \<Rightarrow> ctl" where
  "ctl_read r c =
     (if r = DATA \<and> 0 < c_left c then
        c\<lparr>c_pos := map_option ((+) 4) (c_pos c), c_left := c_left c - 1,
          c_irq := c_irq c OR
            (if c_left c = 1 then INTERRUPT_TRANSFER_COMPLETE AND c_mask c
             else if (c_left c - 1) mod block_words c = 0 then INTERRUPT_READ_READY AND c_mask c else 0)\<rparr>
      else c)"

text \<open>Hardware that follows the reference; \<open>view\<close> picks the controller out of its state.\<close>

definition follows :: "'d hw \<Rightarrow> ('d \<Rightarrow> ctl) \<Rightarrow> sd_spec \<Rightarrow> bool" where
  "follows hw view sp \<longleftrightarrow>
     (\<forall>r d. fst (mmio_read hw (sd_reg r) d) = ctl_value sp r (view d) \<and>
            view (snd (mmio_read hw (sd_reg r) d)) = ctl_read r (view d)) \<and>
     (\<forall>r v d. view (mmio_write hw (sd_reg r) v d) = ctl_write sp r v (view d)) \<and>
     (\<forall>a d. a \<notin> sd_page \<longrightarrow> view (snd (mmio_read hw a d)) = view d) \<and>
     (\<forall>a v d. a \<notin> sd_page \<longrightarrow> view (mmio_write hw a v d) = view d)"

lemma followsD:
  assumes "follows hw view sp"
  shows "dev_read hw (sd_reg r) s = ctl_value sp r (view (dev s))"
    and "view (snd (mmio_read hw (sd_reg r) d)) = ctl_read r (view d)"
    and "view (mmio_write hw (sd_reg r) v d) = ctl_write sp r v (view d)"
    and "a \<notin> sd_page \<Longrightarrow> view (snd (mmio_read hw a d)) = view d"
    and "a \<notin> sd_page \<Longrightarrow> view (mmio_write hw a v d) = view d"
  using assms by (simp_all add: follows_def)

lemma CLO_not_sd: "CLO_addr \<notin> sd_page"
  by (simp add: sd_page_def get_peripheral_reg_addr_def timer_access_def ARM_LO_MAIN_PERIPH_BASE_ADDR_def)

section \<open>Waits and commands\<close>

text \<open>
  \<open>reaches view m s x c\<close>: \<open>m\<close> returns \<open>x\<close> from \<open>s\<close> and leaves the controller in \<open>c\<close>, RAM and
  the driver's record of the card unchanged.
\<close>

definition reaches :: "('d \<Rightarrow> ctl) \<Rightarrow> ('d, 'a) io \<Rightarrow> 'd machine \<Rightarrow> 'a \<Rightarrow> ctl \<Rightarrow> bool" where
  "reaches view m s x c \<longleftrightarrow>
     (\<exists>t. m s = (Ret x, t) \<and> view (dev t) = c \<and> ram t = ram s \<and> sdcard t = sdcard s)"

lemma reachesE:
  assumes "reaches view m s x c"
  obtains t where "m s = (Ret x, t)" and "view (dev t) = c" and "ram t = ram s" and "sdcard t = sdcard s"
  using assms by (auto simp: reaches_def)

lemma reaches_wait:
  assumes "follows hw view sp" and "c = view (dev s)" and "0 < poll_fuel hw"
    and "c_irq c AND m \<noteq> 0" and "\<not> bit (c_irq c) 15"
  shows "reaches view (sd_wait_for_interrupt hw m) s CMD_ERROR_NONE (ctl_write sp INTERRUPT (c_irq c) c)"
proof -
  note f = followsD [OF assms(1)]
  let ?s1 = "after_read hw CLO_addr s"
  let ?s2 = "after_read hw (sd_reg INTERRUPT) ?s1"
  let ?s3 = "after_write hw (sd_reg INTERRUPT) (c_irq c) ?s2"
  have v1: "view (dev ?s1) = c" by (simp add: f(4) CLO_not_sd assms(2))
  have i: "dev_read hw (sd_reg INTERRUPT) ?s1 = c_irq c" unfolding f(1) v1 by (simp add: ctl_value_def)
  have nz: "c_irq c \<noteq> 0" using assms(4) by auto
  obtain k where k: "poll_fuel hw = Suc k" using assms(3) by (cases "poll_fuel hw") simp_all
  have "sd_wait_for_any_interrupt hw s = (Ret (c_irq c), ?s3)"
    using i nz by (simp add: sd_wait_for_any_interrupt_def k run_simps)
  then have "sd_wait_for_interrupt hw m s = (Ret CMD_ERROR_NONE, ?s3)"
    using assms(4,5) nz by (simp add: sd_wait_for_interrupt_def bnd_def irq_error_bit ret_run)
  moreover have "view (dev ?s3) = ctl_write sp INTERRUPT (c_irq c) c"
    using v1 by (simp add: f(2,3) ctl_read_def)
  ultimately show ?thesis by (simp add: reaches_def)
qed

lemma command_words:
  "command_word CMD_IDX_GO_IDLE_STATE = 0"
  "command_word CMD_IDX_ALL_SEND_CID = 0x02090000"
  "command_word CMD_IDX_SEND_RELATIVE_ADDR = 0x031a0000"
  "command_word CMD_IDX_SELECT_CARD = 0x071b0000"
  "command_word CMD_IDX_SEND_IF_COND = 0x081a0000"
  "command_word CMD_IDX_SEND_STATUS = 0x0d1a0000"
  "command_word CMD_IDX_READ_SINGLE_BLOCK = 0x113a0010"
  "command_word CMD_IDX_READ_MULTIPLE_BLOCK = 0x123a0032"
  "command_word CMD_IDX_SET_BLOCK_COUNT = 0x171a0000"
  "command_word CMD_IDX_APP_CMD = 0x371a0000"
  "command_word ACMD_IDX_SET_BUS_WIDTH = 0x061a0000"
  "command_word ACMD_IDX_SD_SEND_OP_COND = 0x29020000"
  "command_word ACMD_IDX_SD_SEND_SCR = 0x333a0010"
  by code_simp+

lemma status_ok: "\<not> sd_card_status_error_bit_set (card_status_of 0x900)" "\<not> sd_card_status_error_bit_set (card_status_of 0x920)"
  by code_simp+

text \<open>The number of a command, as the card sees it.\<close>

definition cmd_number :: "cmd_index \<Rightarrow> u32" where
  "cmd_number idx = getfld 24 6 (command_word idx)"

lemma cmd_numbers [simp]:
  "cmd_number CMD_IDX_GO_IDLE_STATE = 0" "cmd_number CMD_IDX_ALL_SEND_CID = 2"
  "cmd_number CMD_IDX_SEND_RELATIVE_ADDR = 3" "cmd_number CMD_IDX_SELECT_CARD = 7"
  "cmd_number CMD_IDX_SEND_IF_COND = 8" "cmd_number CMD_IDX_SEND_STATUS = 13"
  "cmd_number CMD_IDX_READ_SINGLE_BLOCK = 17" "cmd_number CMD_IDX_READ_MULTIPLE_BLOCK = 18"
  "cmd_number CMD_IDX_SET_BLOCK_COUNT = 23" "cmd_number CMD_IDX_APP_CMD = 55"
  "cmd_number ACMD_IDX_SET_BUS_WIDTH = 6" "cmd_number ACMD_IDX_SD_SEND_OP_COND = 41"
  "cmd_number ACMD_IDX_SD_SEND_SCR = 51"
  by code_simp+

text \<open>The controller after a command that the card answers, its completion acknowledged.\<close>

definition issued :: "sd_spec \<Rightarrow> cmd_index \<Rightarrow> u32 \<Rightarrow> card_state \<Rightarrow> ctl \<Rightarrow> ctl" where
  "issued sp idx args st c =
     (let i = cmd_number idx;
          left = (if i = 17 \<or> i = 18 \<or> i = 51 then block_words c * block_count c else 0)
      in c\<lparr>c_arg := args, c_irq := (if 0 < left then INTERRUPT_READ_READY AND c_mask c else 0), c_state := st,
           c_idx := i, c_app := (i = 55),
           c_pos := (if i = 17 \<or> i = 18 then Some (card_addr (spec_hc sp) args) else None),
           c_left := left\<rparr>)"

text \<open>A controller that can take a command.\<close>

definition takes_cmds :: "ctl \<Rightarrow> bool" where
  "takes_cmds c \<longleftrightarrow> running c \<and> c_irq c = 0 \<and> INTERRUPT_CMD_COMPLETE AND c_mask c = INTERRUPT_CMD_COMPLETE"

lemma status_resp:
  "sd_cmd_has_card_status_response (command_of idx) \<Longrightarrow>
     \<not> sd_card_status_error_bit_set (card_status_of (card_resp sp (cmd_number idx) arg))"
  by (cases idx) (simp_all add: card_resp_def status_ok command_of_def get_command_def commands_def
      sd_cmd_has_card_status_response_def)

lemma issue_acknowledged:
  assumes "takes_cmds c" and "card_next sp (c_state c) (c_app c) (cmd_number idx) args = Some st"
  defines "c1 \<equiv> ctl_write sp CMDTM (command_word idx) (ctl_write sp ARG1 args c)"
  shows "c_irq c1 = INTERRUPT_CMD_COMPLETE" and "ctl_write sp INTERRUPT (c_irq c1) c1 = issued sp idx args st c"
proof -
  have r: "running (c\<lparr>c_arg := args\<rparr>)" using assms(1) by (simp add: takes_cmds_def running_def)
  have m: "INTERRUPT_CMD_COMPLETE AND c_mask c = INTERRUPT_CMD_COMPLETE" "c_irq c = 0"
    using assms(1) by (simp_all add: takes_cmds_def)
  have 1: "c1 = c\<lparr>c_arg := args, c_irq := INTERRUPT_CMD_COMPLETE, c_state := st, c_idx := cmd_number idx,
      c_app := (cmd_number idx = 55),
      c_pos := (if cmd_number idx = 17 \<or> cmd_number idx = 18 then Some (card_addr (spec_hc sp) args) else None),
      c_left := (if cmd_number idx = 17 \<or> cmd_number idx = 18 \<or> cmd_number idx = 51 then block_words c * block_count c else 0)\<rparr>"
    using assms(2) r m
    by (simp add: c1_def ctl_write_def ctl_issue_def cmd_number_def [symmetric] block_words_def block_count_def Let_def)
  then show "c_irq c1 = INTERRUPT_CMD_COMPLETE" by simp
  have "INTERRUPT_CMD_COMPLETE AND NOT INTERRUPT_CMD_COMPLETE = 0" "INTERRUPT_CMD_COMPLETE \<noteq> 0"
    by (simp_all add: INTERRUPT_CMD_COMPLETE_def BIT_def)
  then show "ctl_write sp INTERRUPT (c_irq c1) c1 = issued sp idx args st c"
    unfolding 1 by (simp add: ctl_write_def issued_def Let_def)
qed

lemma reaches_issue:
  assumes "follows hw view sp" and "c = view (dev s)" and "0 < poll_fuel hw" and "takes_cmds c"
    and "card_next sp (c_state c) (c_app c) (cmd_number idx) args = Some st"
  shows "reaches view (sd_issue_cmd hw idx args) s CMD_ERROR_NONE (issued sp idx args st c)"
proof -
  note f = followsD [OF assms(1)]
  let ?s1 = "after_read hw (sd_reg STATUS) s"
  let ?s3 = "after_write hw (sd_reg CMDTM) (command_word idx) (after_write hw (sd_reg ARG1) args ?s1)"
  let ?c1 = "ctl_write sp CMDTM (command_word idx) (ctl_write sp ARG1 args c)"
  note ack = issue_acknowledged [OF assms(4,5)]
  have st: "dev_read hw (sd_reg STATUS) s = 0" by (simp add: f(1) ctl_value_def)
  have v3: "view (dev ?s3) = ?c1" by (simp add: f(2,3) ctl_read_def assms(2))
  have "reaches view (sd_wait_for_interrupt hw INTERRUPT_CMD_COMPLETE) ?s3 CMD_ERROR_NONE (issued sp idx args st c)"
    using reaches_wait [OF assms(1) v3 [symmetric] assms(3), of INTERRUPT_CMD_COMPLETE]
    unfolding ack(2) by (simp add: ack(1) INTERRUPT_CMD_COMPLETE_def BIT_def bit_1_iff)
  then obtain u where u: "sd_wait_for_interrupt hw INTERRUPT_CMD_COMPLETE ?s3 = (Ret CMD_ERROR_NONE, u)"
    "view (dev u) = issued sp idx args st c" "ram u = ram s" "sdcard u = sdcard s"
    by (rule reachesE) simp
  have run: "sd_issue_cmd hw idx args s = check_card_status hw idx (command_of idx) CMD_ERROR_NONE u"
    using st u(1) get_command_found [of idx] by (simp add: sd_issue_cmd_def run_simps bnd_def)
  have i: "c_idx (issued sp idx args st c) = cmd_number idx" by (simp add: issued_def Let_def)
  have "\<exists>t. check_card_status hw idx (command_of idx) CMD_ERROR_NONE u = (Ret CMD_ERROR_NONE, t) \<and>
      view (dev t) = view (dev u) \<and> ram t = ram u \<and> sdcard t = sdcard u"
  proof (cases "sd_cmd_has_card_status_response (command_of idx)")
    case True
    have "dev_read hw (sd_reg RESP0) u = card_resp sp (cmd_number idx) (c_arg (issued sp idx args st c))"
      by (simp add: f(1) u(2) ctl_value_def i)
    then show ?thesis using True status_resp [OF True]
      by (simp add: check_card_status_def run_simps f(2) ctl_read_def)
  next
    case False
    then show ?thesis by (simp add: check_card_status_def run_simps)
  qed
  then show ?thesis using run u by (auto simp: reaches_def)
qed

section \<open>Reading\<close>

lemma read_data_ctl:
  assumes "follows hw view sp" and "n \<le> c_left (view (dev s))" and "c_pos (view (dev s)) = Some p" and "4 * n \<le> 2 ^ 32"
  shows "\<exists>t. read_data hw a n s = (Ret (a + of_nat (4 * n)), t) \<and>
    ram t = ram_write (ram s) a (disk_bytes (spec_disk sp) p (4 * n)) \<and> sdcard t = sdcard s \<and>
    view (dev t) = (ctl_read DATA ^^ n) (view (dev s))"
  using assms(2-)
proof (induction n arbitrary: a s p)
  case 0
  then show ?case by (simp add: run_simps disk_bytes_def)
next
  case (Suc n)
  note f = followsD [OF assms(1)]
  let ?c = "view (dev s)" and ?w = "disk_word (spec_disk sp) p"
  let ?s = "(after_read hw (sd_reg DATA) s)\<lparr>ram := ram_set32 (ram s) a ?w\<rparr>"
  have v: "view (dev ?s) = ctl_read DATA ?c" by (simp add: f(2))
  have w: "dev_read hw (sd_reg DATA) s = ?w" using Suc.prems(2) by (simp add: f(1) ctl_value_def data_word_def)
  obtain t where t: "read_data hw (a + 4) n ?s = (Ret (a + 4 + of_nat (4 * n)), t)"
    "ram t = ram_write (ram ?s) (a + 4) (disk_bytes (spec_disk sp) (p + 4) (4 * n))" "sdcard t = sdcard ?s"
    "view (dev t) = (ctl_read DATA ^^ n) (view (dev ?s))"
  proof -
    have "n \<le> c_left (view (dev ?s))" "c_pos (view (dev ?s)) = Some (p + 4)" "4 * n \<le> 2 ^ 32"
      using Suc.prems unfolding v by (simp_all add: ctl_read_def)
    from Suc.IH [OF this] show ?thesis using that by blast
  qed
  have "ram_write (ram_write (ram s) a (bytes32 ?w)) (a + of_nat (length (bytes32 ?w))) (disk_bytes (spec_disk sp) (p + 4) (4 * n)) =
      ram_write (ram s) a (bytes32 ?w @ disk_bytes (spec_disk sp) (p + 4) (4 * n))"
    using Suc.prems(3) by (intro ram_write_append) simp
  moreover have "bytes32 ?w @ disk_bytes (spec_disk sp) (p + 4) (4 * n) = disk_bytes (spec_disk sp) p (4 * Suc n)"
    unfolding words_bytes_disk [symmetric] by (simp add: disk_words_Suc)
  ultimately have "ram t = ram_write (ram s) a (disk_bytes (spec_disk sp) p (4 * Suc n))"
    using t(2) by (simp add: ram_set32_write)
  moreover have "view (dev t) = (ctl_read DATA ^^ Suc n) ?c"
    using t(4) unfolding v by (simp only: funpow_Suc_right comp_apply)
  moreover have "read_data hw a (Suc n) s = (Ret (a + of_nat (4 * Suc n)), t)"
    using t(1) by (simp add: sd_data_addr_eq run_simps w add.assoc)
  ultimately show ?case using t(3) by simp
qed

lemma block_words_update [simp]:
  "block_words (c\<lparr>c_pos := x\<rparr>) = block_words c" "block_words (c\<lparr>c_left := y\<rparr>) = block_words c"
  "block_words (c\<lparr>c_irq := z\<rparr>) = block_words c"
  by (simp_all add: block_words_def)

lemma drain_within:
  assumes "block_words c = 128" and "c_pos c = Some p" and "c_left c = 128 * Suc k" and "j < 128"
  shows "(ctl_read DATA ^^ j) c = c\<lparr>c_pos := Some (p + 4 * j), c_left := 128 * Suc k - j\<rparr>"
  using assms(4)
proof (induction j)
  case 0
  then show ?case using assms(2,3) by (cases c) simp
next
  case (Suc j)
  have "(128 * Suc k - j - 1) mod 128 = 127 - j"
  proof -
    have "128 * Suc k - j - 1 = (127 - j) + 128 * k" using Suc.prems by simp
    then have "(128 * Suc k - j - 1) mod 128 = (127 - j) mod 128" by (simp only: mod_mult_self2)
    then show ?thesis by simp
  qed
  then have "(128 * Suc k - j - 1) mod 128 \<noteq> 0" using Suc.prems by simp
  moreover have "128 * Suc k - j \<noteq> 1" "0 < 128 * Suc k - j" using Suc.prems by simp_all
  ultimately show ?case using Suc assms(1) by (simp add: ctl_read_def add.commute)
qed

lemma drain_block:
  assumes "block_words c = 128" and "c_pos c = Some p" and "c_left c = 128 * Suc k" and "c_irq c = 0"
  shows "(ctl_read DATA ^^ 128) c = c\<lparr>c_pos := Some (p + 512), c_left := 128 * k,
    c_irq := (if k = 0 then INTERRUPT_TRANSFER_COMPLETE AND c_mask c else INTERRUPT_READ_READY AND c_mask c)\<rparr>"
proof -
  have "(128 :: nat) = Suc 127" by simp
  then have "(ctl_read DATA ^^ 128) c = ctl_read DATA ((ctl_read DATA ^^ 127) c)"
    by (simp only: funpow.simps comp_apply)
  then have "(ctl_read DATA ^^ 128) c = ctl_read DATA (c\<lparr>c_pos := Some (p + 4 * 127), c_left := 128 * Suc k - 127\<rparr>)"
    using drain_within [OF assms(1-3), of 127] by (simp del: mult_Suc_right)
  then show ?thesis using assms(1,4) by (simp add: ctl_read_def)
qed

text \<open>The flags of a transfer are recorded.\<close>

definition takes_data :: "ctl \<Rightarrow> bool" where
  "takes_data c \<longleftrightarrow> INTERRUPT_READ_READY AND c_mask c = INTERRUPT_READ_READY \<and>
     INTERRUPT_TRANSFER_COMPLETE AND c_mask c = INTERRUPT_TRANSFER_COMPLETE"

lemma ack_flag:
  assumes "c_irq c = f" and "f = INTERRUPT_READ_READY \<or> f = INTERRUPT_TRANSFER_COMPLETE"
  shows "ctl_write sp INTERRUPT f c = c\<lparr>c_irq := 0\<rparr>" and "f AND f \<noteq> 0" and "\<not> bit f 15"
  using assms by (auto simp: ctl_write_def INTERRUPT_READ_READY_def INTERRUPT_TRANSFER_COMPLETE_def
      INTERRUPT_CMD_COMPLETE_def BIT_def bit_push_bit_iff bit_1_iff)

lemma reaches_wait_flag:
  assumes "follows hw view sp" and "0 < poll_fuel hw" and "c_irq (view (dev s)) = f"
    and "f = INTERRUPT_READ_READY \<or> f = INTERRUPT_TRANSFER_COMPLETE"
  shows "reaches view (sd_wait_for_interrupt hw f) s CMD_ERROR_NONE ((view (dev s))\<lparr>c_irq := 0\<rparr>)"
  using reaches_wait [OF assms(1) refl assms(2), where m = f and s = s] ack_flag [OF assms(3,4)] assms(3) by simp

lemma read_blocks_loop_ctl:
  assumes "follows hw view sp" and "0 < poll_fuel hw" and "takes_data c" and "block_words c = 128"
    and "view (dev s) = c\<lparr>c_pos := Some p, c_left := 128 * n,
           c_irq := (if n = 0 then INTERRUPT_TRANSFER_COMPLETE else INTERRUPT_READ_READY)\<rparr>"
    and "512 * n \<le> 2 ^ 32"
  shows "\<exists>t. read_blocks_loop hw a n s = (Ret CMD_ERROR_NONE, t) \<and>
    ram t = ram_write (ram s) a (disk_bytes (spec_disk sp) p (512 * n)) \<and> sdcard t = sdcard s \<and>
    view (dev t) = c\<lparr>c_pos := Some (p + 512 * n), c_left := 0, c_irq := 0\<rparr>"
  using assms(5,6)
proof (induction n arbitrary: a s p)
  case 0
  then have i: "c_irq (view (dev s)) = INTERRUPT_TRANSFER_COMPLETE" by simp
  obtain t where t: "sd_wait_for_interrupt hw INTERRUPT_TRANSFER_COMPLETE s = (Ret CMD_ERROR_NONE, t)"
    "view (dev t) = (view (dev s))\<lparr>c_irq := 0\<rparr>" "ram t = ram s" "sdcard t = sdcard s"
    using reaches_wait_flag [OF assms(1,2) i] by (auto simp: reaches_def)
  then show ?case using 0 by (simp add: disk_bytes_def)
next
  case (Suc n)
  then have i: "c_irq (view (dev s)) = INTERRUPT_READ_READY" by simp
  obtain u where u: "sd_wait_for_interrupt hw INTERRUPT_READ_READY s = (Ret CMD_ERROR_NONE, u)"
    "view (dev u) = c\<lparr>c_pos := Some p, c_left := 128 * Suc n, c_irq := 0\<rparr>" "ram u = ram s" "sdcard u = sdcard s"
    using reaches_wait_flag [OF assms(1,2) i] Suc.prems(1) by (auto simp: reaches_def simp del: mult_Suc_right)
  obtain v where v: "read_data hw a 128 u = (Ret (a + of_nat (4 * 128)), v)"
    "ram v = ram_write (ram s) a (disk_bytes (spec_disk sp) p (4 * 128))" "sdcard v = sdcard s"
    "view (dev v) = (ctl_read DATA ^^ 128) (view (dev u))"
    using read_data_ctl [OF assms(1), of 128 u p a] u(2-4) by auto
  have w: "view (dev v) = c\<lparr>c_pos := Some (p + 512), c_left := 128 * n,
      c_irq := (if n = 0 then INTERRUPT_TRANSFER_COMPLETE else INTERRUPT_READ_READY)\<rparr>"
    using assms(3,4) drain_block [of "view (dev u)" p n]
    unfolding v(4) u(2) by (simp add: takes_data_def del: mult_Suc_right)
  obtain t where t: "read_blocks_loop hw (a + of_nat (4 * 128)) n v = (Ret CMD_ERROR_NONE, t)"
    "ram t = ram_write (ram v) (a + of_nat (4 * 128)) (disk_bytes (spec_disk sp) (p + 512) (512 * n))" "sdcard t = sdcard v"
    "view (dev t) = c\<lparr>c_pos := Some (p + 512 + 512 * n), c_left := 0, c_irq := 0\<rparr>"
    using Suc.IH [OF w] Suc.prems(2) by auto
  have "ram_write (ram_write (ram s) a (disk_bytes (spec_disk sp) p 512)) (a + of_nat (length (disk_bytes (spec_disk sp) p 512)))
      (disk_bytes (spec_disk sp) (p + 512) (512 * n)) =
      ram_write (ram s) a (disk_bytes (spec_disk sp) p 512 @ disk_bytes (spec_disk sp) (p + 512) (512 * n))"
    using Suc.prems(2) by (intro ram_write_append) simp
  then have "ram t = ram_write (ram s) a (disk_bytes (spec_disk sp) p (512 * Suc n))"
    using disk_bytes_add [of "spec_disk sp" p 512 "512 * n"] by (simp add: t(2) v(2))
  moreover have "read_blocks_loop hw a (Suc n) s = (Ret CMD_ERROR_NONE, t)"
    using u(1) v(1) t(1) by (simp add: bnd_def SD_BLKSZ_def)
  ultimately show ?case using t(3,4) v(3) by (simp add: add.assoc)
qed

text \<open>A controller between two reads: its card in the transfer state and nothing pending.\<close>

definition at_rest :: "ctl \<Rightarrow> bool" where
  "at_rest c \<longleftrightarrow> takes_cmds c \<and> takes_data c \<and> c_state c = CARD_STATE_TRANSFER \<and> \<not> c_app c"

lemma blk_fields:
  fixes n :: nat
  assumes "n \<le> 65535"
  defines "w \<equiv> of_nat 512 OR push_bit 16 (take_bit 16 (of_nat n)) :: u32"
  shows "unat (getfld 0 10 w) = 512" and "unat (getfld 16 16 w) = n"
proof -
  have "getfld 0 10 (push_bit 16 (take_bit 16 (of_nat n)) :: u32) = 0"
    by (rule bit_word_eqI) (simp add: bit_getfld bit_push_bit_iff)
  moreover have "getfld 0 10 (512 :: u32) = 512" "getfld 16 16 (512 :: u32) = 0" by code_simp+
  moreover have "getfld 16 16 (push_bit 16 (take_bit 16 (of_nat n)) :: u32) = of_nat n"
  proof -
    have "getfld 16 16 (push_bit 16 (take_bit 16 (of_nat n)) :: u32) = take_bit 16 (of_nat n)"
      by (rule bit_word_eqI) (auto simp: bit_getfld bit_push_bit_iff bit_take_bit_iff)
    also have "take_bit 16 (of_nat n) = (of_nat n :: u32)"
      using assms(1) by (simp add: take_bit_of_nat take_bit_nat_eq_self)
    finally show ?thesis .
  qed
  ultimately show "unat (getfld 0 10 w) = 512" "unat (getfld 16 16 w) = n"
    using assms(1) by (simp_all add: w_def unat_of_nat_lt)
qed

lemma read_cmd_ctl:
  assumes "follows hw view sp" and "0 < poll_fuel hw" and "at_rest (view (dev s))" and "0 < n" and "n \<le> 65535"
    and "idx = CMD_IDX_READ_SINGLE_BLOCK \<or> idx = CMD_IDX_READ_MULTIPLE_BLOCK"
  shows "\<exists>t. sd_issue_read_cmd hw idx a src n s = (Ret CMD_ERROR_NONE, t) \<and>
    ram t = ram_write (ram s) a (disk_bytes (spec_disk sp) (card_addr (spec_hc sp) src) (512 * n)) \<and>
    sdcard t = sdcard s \<and> at_rest (view (dev t))"
proof -
  let ?w = "of_nat 512 OR push_bit 16 (take_bit 16 (of_nat n)) :: u32"
  let ?s1 = "after_write hw (sd_reg BLKSIZECNT) ?w s"
  define c where "c = (view (dev s))\<lparr>c_blk := ?w\<rparr>"
  have v1: "c = view (dev ?s1)" by (simp add: c_def followsD(3) [OF assms(1)] ctl_write_def)
  have r: "takes_cmds c" "takes_data c" "c_state c = CARD_STATE_TRANSFER" "\<not> c_app c"
    using assms(3) by (simp_all add: at_rest_def c_def takes_cmds_def takes_data_def running_def)
  have b: "block_words c = 128" "block_count c = n"
    using blk_fields [OF assms(5)] by (simp_all add: block_words_def block_count_def c_def)
  have "card_next sp (c_state c) (c_app c) (cmd_number idx) src = Some CARD_STATE_TRANSFER"
    using r(3,4) assms(6) by (auto simp: card_next_def)
  from reaches_issue [OF assms(1) v1 assms(2) r(1) this] obtain u where
    u: "sd_issue_cmd hw idx src ?s1 = (Ret CMD_ERROR_NONE, u)"
      "view (dev u) = issued sp idx src CARD_STATE_TRANSFER c" "ram u = ram s" "sdcard u = sdcard s"
    by (rule reachesE) simp
  define c' where "c' = c\<lparr>c_arg := src, c_idx := cmd_number idx, c_app := False, c_state := CARD_STATE_TRANSFER\<rparr>"
  have "view (dev u) = c'\<lparr>c_pos := Some (card_addr (spec_hc sp) src), c_left := 128 * n,
      c_irq := (if n = 0 then INTERRUPT_TRANSFER_COMPLETE else INTERRUPT_READ_READY)\<rparr>"
    using assms(4,6) b r(2) unfolding u(2) issued_def Let_def takes_data_def c'_def
    by (elim disjE) simp_all
  moreover have "takes_data c'" "block_words c' = 128"
    using r b by (simp_all add: c'_def takes_data_def block_words_def)
  moreover have "512 * n \<le> 2 ^ 32" using assms(5) by simp
  ultimately obtain t where t: "read_blocks_loop hw a n u = (Ret CMD_ERROR_NONE, t)"
    "ram t = ram_write (ram u) a (disk_bytes (spec_disk sp) (card_addr (spec_hc sp) src) (512 * n))"
    "sdcard t = sdcard u"
    "view (dev t) = c'\<lparr>c_pos := Some (card_addr (spec_hc sp) src + 512 * n), c_left := 0, c_irq := 0\<rparr>"
    using read_blocks_loop_ctl [OF assms(1,2), of c' u] by blast
  have "sd_issue_read_cmd hw idx a src n s = (Ret CMD_ERROR_NONE, t)"
    using u(1) t(1) unfolding sd_issue_read_cmd_def set_blkszcnt_run by (simp add: bnd_def)
  moreover have "at_rest (view (dev t))"
    using r by (simp add: t(4) c'_def at_rest_def takes_cmds_def takes_data_def running_def)
  ultimately show ?thesis using t(2,3) u(3,4) by simp
qed

text \<open>The outcome of a read that succeeds.\<close>

definition reads_to :: "('d \<Rightarrow> ctl) \<Rightarrow> addr \<Rightarrow> u8 list \<Rightarrow> 'd machine \<Rightarrow> 'd machine \<Rightarrow> bool" where
  "reads_to view a bs s t \<longleftrightarrow>
     ram t = ram_write (ram s) a bs \<and> sdcard t = sdcard s \<and> at_rest (view (dev t))"

lemma reads_to_trans:
  assumes "reads_to view a bs s t" and "reads_to view (a + of_nat (length bs)) cs t u"
    and "length bs + length cs \<le> 2 ^ 32"
  shows "reads_to view a (bs @ cs) s u"
  using assms ram_write_append [OF assms(3), of "ram s" a] by (simp add: reads_to_def)

lemma single_block_reads_ctl:
  assumes "follows hw view sp" and "0 < poll_fuel hw" and "sdhc_or_sdxc c = spec_hc sp"
    and "at_rest (view (dev s))" and "512 * n \<le> 2 ^ 32" and "within_card (spec_hc sp) (unat lba + n)"
  shows "\<exists>x t. single_block_reads hw (spec_hc sp) a (sd_src c lba) n s = (Ret (CMD_ERROR_NONE, x), t) \<and>
    reads_to view a (disk_bytes (spec_disk sp) (512 * unat lba) (512 * n)) s t"
  using assms(4-6)
proof (induction n arbitrary: a lba s)
  case 0
  then show ?case by (simp add: run_simps reads_to_def disk_bytes_def)
next
  case (Suc n)
  have src: "sd_src c lba + (if spec_hc sp then 1 else 512) = sd_src c (lba + 1)"
    using assms(3) by (simp add: sd_src_def distrib_right)
  have addr: "card_addr (spec_hc sp) (sd_src c lba) = 512 * unat lba"
    using card_addr_sd_src [of c lba "Suc n"] Suc.prems(3) assms(3) by simp
  obtain u where u: "sd_issue_cmd17 hw a (sd_src c lba) s = (Ret CMD_ERROR_NONE, u)"
    "reads_to view a (disk_bytes (spec_disk sp) (512 * unat lba) 512) s u"
    using read_cmd_ctl [OF assms(1,2) Suc.prems(1), of 1 CMD_IDX_READ_SINGLE_BLOCK a "sd_src c lba"] addr
    by (auto simp: sd_issue_cmd17_def reads_to_def)
  have w: "within_card (spec_hc sp) (unat (lba + 1) + n)"
  proof (cases "n = 0")
    case True
    have "unat (lba + 1) \<le> unat lba + 1" by (simp add: unat_word_ariths)
    then show ?thesis using Suc.prems(3) True by (auto simp: within_card_def split: if_splits)
  next
    case False
    then show ?thesis using unat_lba_add [OF Suc.prems(3), of 1] Suc.prems(3) by simp
  qed
  obtain x t where t: "single_block_reads hw (spec_hc sp) (a + 512) (sd_src c (lba + 1)) n u = (Ret (CMD_ERROR_NONE, x), t)"
    "reads_to view (a + 512) (disk_bytes (spec_disk sp) (512 * unat (lba + 1)) (512 * n)) u t"
  proof -
    have "at_rest (view (dev u))" "512 * n \<le> 2 ^ 32" using u(2) Suc.prems(2) by (simp_all add: reads_to_def)
    from Suc.IH [OF this w] show ?thesis using that by blast
  qed
  have "disk_bytes (spec_disk sp) (512 * unat (lba + 1)) (512 * n) = disk_bytes (spec_disk sp) (512 * unat lba + 512) (512 * n)"
    using unat_lba_add [OF Suc.prems(3), of 1] by (cases "n = 0") (simp_all add: disk_bytes_def add.commute)
  then have "reads_to view a (disk_bytes (spec_disk sp) (512 * unat lba) (512 * Suc n)) s t"
    using reads_to_trans [OF u(2)] t(2) Suc.prems(2) disk_bytes_add [of "spec_disk sp" "512 * unat lba" 512 "512 * n"]
    by simp
  moreover have "single_block_reads hw (spec_hc sp) a (sd_src c lba) (Suc n) s = (Ret (CMD_ERROR_NONE, x), t)"
    using u(1) t(1) unfolding src [symmetric] by (auto simp: bnd_def SD_BLKSZ_def)
  ultimately show ?case by blast
qed

lemma u16_of_nat:
  assumes "n \<le> 65535"
  shows "unat (of_nat n :: u16) = n" and "(of_nat n :: u16) = 1 \<longleftrightarrow> n = 1"
    and "(1 :: u16) < of_nat n \<longleftrightarrow> 1 < n" and "(ucast (of_nat n :: u16) :: u32) = of_nat n"
proof -
  show un: "unat (of_nat n :: u16) = n" using assms by (simp add: unat_of_nat take_bit_nat_eq_self)
  show "(of_nat n :: u16) = 1 \<longleftrightarrow> n = 1" "(1 :: u16) < of_nat n \<longleftrightarrow> 1 < n"
    using un by (metis unat_1 word_unat_eq_iff, simp add: word_less_nat_alt)
  show "(ucast (of_nat n :: u16) :: u32) = of_nat n" using un by (metis of_nat_unat)
qed

lemma chunk_ctl:
  assumes "follows hw view sp" and "0 < poll_fuel hw" and "sdhc_or_sdxc (sdcard s) = spec_hc sp"
    and "at_rest (view (dev s))" and "address_aligned a 4" and "0 < n" and "n \<le> 65535"
    and "within_card (spec_hc sp) (unat lba + n)"
  shows "\<exists>t. sd_read_blocks_card_16 hw a lba (of_nat n) s = (Ret True, t) \<and>
    reads_to view a (disk_bytes (spec_disk sp) (512 * unat lba) (512 * n)) s t"
proof -
  let ?c = "sdcard s" and ?src = "sd_src (sdcard s) lba"
  let ?goal = "\<exists>x t. transfer_blocks hw ?c a ?src (of_nat n) s = (Ret (CMD_ERROR_NONE, x), t) \<and>
    reads_to view a (disk_bytes (spec_disk sp) (512 * unat lba) (512 * n)) s t"
  note n16 = u16_of_nat [OF assms(7)]
  have addr: "card_addr (spec_hc sp) ?src = 512 * unat lba"
    using card_addr_sd_src [of ?c lba n] assms(3,6,8) by simp
  note rd = read_cmd_ctl [OF assms(1,2) _ assms(6,7), where a = a and src = ?src, unfolded addr]
  consider (one) "n = 1" | (multi) "1 < n" "cmd23_supported ?c" | (singles) "1 < n" "\<not> cmd23_supported ?c"
    using assms(6) by linarith
  then have ?goal
  proof cases
    case one
    then show ?thesis using rd [OF assms(4), of CMD_IDX_READ_SINGLE_BLOCK]
      by (auto simp: transfer_blocks_def sd_issue_cmd17_def bnd_def ret_run reads_to_def)
  next
    case multi
    let ?d = "issued sp CMD_IDX_SET_BLOCK_COUNT (of_nat n) CARD_STATE_TRANSFER (view (dev s))"
    have "card_next sp (c_state (view (dev s))) (c_app (view (dev s))) (cmd_number CMD_IDX_SET_BLOCK_COUNT) (of_nat n) =
        Some CARD_STATE_TRANSFER"
      using assms(4) by (simp add: at_rest_def card_next_def)
    with reaches_issue [OF assms(1) refl assms(2)] obtain v where
      v: "sd_issue_cmd hw CMD_IDX_SET_BLOCK_COUNT (of_nat n) s = (Ret CMD_ERROR_NONE, v)"
        "view (dev v) = ?d" "ram v = ram s" "sdcard v = sdcard s"
      using assms(4) by (fastforce simp: at_rest_def elim: reachesE)
    have "at_rest (view (dev v))"
      using assms(4) by (simp add: v(2) issued_def Let_def at_rest_def takes_cmds_def takes_data_def running_def)
    from rd [OF this, of CMD_IDX_READ_MULTIPLE_BLOCK] show ?thesis
      using multi v n16 by (auto simp: transfer_blocks_def sd_issue_cmd18_def bnd_def ret_run reads_to_def)
  next
    case singles
    then show ?thesis
      using single_block_reads_ctl [OF assms(1,2,3,4) _ assms(8)] assms(3,7) n16
      by (auto simp: transfer_blocks_def)
  qed
  then obtain x t where t: "transfer_blocks hw ?c a ?src (of_nat n) s = (Ret (CMD_ERROR_NONE, x), t)"
    "reads_to view a (disk_bytes (spec_disk sp) (512 * unat lba) (512 * n)) s t" by blast
  have src: "(if \<not> sdhc_or_sdxc ?c then lba * of_nat SD_BLKSZ else lba) = ?src"
    by (simp add: sd_src_def SD_BLKSZ_def)
  have "sd_read_blocks_card_16 hw a lba (of_nat n) s = (Ret True, t)"
    using assms(5) t(1) unfolding sd_read_blocks_card_16_def Let_def
    by (cases x) (simp add: run_simps src bnd_def)
  then show ?thesis using t(2) by blast
qed

lemma aligned_add:
  assumes "address_aligned a 4" and "m mod 4 = 0"
  shows "address_aligned (a + of_nat m) 4"
proof -
  have "unat (a + of_nat m) mod 4 = (unat a + unat (of_nat m :: addr)) mod 2 ^ 32 mod 4"
    by (simp add: unat_word_ariths)
  also have "\<dots> = (unat a + m mod 2 ^ 32) mod 4" by (simp add: mod_mod_cancel unat_of_nat take_bit_eq_mod)
  also have "\<dots> = 0"
  proof -
    have "4 dvd unat a" "4 dvd m" using assms unfolding address_aligned_4 by (simp_all add: dvd_eq_mod_eq_0)
    then have "4 dvd unat a + m mod 2 ^ 32" by (intro dvd_add dvd_mod) simp_all
    then show ?thesis by (simp add: dvd_eq_mod_eq_0)
  qed
  finally show ?thesis unfolding address_aligned_4 .
qed

lemma read_blocks_ctl:
  assumes "follows hw view sp" and "0 < poll_fuel hw" and "sdhc_or_sdxc (sdcard s) = spec_hc sp"
    and "at_rest (view (dev s))" and "address_aligned a 4" and "512 * n \<le> 2 ^ 32"
    and "within_card (spec_hc sp) (unat lba + n)"
  shows "\<exists>t. sd_read_blocks_card hw a lba (int n) s = (Ret True, t) \<and>
    reads_to view a (disk_bytes (spec_disk sp) (512 * unat lba) (512 * n)) s t"
  using assms(3-7)
proof (induction n arbitrary: a lba s rule: less_induct)
  case (less n)
  show ?case
  proof (cases "n = 0")
    case True
    then show ?thesis using less.prems(2)
      by (simp add: sd_read_blocks_card.simps run_simps reads_to_def disk_bytes_def)
  next
    case False
    define m where "m = min n 65535"
    have m: "0 < m" "m \<le> 65535" "m \<le> n" using False by (simp_all add: m_def)
    have arg: "of_int (if int n < UINT16_MAX then int n else UINT16_MAX) = (of_nat m :: u16)"
      by (simp add: UINT16_MAX_def m_def min_def)
    have "within_card (spec_hc sp) (unat lba + m)"
      using less.prems(5) m(3) by (auto simp: within_card_def split: if_splits)
    then obtain u where u: "sd_read_blocks_card_16 hw a lba (of_nat m) s = (Ret True, u)"
      "reads_to view a (disk_bytes (spec_disk sp) (512 * unat lba) (512 * m)) s u"
      using chunk_ctl [OF assms(1,2) less.prems(1-3) m(1,2)] by blast
    have run: "sd_read_blocks_card hw a lba (int n) s = sd_read_blocks_card hw (a + of_nat (512 * 65535))
        (lba + of_nat 65535) (int n - 65535) u"
      using u(1) False
      by (subst sd_read_blocks_card.simps, unfold arg) (simp add: bnd_def SD_BLKSZ_def UINT16_MAX_def)
    show ?thesis
    proof (cases "n \<le> 65535")
      case True
      then have "m = n" "sd_read_blocks_card hw a lba (int n) s = (Ret True, u)"
        unfolding run by (simp_all add: m_def sd_read_blocks_card.simps run_simps)
      then show ?thesis using u(2) by blast
    next
      case big: False
      then have mn: "m = 65535" and k: "int n - 65535 = int (n - 65535)" "n - 65535 < n" by (simp_all add: m_def)
      have lba: "unat (lba + of_nat 65535) = unat lba + 65535"
        using unat_lba_add [OF less.prems(5), of 65535] big by simp
      have "sdhc_or_sdxc (sdcard u) = spec_hc sp" "at_rest (view (dev u))" "address_aligned (a + of_nat (512 * 65535)) 4"
        "512 * (n - 65535) \<le> 2 ^ 32" "within_card (spec_hc sp) (unat (lba + of_nat 65535) + (n - 65535))"
        using u(2) less.prems big aligned_add [OF less.prems(3), of "512 * 65535"] unfolding lba
        by (simp_all add: reads_to_def)
      from less.IH [OF k(2) this] obtain t where
        t: "sd_read_blocks_card hw (a + of_nat (512 * 65535)) (lba + of_nat 65535) (int (n - 65535)) u = (Ret True, t)"
          "reads_to view (a + of_nat (512 * 65535))
            (disk_bytes (spec_disk sp) (512 * unat lba + 512 * 65535) (512 * (n - 65535))) u t"
        unfolding lba by (auto simp: distrib_left)
      have sz: "512 * 65535 + 512 * (n - 65535) = 512 * n" using big by simp
      have "reads_to view a (disk_bytes (spec_disk sp) (512 * unat lba) (512 * 65535) @
          disk_bytes (spec_disk sp) (512 * unat lba + 512 * 65535) (512 * (n - 65535))) s t"
      proof (rule reads_to_trans [OF u(2) [unfolded mn]])
        show "reads_to view (a + of_nat (length (disk_bytes (spec_disk sp) (512 * unat lba) (512 * 65535))))
          (disk_bytes (spec_disk sp) (512 * unat lba + 512 * 65535) (512 * (n - 65535))) u t"
          using t(2) by (simp only: length_disk)
      qed (use less.prems(4) sz in \<open>simp only: length_disk\<close>)
      then show ?thesis
        using t(1) unfolding run k(1) disk_bytes_add [symmetric] sz by blast
    qed
  qed
qed

end
