(* ===== verification/Vc_Reference.thy ===== *)
theory Vc_Reference
  imports Uart_Init
begin

unbundle bit_operations_syntax

text \<open>
  The VideoCore's side of the property channel, as the firmware documents it, for the tags
  the bootloader uses on a board whose clocks and expander pins are set up: the answer to a
  buffer with one request tag has the response bits and the value of the tag filled in, and the message
  comes back as it was sent.
\<close>

section \<open>The reference\<close>

definition vc_reply :: "u32 \<Rightarrow> u32 \<Rightarrow> u32 list" where
  "vc_reply tid arg =
     (if tid = tag_id_value TAG_CLOCK_GET_RATE then [arg, if arg = CLK_EMMC2 then 100000000 else 250000000]
      else if tid = tag_id_value TAG_GPIO_GET_CONFIG then [0, 1, 0, 0, 0]
      else if tid = tag_id_value TAG_GPIO_GET_STATE then
        [0, if arg = convert_pin_to_vc GPIO_EXPANDER_SD_PWR_ON then 1 else 0]
      else [arg, 1])"

abbreviation vc_bytes :: "u32 \<Rightarrow> u32 \<Rightarrow> u8 list" where
  "vc_bytes tid arg \<equiv> words_bytes (vc_reply tid arg)"

definition vc_answer :: "ram \<Rightarrow> ram" where
  "vc_answer m =
     (let reply = vc_bytes (ram_get32 m (HEAP_RAM_ADDR + 8)) (ram_get32 m (HEAP_RAM_ADDR + 20))
      in ram_write (ram_write (ram_write m (HEAP_RAM_ADDR + 4) (bytes32 0x80000000))
           (HEAP_RAM_ADDR + 16) (bytes32 (0x80000000 OR of_nat (length reply)))) (HEAP_RAM_ADDR + 20) reply)"

abbreviation mbox_reg :: "vcmailbox_register \<Rightarrow> addr" where
  "mbox_reg r \<equiv> get_peripheral_reg_addr vcmailbox_access r"

definition mailbox_follows :: "'d hw \<Rightarrow> ('d \<Rightarrow> u32) \<Rightarrow> bool" where
  "mailbox_follows hw msg \<longleftrightarrow>
     (\<forall>d. \<not> bit (fst (mmio_read hw (mbox_reg MBOX0_STATUS) d)) 30) \<and>
     (\<forall>d. \<not> bit (fst (mmio_read hw (mbox_reg MBOX1_STATUS) d)) 31) \<and>
     (\<forall>d. fst (mmio_read hw (mbox_reg MBOX0_READ) d) = msg d) \<and>
     (\<forall>a d. msg (snd (mmio_read hw a d)) = msg d) \<and>
     (\<forall>v d. msg (mmio_write hw (mbox_reg MBOX1_WRITE) v d) = v) \<and>
     (\<forall>d m. vc_respond hw d m = vc_answer m)"

section \<open>A request that is answered\<close>

lemma mailbox_exchange:
  assumes "mailbox_follows hw msg" and "0 < poll_fuel hw"
  shows "\<exists>t. exchange hw reqs s = (Ret (HEAP_RAM_ADDR OR CHANNEL_PROPERTY), t) \<and>
    ram t = vc_answer (snd (build_property_buffer reqs (ram s)))"
proof -
  have f: "\<not> bit (fst (mmio_read hw (mbox_reg MBOX0_STATUS) d)) 30"
    "\<not> bit (fst (mmio_read hw (mbox_reg MBOX1_STATUS) d)) 31"
    "fst (mmio_read hw (mbox_reg MBOX0_READ) d) = msg d" "msg (snd (mmio_read hw a d)) = msg d"
    "msg (mmio_write hw (mbox_reg MBOX1_WRITE) v d) = v" "vc_respond hw d m = vc_answer m" for d a v m
    using assms(1) by (simp_all add: mailbox_follows_def)
  have w1: "while_cond_timeout_infinite hw (mbox1_status_full_flag_set hw) ms u =
      (Ret (), after_read hw (mbox_reg MBOX1_STATUS) (after_read hw CLO_addr u))" for ms u
    using assms(2) f(2) by (intro mbox1_wait.while_cond_false) (simp_all add: MBOX1_STATUS_FULL_def and_BIT_eq_0)
  have w0: "while_cond_timeout_infinite hw (mbox0_status_empty_flag_set hw) ms u =
      (Ret (), after_read hw (mbox_reg MBOX0_STATUS) (after_read hw CLO_addr u))" for ms u
    using assms(2) f(1) by (intro mbox0_wait.while_cond_false) (simp_all add: MBOX0_STATUS_EMPTY_def and_BIT_eq_0)
  have h: "HEAP_RAM_ADDR AND NOT CHANNEL_BITS OR CHANNEL_PROPERTY = HEAP_RAM_ADDR OR CHANNEL_PROPERTY"
    by (simp add: HEAP_RAM_ADDR_def CHANNEL_BITS_def CHANNEL_PROPERTY_def BITS_def)
  show ?thesis
    by (simp add: exchange_def vcmailbox_write_message_def vcmailbox_read_message_def bnd_assoc run_simps
        bnd_Ret [OF w1] bnd_Ret [OF w0] f h)
qed

section \<open>The buffer and its answer\<close>

definition prop_image :: "u32 \<Rightarrow> u32 \<Rightarrow> nat \<Rightarrow> u32 \<Rightarrow> u32 \<Rightarrow> u8 list \<Rightarrow> u8 list" where
  "prop_image sz code n tid tcode val =
     bytes32 sz @ bytes32 code @ bytes32 tid @ bytes32 (of_nat n) @ bytes32 tcode @ val @ bytes32 0"

lemma prop_image_words:
  fixes m :: ram and sz code tid tcode :: u32 and n :: nat and val :: "u8 list"
  assumes "length val \<le> 64"
  defines "m' \<equiv> ram_write m HEAP_RAM_ADDR (prop_image sz code n tid tcode val)"
  shows "ram_get32 m' (HEAP_RAM_ADDR + 4) = code" and "ram_get32 m' (HEAP_RAM_ADDR + 8) = tid"
    and "ram_get32 m' (HEAP_RAM_ADDR + 12) = of_nat n" and "ram_get32 m' (HEAP_RAM_ADDR + 16) = tcode"
    and "ram_bytes m' (HEAP_RAM_ADDR + 20) (length val) = val"
    and "ram_get32 m' (HEAP_RAM_ADDR + 20 + of_nat (length val)) = 0"
proof -
  let ?bs = "prop_image sz code n tid tcode val" and ?H = HEAP_RAM_ADDR
  have L: "length ?bs = 24 + length val" by (simp add: prop_image_def)
  note at = ram_get32_within [of _ ?bs _ m ?H, folded m'_def]
  show "ram_get32 m' (?H + 4) = code" using at [of 4 code] assms(1) L by (simp add: prop_image_def)
  show "ram_get32 m' (?H + 8) = tid" using at [of 8 tid] assms(1) L by (simp add: prop_image_def)
  show "ram_get32 m' (?H + 12) = of_nat n" using at [of 12 "of_nat n"] assms(1) L by (simp add: prop_image_def)
  show "ram_get32 m' (?H + 16) = tcode" using at [of 16 tcode] assms(1) L by (simp add: prop_image_def)
  have "ram_get32 m' (?H + of_nat (20 + length val)) = 0"
    using at [of "20 + length val" 0] assms(1) L by (simp add: prop_image_def)
  then show "ram_get32 m' (?H + 20 + of_nat (length val)) = 0" by (simp add: add.assoc)
  show "ram_bytes m' (?H + 20) (length val) = val"
    using ram_bytes_write_sub [of 20 "length val" ?bs m ?H] assms(1) L unfolding m'_def by (simp add: prop_image_def)
qed

lemma prop_image_writes:
  assumes "length val = n" and "length val' = n" and "4 \<le> n" and "n \<le> 64"
  shows "ram_write (ram_write m HEAP_RAM_ADDR (prop_image sz code n tid tcode val)) (HEAP_RAM_ADDR + 4) (bytes32 w) =
      ram_write m HEAP_RAM_ADDR (prop_image sz w n tid tcode val)"
    and "ram_write (ram_write m HEAP_RAM_ADDR (prop_image sz code n tid tcode val)) (HEAP_RAM_ADDR + 16) (bytes32 w) =
      ram_write m HEAP_RAM_ADDR (prop_image sz code n tid w val)"
    and "ram_write (ram_write m HEAP_RAM_ADDR (prop_image sz code n tid tcode val)) (HEAP_RAM_ADDR + 20) val' =
      ram_write m HEAP_RAM_ADDR (prop_image sz code n tid tcode val')"
proof -
  let ?bs = "prop_image sz code n tid tcode val" and ?H = HEAP_RAM_ADDR
  have L: "length ?bs = 24 + n" using assms(1) by (simp add: prop_image_def)
  have ne: "bytes32 w \<noteq> []" "val' \<noteq> []" using assms(2,3) by (auto simp: bytes32_def)
  show "ram_write (ram_write m ?H ?bs) (?H + 4) (bytes32 w) = ram_write m ?H (prop_image sz w n tid tcode val)"
    using ram_write_within [of 4 "bytes32 w" ?bs m ?H] L ne assms by (simp add: prop_image_def)
  show "ram_write (ram_write m ?H ?bs) (?H + 16) (bytes32 w) = ram_write m ?H (prop_image sz code n tid w val)"
    using ram_write_within [of 16 "bytes32 w" ?bs m ?H] L ne assms by (simp add: prop_image_def)
  show "ram_write (ram_write m ?H ?bs) (?H + 20) val' = ram_write m ?H (prop_image sz code n tid tcode val')"
    using ram_write_within [of 20 val' ?bs m ?H] L ne assms by (simp add: prop_image_def)
qed

lemma vc_answer_image:
  assumes "length (vc_bytes tid arg) = n" and "4 \<le> n" and "n \<le> 64"
  shows "vc_answer (ram_write m HEAP_RAM_ADDR (prop_image sz 0 n tid 0 (bytes32 arg @ replicate (n - 4) 0))) =
    ram_write m HEAP_RAM_ADDR (prop_image sz 0x80000000 n tid (0x80000000 OR of_nat n) (vc_bytes tid arg))"
proof -
  let ?v = "bytes32 arg @ replicate (n - 4) 0"
  have L: "length ?v = n" using assms(2) by simp
  have "ram_get32 (ram_write m HEAP_RAM_ADDR (prop_image sz 0 n tid 0 ?v)) (HEAP_RAM_ADDR + of_nat 20) = arg"
    using assms(2,3) by (intro ram_get32_within) (simp_all add: prop_image_def)
  moreover have "ram_get32 (ram_write m HEAP_RAM_ADDR (prop_image sz 0 n tid 0 ?v)) (HEAP_RAM_ADDR + 8) = tid"
    using assms(2,3) by (intro prop_image_words(2)) simp
  ultimately show ?thesis
    using L assms by (simp add: vc_answer_def prop_image_writes [where n = n])
qed

lemma request1_answered:
  assumes "mailbox_follows hw msg" and "0 < poll_fuel hw"
    and "length (vc_bytes (tag_id_value tid) arg) = n" and "4 \<le> n" and "n \<le> 64"
  shows "\<exists>t. request1 hw tid arg n s = (Ret (VCMBOX_ERROR_NONE, vc_bytes (tag_id_value tid) arg), t)"
proof -
  let ?req = "\<lparr>req_id = tid, req_args = bytes32 arg, req_ret = map (uninit hw) [0..<n]\<rparr>"
  let ?v = "vc_bytes (tag_id_value tid) arg" and ?id = "tag_id_value tid" and ?H = HEAP_RAM_ADDR
  obtain t where t: "exchange hw [?req] s = (Ret (?H OR CHANNEL_PROPERTY), t)"
    "ram t = vc_answer (snd (build_property_buffer [?req] (ram s)))"
    using mailbox_exchange [OF assms(1,2)] by blast
  have n4: "n mod 4 = 0" using assms(3) by (auto simp: length_words)
  have ws: "word_sized ?req" using n4 assms(4,5) by (simp add: word_sized_def value_bufsz_def max_def)
  have "length (tag_image ?req) < 2 ^ 30" using assms(4,5) by (simp add: length_tag_image value_bufsz_def max_def)
  then obtain sz where "build_property_buffer [?req] (ram s) =
      (?H, ram_write (ram s) ?H (bytes32 sz @ bytes32 0 @ tag_image ?req @ bytes32 0))"
    using build_property_buffer_image [of "[?req]" "ram s"] ws by simp
  moreover have "bytes32 sz @ bytes32 0 @ tag_image ?req @ bytes32 0 =
      prop_image sz 0 n ?id 0 (bytes32 arg @ replicate (n - 4) 0)"
    using assms(4) by (simp add: tag_image_def value_bufsz_def max_def prop_image_def)
  ultimately have m: "ram t = ram_write (ram s) ?H (prop_image sz 0x80000000 n ?id (0x80000000 OR of_nat n) ?v)"
    unfolding t(2) using vc_answer_image [OF assms(3-5)] by simp
  have "length ?v \<le> 64" using assms(3,5) by simp
  note w = prop_image_words [OF this, of "ram s" sz "0x80000000" n ?id "0x80000000 OR of_nat n", folded m]
  have code: "bit (0x80000000 OR of_nat n :: u32) 31" "unat (take_bit 31 (0x80000000 OR of_nat n :: u32)) = n"
  proof -
    have "take_bit 31 (0x80000000 :: u32) = 0" "bit (0x80000000 :: u32) 31" by code_simp+
    moreover have "take_bit 31 (of_nat n :: u32) = of_nat n"
      using assms(5) by (simp add: take_bit_of_nat take_bit_nat_eq_self)
    ultimately show "bit (0x80000000 OR of_nat n :: u32) 31" "unat (take_bit 31 (0x80000000 OR of_nat n :: u32)) = n"
      using assms(5) by (simp_all add: bit_or_iff take_bit_or unat_of_nat_lt)
  qed
  have "answered (ram t) (?H + 8) [?req] [?v]"
    using w code assms(3) by (simp add: add.assoc)
  then have "check_response hw [?req] ?H (?H OR CHANNEL_PROPERTY) t = (Ret (VCMBOX_ERROR_NONE, [?v]), t)"
    unfolding check_response_none using w(1) by (simp add: HEAP_RAM_ADDR_def CHANNEL_PROPERTY_def CHANNEL_BITS_def BITS_def)
  then have "vcmailbox_request_tags hw [?req] s = (Ret (VCMBOX_ERROR_NONE, [?v]), t)"
    unfolding request_tags_exchange using t(1) by (simp add: bnd_def)
  then show ?thesis by (simp add: request1_def bnd_def ret_run)
qed

lemma word_at_words: "k < length ws \<Longrightarrow> word_at (words_bytes ws) k = ws ! k"
proof (induction ws arbitrary: k)
  case (Cons w ws)
  show ?case
  proof (cases k)
    case 0
    then show ?thesis by (simp add: word_at_def nth_append) (simp add: bytes32_def)
  next
    case (Suc j)
    then have "word_at (words_bytes (w # ws)) k = word_at (words_bytes ws) j"
      by (simp add: word_at_def nth_append add.commute)
    then show ?thesis using Cons Suc by simp
  qed
qed simp

text \<open>The answers to the requests of the driver.\<close>

lemma tags_answered:
  assumes "mailbox_follows hw msg" and "0 < poll_fuel hw"
  shows "\<exists>t. tag_clock_get_state hw clk s = (Ret (clock_state_of 1), t)"
    and "\<exists>t. tag_clock_get_rate hw clk s = (Ret (if clk = CLK_EMMC2 then 100000000 else 250000000), t)"
    and "\<exists>t. tag_gpio_get_config hw pin s =
      (Ret \<lparr>cfg_unused = 0, direction = 1, polarity = 0, term_en = 0, term_pull_up = 0\<rparr>, t)"
    and "\<exists>t. tag_gpio_get_state hw pin s = (Ret (if pin = GPIO_EXPANDER_SD_PWR_ON then 1 else 0), t)"
proof -
  note r = request1_answered [OF assms]
  have pin: "convert_pin_to_vc pin = convert_pin_to_vc GPIO_EXPANDER_SD_PWR_ON \<longleftrightarrow> pin = GPIO_EXPANDER_SD_PWR_ON"
    by (cases pin) (simp_all add: convert_pin_to_vc_def)
  show "\<exists>t. tag_clock_get_state hw clk s = (Ret (clock_state_of 1), t)"
    using r [of TAG_CLOCK_GET_STATE clk 8 s]
    by (auto simp: tag_clock_get_state_def bnd_def run_simps vc_reply_def word_at_words length_words simp del: concat.simps list.map)
  show "\<exists>t. tag_clock_get_rate hw clk s = (Ret (if clk = CLK_EMMC2 then 100000000 else 250000000), t)"
    using r [of TAG_CLOCK_GET_RATE clk 8 s]
    by (auto simp: tag_clock_get_rate_def bnd_def run_simps vc_reply_def word_at_words length_words simp del: concat.simps list.map)
  show "\<exists>t. tag_gpio_get_config hw pin s =
      (Ret \<lparr>cfg_unused = 0, direction = 1, polarity = 0, term_en = 0, term_pull_up = 0\<rparr>, t)"
    using r [of TAG_GPIO_GET_CONFIG "convert_pin_to_vc pin" 20 s]
    by (auto simp: tag_gpio_get_config_def bnd_def run_simps vc_reply_def word_at_words length_words simp del: concat.simps list.map)
  show "\<exists>t. tag_gpio_get_state hw pin s = (Ret (if pin = GPIO_EXPANDER_SD_PWR_ON then 1 else 0), t)"
    using r [of TAG_GPIO_GET_STATE "convert_pin_to_vc pin" 8 s] pin
    by (auto simp: tag_gpio_get_state_def bnd_def run_simps vc_reply_def word_at_words length_words simp del: concat.simps list.map)
qed

end
