(* ===== verification/Outcomes.thy ===== *)
theory Outcomes
  imports Boot Sd_Facts
begin

unbundle bit_operations_syntax

text \<open>
  How the operations can end. \<open>ends E m\<close>: whatever the state and the hardware, \<open>m\<close> returns, or
  signals one of the error codes \<open>E\<close>, or polls for ever, or is undefined; it never jumps to
  the kernel.
\<close>

definition ends :: "error_code set \<Rightarrow> ('s, 'a) prog \<Rightarrow> bool" where
  "ends E m \<longleftrightarrow> (\<forall>s. case fst (m s) of Ret x \<Rightarrow> True | Signal e \<Rightarrow> e \<in> E | Boot k \<Rightarrow> False | Undef \<Rightarrow> True | Hang \<Rightarrow> True)"

lemma ends_mono: "ends E m \<Longrightarrow> E \<subseteq> F \<Longrightarrow> ends F m"
  unfolding ends_def by (fastforce split: res.splits)

lemma ends_not_Boot: "ends E m \<Longrightarrow> m s \<noteq> (Boot k, t)"
  unfolding ends_def by (auto dest!: spec [of _ s])

lemma ends_Signal: "ends E m \<Longrightarrow> m s = (Signal e, t) \<Longrightarrow> e \<in> E"
  unfolding ends_def by (auto dest!: spec [of _ s])

section \<open>Rules\<close>

lemma ends_prim:
  "ends E (ret x)" "ends E (gets f)" "ends E (modify g)" "ends E (stop Undef)" "ends E (stop Hang)"
  "e \<in> E \<Longrightarrow> ends E (stop (Signal e))"
  by (simp_all add: ends_def prim_defs)

lemma ends_bnd: "ends E m \<Longrightarrow> (\<And>x. ends E (f x)) \<Longrightarrow> ends E (bnd m f)"
  unfolding ends_def bnd_def
  by (auto split: prod.splits res.splits) (metis fst_conv res.simps)+

lemma ends_when: "(b \<Longrightarrow> ends E m) \<Longrightarrow> ends E (when_io b m)"
  by (simp add: when_io_def ends_prim)

lemma ends_if: "(b \<Longrightarrow> ends E m) \<Longrightarrow> (\<not> b \<Longrightarrow> ends E n) \<Longrightarrow> ends E (if b then m else n)"
  by simp

lemma ends_option:
  "(x = None \<Longrightarrow> ends E m) \<Longrightarrow> (\<And>y. x = Some y \<Longrightarrow> ends E (f y)) \<Longrightarrow> ends E (case x of None \<Rightarrow> m | Some y \<Rightarrow> f y)"
  by (cases x) simp_all

lemma ends_signal: "e \<in> E \<Longrightarrow> ends E (signal_error hw e)"
  by (simp add: ends_def run_simps)

lemma ends_register:
  "ends E (register_get hw p r)" "ends E (register_get_out hw p r)" "ends E (register_set hw p r v)"
  "ends E (register_set_ptr hw p r v)" "ends E (bus_read hw a)" "ends E (bus_write hw a v)"
  by (simp_all add: ends_def run_simps)

lemmas ends_rules = ends_prim(1-5) ends_bnd ends_when ends_if ends_option ends_signal ends_register

lemma ends_register_bits: "ends E (register_enable_bits hw p r m)" "ends E (register_disable_bits hw p r m)"
  unfolding register_enable_bits_def register_disable_bits_def by (intro ends_rules)+

lemma ends_usleep_loop: "ends E (usleep_loop hw e k)"
  by (induction k) (auto intro!: ends_rules)

lemma ends_timer:
  "ends E (timer_poll_start hw ms)" "ends E (timer_poll_done hw ts)" "ends E (timer_current hw)"
  "ends E (usleep hw us)" "ends E (sleep hw ms)"
  unfolding timer_poll_start_def timer_poll_done_def timer_current_def usleep_def sleep_def
  by (intro ends_rules ends_usleep_loop)+

lemma ends_while_cond_loop: "ends E c \<Longrightarrow> ERROR_INFINITE_LOOP \<in> E \<Longrightarrow> ends E (while_cond_loop hw c ts k)"
  by (induction k) (auto intro!: ends_rules ends_timer)

lemma ends_while_cond: "ends E c \<Longrightarrow> ERROR_INFINITE_LOOP \<in> E \<Longrightarrow> ends E (while_cond_timeout_infinite hw c ms)"
  unfolding while_cond_timeout_infinite_def by (intro ends_rules ends_timer ends_while_cond_loop)

lemma ends_uart_transmit: "ERROR_INFINITE_LOOP \<in> E \<Longrightarrow> ends E (uart_transmit hw bs)"
  by (induction bs)
    (auto intro!: ends_rules ends_while_cond simp: uart_lsr_transmitter_not_empty_def)

section \<open>The components\<close>

text \<open>The codes that a log line can signal.\<close>

definition log_codes :: "error_code set" where
  "log_codes = {ERROR_INFINITE_LOOP, ERROR_VSNPRINTF}"

lemma ends_serial_log: "log_codes \<subseteq> E \<Longrightarrow> ends E (serial_log hw fmt ap)"
  unfolding serial_log_def run_fres_def log_codes_def
  by (auto intro!: ends_rules ends_timer ends_uart_transmit split: fres.split)

lemma log_codes_loop: "log_codes \<subseteq> E \<Longrightarrow> ERROR_INFINITE_LOOP \<in> E"
  by (simp add: log_codes_def)

lemma ends_return_tags: "log_codes \<subseteq> E \<Longrightarrow> ends E (return_tags hw tag reqs i n rets)"
proof (induction reqs arbitrary: tag i rets)
  case (Cons req reqs)
  then show ?case unfolding return_tags.simps Let_def by (intro ends_rules ends_serial_log)
qed (unfold return_tags.simps, intro ends_rules ends_serial_log)

lemma ends_mailbox_wait:
  "ERROR_INFINITE_LOOP \<in> E \<Longrightarrow> ends E (while_cond_timeout_infinite hw (mbox1_status_full_flag_set hw) ms)"
  "ERROR_INFINITE_LOOP \<in> E \<Longrightarrow> ends E (while_cond_timeout_infinite hw (mbox0_status_empty_flag_set hw) ms)"
  unfolding mbox1_status_full_flag_set_def mbox0_status_empty_flag_set_def
  by (intro ends_rules ends_while_cond; assumption)+

lemma ends_request_tags: "log_codes \<subseteq> E \<Longrightarrow> ends E (vcmailbox_request_tags hw reqs)"
  unfolding vcmailbox_request_tags_def vcmailbox_write_message_def vcmailbox_read_message_def
    check_response_def return_tag_responses_def case_prod_beta Let_def
  by (intro ends_rules ends_mailbox_wait ends_serial_log ends_return_tags log_codes_loop)

lemma ends_tags:
  assumes "log_codes \<subseteq> E" and "ERROR_VCMAILBOX \<in> E"
  shows "ends E (tag_power_get_state hw dev_id)" and "ends E (tag_clock_get_state hw clk_id)"
    and "ends E (tag_clock_get_rate hw clk_id)" and "ends E (tag_gpio_get_state hw pin)"
    and "ends E (tag_gpio_get_config hw pin)"
  unfolding tag_power_get_state_def tag_clock_get_state_def tag_clock_get_rate_def
    tag_gpio_get_state_def tag_gpio_get_config_def request1_def case_prod_beta
  by (intro ends_rules ends_request_tags ends_serial_log assms)+

lemma ends_gpio: "ends E (gpio_pin_select_op hw pin op)"
  unfolding gpio_pin_select_op_def Let_def by (intro ends_rules)

lemma ends_uart_init: "log_codes \<subseteq> E \<Longrightarrow> ERROR_VCMAILBOX \<in> E \<Longrightarrow> ends E (uart_init hw)"
  unfolding uart_init_def uart_set_baudrate_def
  by (intro ends_rules ends_register_bits ends_gpio ends_tags)

lemma ends_wait_any_loop: "ends E (wait_any_loop hw ts k)"
  by (induction k) (auto intro!: ends_rules ends_timer)

lemma ends_wait: "log_codes \<subseteq> E \<Longrightarrow> ends E (sd_wait_for_interrupt hw m)"
  unfolding sd_wait_for_interrupt_def sd_wait_for_any_interrupt_def
  by (intro ends_rules ends_timer ends_wait_any_loop ends_serial_log)

lemma ends_issue: "log_codes \<subseteq> E \<Longrightarrow> ends E (sd_issue_cmd hw idx args)"
  "log_codes \<subseteq> E \<Longrightarrow> ends E (sd_issue_acmd hw idx args rca)"
  unfolding sd_issue_acmd_def sd_issue_cmd_def check_card_status_def
  by (intro ends_rules ends_wait ends_serial_log; assumption)+

lemma ends_acmd41_loop: "log_codes \<subseteq> E \<Longrightarrow> ends E (acmd41_loop hw ts i args k)"
  by (induction k arbitrary: i) (auto intro!: ends_rules ends_issue ends_timer ends_serial_log)

lemma ends_sd_cmds:
  assumes "log_codes \<subseteq> E"
  shows "ends E (sd_issue_cmd8 hw)" and "ends E (sd_issue_acmd41 hw)" and "ends E (sd_issue_cmd3 hw)"
    and "ends E (sd_issue_cmd7 hw rca)" and "ends E (sd_issue_cmd13 hw rca)" and "ends E (sd_issue_acmd6 hw rca b)"
    and "ends E (sd_issue_acmd51 hw rca)"
  unfolding sd_issue_cmd8_def sd_issue_acmd41_def sd_issue_cmd3_def sd_issue_cmd7_def
    sd_issue_cmd13_def sd_issue_acmd6_def sd_issue_acmd51_def set_blkszcnt_def Let_def
  by (intro ends_rules ends_issue ends_acmd41_loop ends_timer ends_serial_log ends_wait assms)+

lemma ends_read_data: "ends E (read_data hw a n)"
  by (induction n arbitrary: a) (auto intro!: ends_rules)

lemma ends_read_blocks_loop: "log_codes \<subseteq> E \<Longrightarrow> ends E (read_blocks_loop hw a n)"
  by (induction n arbitrary: a) (auto intro!: ends_rules ends_wait ends_read_data)

lemma ends_read_cmd: "log_codes \<subseteq> E \<Longrightarrow> ends E (sd_issue_read_cmd hw idx a src n)"
  unfolding sd_issue_read_cmd_def set_blkszcnt_def
  by (intro ends_rules ends_issue ends_read_blocks_loop)

lemma ends_single_block_reads: "log_codes \<subseteq> E \<Longrightarrow> ends E (single_block_reads hw hc a src n)"
  by (induction n arbitrary: a src) (auto intro!: ends_rules ends_read_cmd simp: sd_issue_cmd17_def)

lemma ends_read_blocks_16: "log_codes \<subseteq> E \<Longrightarrow> ends E (sd_read_blocks_card_16 hw a lba n)"
  unfolding sd_read_blocks_card_16_def transfer_blocks_def sd_issue_cmd17_def sd_issue_cmd18_def Let_def case_prod_beta
  by (intro ends_rules ends_read_cmd ends_serial_log ends_issue ends_single_block_reads)

lemma ends_read_blocks_card: "log_codes \<subseteq> E \<Longrightarrow> ends E (sd_read_blocks_card hw a lba n)"
proof (induction hw a lba n rule: sd_read_blocks_card.induct)
  case (1 hw a lba n)
  then show ?case
    by (subst sd_read_blocks_card.simps) (intro ends_rules ends_read_blocks_16; simp)
qed

lemma ends_reads:
  assumes "log_codes \<subseteq> E"
  shows "ends E (sd_read_blocks hw a lba n)" and "ends E (sd_read_bytes hw a lba n)"
  unfolding sd_read_bytes_def sd_read_blocks_def Let_def by (intro ends_read_blocks_card assms)+

lemma ends_host:
  assumes "log_codes \<subseteq> E"
  shows "ends E (sd_reset_host hw)" and "ends E (sd_supply_bus_power hw)" and "ends E (sd_supply_clock hw r)"
    and "ends E (sd_enable_interrupts hw i)"
  unfolding sd_reset_host_def sd_supply_bus_power_def sd_supply_clock_def sd_enable_interrupts_def
    sd_sw_reset_hc_bit_set_def sd_internal_clock_not_stable_def Let_def
  by (intro ends_rules ends_register_bits ends_while_cond log_codes_loop assms)+

lemma ends_set_card: "ends E (set_card f)"
  by (simp add: set_card_def ends_prim)

text \<open>The codes that the initialisation of the card can signal itself.\<close>

definition init_codes :: "error_code set" where
  "init_codes = insert ERROR_VCMAILBOX (insert ERROR_VC_NOT_INIT_MMC log_codes)"

lemma init_codes_facts: "log_codes \<subseteq> init_codes" "ERROR_VCMAILBOX \<in> init_codes" "ERROR_VC_NOT_INIT_MMC \<in> init_codes"
  by (auto simp: init_codes_def)

lemma ends_assert_vc_init: "ends init_codes (sd_assert_vc_init hw)"
  unfolding sd_assert_vc_init_def sd_assert_base_clock_def sd_assert_voltage_def sd_assert_card_power_def
  by (intro ends_rules ends_tags ends_serial_log init_codes_facts)

lemma ends_identify: "log_codes \<subseteq> E \<Longrightarrow> ends E (sd_card_init_and_identify hw)"
  unfolding sd_card_init_and_identify_def case_prod_beta
  by (intro ends_rules ends_set_card ends_issue ends_sd_cmds)

lemma ends_init_transfer: "log_codes \<subseteq> E \<Longrightarrow> ends E (sd_init_transfer hw)"
  unfolding sd_init_transfer_def sd_set_4bit_data_bus_width_def sd_enable_transfer_interrupts_def case_prod_beta
  by (intro ends_rules ends_set_card ends_issue ends_sd_cmds ends_host ends_serial_log ends_register_bits)

lemma ends_sd_init: "ends init_codes (sd_init hw)"
  unfolding sd_init_def sd_init_card_def sd_pre_cmd_init_def sd_enable_cmd_interrupts_def
  by (intro ends_rules ends_serial_log ends_set_card ends_assert_vc_init ends_host ends_identify
      ends_init_transfer init_codes_facts)

lemma ends_sd_reset: "log_codes \<subseteq> E \<Longrightarrow> ends E (sd_reset hw)"
  unfolding sd_reset_def sd_reset_card_def
  by (intro ends_rules ends_issue ends_set_card ends_host)

section \<open>The stages of the boot\<close>

lemma ends_init_peripherals: "ends (insert ERROR_SD_INIT init_codes) (init_peripherals hw)"
proof -
  have "ends (insert ERROR_SD_INIT init_codes) (sd_init hw)" by (rule ends_mono [OF ends_sd_init]) blast
  then show ?thesis
    unfolding init_peripherals_def enable_interrupts_def ic_enable_interrupts_def
    by (intro ends_rules ends_uart_init ends_serial_log ends_register_bits)
      (use init_codes_facts in auto)
qed

lemma ends_reset_peripherals: "ends (insert ERROR_SD_RESET log_codes) (reset_peripherals hw)"
  unfolding reset_peripherals_def disable_interrupts_def ic_disable_interrupts_def
  by (intro ends_rules ends_sd_reset ends_serial_log ends_register_bits) auto

lemma ends_load_mbr:
  "ends ({ERROR_SD_READ, ERROR_NO_MBR_MAGIC, ERROR_INVALID_PARTITION} \<union> log_codes) (load_mbr hw cfg)"
  unfolding load_mbr_def Let_def by (intro ends_rules ends_serial_log ends_reads) auto

lemma ends_load_image_head:
  "ends ({ERROR_SD_READ, ERROR_NO_IMAGE_MAGIC, ERROR_IMAGE_OVERFLOW} \<union> log_codes) (load_image_head hw cfg a)"
  unfolding load_image_head_def Let_def by (intro ends_rules ends_serial_log ends_reads) auto

lemma ends_load_item:
  "{ERROR_SD_READ, ERROR_IMAGE_CONTENTS} \<union> log_codes \<subseteq> E \<Longrightarrow> ends E (load_item hw want a lba)"
  unfolding load_item_def Let_def by (intro ends_rules ends_serial_log ends_reads) auto

lemma ends_load_image_items:
  "ends ({ERROR_SD_READ, ERROR_IMAGE_CONTENTS, ERROR_KERN_OVERFLOW} \<union> log_codes) (load_image_items hw lba)"
  unfolding load_image_items_def Let_def by (intro ends_rules ends_serial_log ends_load_item) auto

text \<open>
  C16. Which error codes each stage can signal: the LED code a user counts tells which stages
  can have failed, only one of them for most codes; a failed read of the card is shared by the
  three stages that read, and a polling or formatting failure can be caused by the log
  anywhere. No stage starts the kernel.
\<close>

theorem stage_error_codes:
  "ends ({ERROR_SD_INIT, ERROR_VCMAILBOX, ERROR_VC_NOT_INIT_MMC} \<union> {ERROR_INFINITE_LOOP, ERROR_VSNPRINTF}) (init_peripherals hw) \<and>
   ends ({ERROR_SD_READ, ERROR_NO_MBR_MAGIC, ERROR_INVALID_PARTITION} \<union> {ERROR_INFINITE_LOOP, ERROR_VSNPRINTF}) (load_mbr hw cfg) \<and>
   ends ({ERROR_SD_READ, ERROR_NO_IMAGE_MAGIC, ERROR_IMAGE_OVERFLOW} \<union> {ERROR_INFINITE_LOOP, ERROR_VSNPRINTF}) (load_image_head hw cfg a) \<and>
   ends ({ERROR_SD_READ, ERROR_IMAGE_CONTENTS, ERROR_KERN_OVERFLOW} \<union> {ERROR_INFINITE_LOOP, ERROR_VSNPRINTF}) (load_image_items hw lba) \<and>
   ends ({ERROR_SD_RESET} \<union> {ERROR_INFINITE_LOOP, ERROR_VSNPRINTF}) (reset_peripherals hw)"
  using ends_init_peripherals [of hw] ends_load_mbr [of hw cfg] ends_load_image_head [of hw cfg a]
    ends_load_image_items [of hw lba] ends_reset_peripherals [of hw]
  by (simp add: init_codes_def log_codes_def insert_commute)

end
