(* ===== verification/Frames.thy ===== *)
theory Frames
  imports Outcomes
begin

unbundle bit_operations_syntax

text \<open>
  What the stages of the boot leave alone. A relation between states that the basic operations
  respect is respected by the driver and the stages built of them; the locales say which
  operations: those that load data write RAM and never the record of the card, those
  that initialise and reset write the record, and RAM through mailbox requests only.
\<close>

section \<open>Reads\<close>

locale read_relation = sd_relation R hw "{}" + ram_free_relation R hw "{}"
  for R :: "'d machine \<Rightarrow> 'd machine \<Rightarrow> bool" and hw :: "'d hw"
begin

lemma guar_read_data: "guar R (read_data hw a n)"
  by (induction n arbitrary: a) (auto intro!: guar_rules guar_access guar_modify_ram)

lemma guar_wait_irq: "guar R (sd_wait_for_interrupt hw m)"
  by (rule guar_wait) simp

lemma guar_read_blocks_loop: "guar R (read_blocks_loop hw a n)"
  by (induction n arbitrary: a) (auto intro!: guar_rules guar_wait_irq guar_read_data)

lemma guar_read_cmd: "guar R (sd_issue_read_cmd hw idx a src n)"
  unfolding sd_issue_read_cmd_def by (intro guar_rules guar_set_blkszcnt guar_sd_issue_cmd guar_read_blocks_loop)

lemma guar_single_block_reads: "guar R (single_block_reads hw hc a src n)"
  by (induction n arbitrary: a src) (auto intro!: guar_rules guar_read_cmd simp: sd_issue_cmd17_def)

lemma guar_read_blocks_16: "guar R (sd_read_blocks_card_16 hw a lba n)"
  unfolding sd_read_blocks_card_16_def transfer_blocks_def sd_issue_cmd17_def sd_issue_cmd18_def Let_def case_prod_beta
  by (intro guar_rules guar_read_cmd guar_sd_issue_cmd guar_single_block_reads guar_serial_log)

lemma guar_read_blocks_card: "guar R (sd_read_blocks_card hw a lba n)"
proof (induction "nat n" arbitrary: a lba n rule: less_induct)
  case less
  show ?case
    by (subst sd_read_blocks_card.simps)
      (intro guar_rules guar_read_blocks_16; rule less; simp add: UINT16_MAX_def)
qed

lemma guar_reads: "guar R (sd_read_blocks hw a lba n)" "guar R (sd_read_bytes hw a lba n)"
  unfolding sd_read_bytes_def sd_read_blocks_def Let_def by (rule guar_read_blocks_card)+

lemma guar_load_mbr: "guar R (load_mbr hw cfg)" "guar R (load_image_head hw cfg a)"
  unfolding load_mbr_def load_image_head_def Let_def
  by (intro guar_rules guar_serial_log guar_reads guar_signals)+

lemma guar_load_item: "guar R (load_item hw want a lba)"
  unfolding load_item_def Let_def by (intro guar_rules guar_serial_log guar_reads guar_signals)

lemma guar_load_image_items: "guar R (load_image_items hw lba)"
  unfolding load_image_items_def Let_def by (intro guar_rules guar_serial_log guar_load_item guar_signals)

lemmas guar_loads = guar_load_mbr guar_load_image_items

end

interpretation same_card: read_relation same_card hw for hw :: "'d hw"
  by unfold_locales

section \<open>Initialisation and reset\<close>

lemma getfld_rca: "take_bit 16 (getfld 16 16 v) = (getfld 16 16 v :: u32)"
  by (rule bit_word_eqI) (auto simp: bit_take_bit_iff bit_getfld)

lemma returns_cmd3: "returns (sd_issue_cmd3 hw) (\<lambda>x. \<forall>r. snd x = Some r \<longrightarrow> take_bit 16 r = r)"
  by (auto simp: returns_def sd_issue_cmd3_def bnd_Ret_iff run_simps getfld_rca split: if_splits)

text \<open>Relations that the registers of the host controller other than those of commands respect.\<close>

locale host_relation = mailbox_relation R hw A
  for R :: "'d machine \<Rightarrow> 'd machine \<Rightarrow> bool" and hw :: "'d hw" and A :: "addr set" +
  assumes host_regs: "sd_reg CONTROL0 \<notin> A" "sd_reg CONTROL1 \<notin> A" "sd_reg IRPT_MASK \<notin> A"
begin

lemma guar_host:
  "guar R (sd_reset_host hw)" "guar R (sd_supply_bus_power hw)" "guar R (sd_supply_clock hw r)"
  "guar R (sd_enable_interrupts hw i)"
  unfolding sd_reset_host_def sd_supply_bus_power_def sd_supply_clock_def sd_enable_interrupts_def
    sd_sw_reset_hc_bit_set_def sd_internal_clock_not_stable_def Let_def
  by (intro guar_rules guar_access guar_while_cond host_regs)+

lemma guar_pre_cmd_init: "guar R (sd_pre_cmd_init hw)"
  unfolding sd_pre_cmd_init_def sd_enable_cmd_interrupts_def sd_assert_vc_init_def sd_assert_base_clock_def
    sd_assert_voltage_def sd_assert_card_power_def
  by (intro guar_rules guar_serial_log guar_tags guar_signals guar_host)

end

text \<open>\<open>K f\<close>: changing the record of the card by \<open>f\<close> respects the relation.\<close>

locale init_relation = sd_relation R hw "{}" + host_relation R hw "{}"
  for R :: "'d machine \<Rightarrow> 'd machine \<Rightarrow> bool" and hw :: "'d hw" +
  fixes K :: "(card \<Rightarrow> card) \<Rightarrow> bool"
  assumes R_set_card: "K f \<Longrightarrow> R s (s\<lparr>sdcard := f (sdcard s)\<rparr>)"
    and R_cpsr: "R s (s\<lparr>cpsr := v\<rparr>)"
    and K_zero: "K (\<lambda>_. zero_card)" and K_state: "CARD_STATE_IDLE \<le> st \<Longrightarrow> st \<le> CARD_STATE_TRANSFER \<Longrightarrow> K (\<lambda>c. c\<lparr>cstate := st\<rparr>)"
    and K_flags: "K (\<lambda>c. c\<lparr>sdhc_or_sdxc := b\<rparr>)" "K (\<lambda>c. c\<lparr>cmd23_supported := b\<rparr>)"
    and K_rca: "take_bit 16 r = r \<Longrightarrow> K (\<lambda>c. c\<lparr>card_rca := r\<rparr>)"
begin

lemma guar_any_register:
  "guar R (register_get hw p r)" "guar R (register_get_out hw p r)" "guar R (register_set hw p r v)"
  "guar R (register_set_ptr hw p r v)" "guar R (register_enable_bits hw p r v)"
  "guar R (register_disable_bits hw p r v)" "guar R (bus_read hw a)"
  by (intro guar_access; simp)+

lemma guar_set_card: "K f \<Longrightarrow> guar R (set_card f)"
  unfolding set_card_def by (rule guar_modify) (rule R_set_card)

lemma K_states:
  "K (\<lambda>c. c\<lparr>cstate := CARD_STATE_IDLE\<rparr>)" "K (\<lambda>c. c\<lparr>cstate := CARD_STATE_READY\<rparr>)"
  "K (\<lambda>c. c\<lparr>cstate := CARD_STATE_IDENTIFICATION\<rparr>)" "K (\<lambda>c. c\<lparr>cstate := CARD_STATE_STANDBY\<rparr>)"
  "K (\<lambda>c. c\<lparr>cstate := CARD_STATE_TRANSFER\<rparr>)"
  by (simp_all add: K_state less_eq_card_state_def)

lemmas guar_record = K_zero [THEN guar_set_card] K_states [THEN guar_set_card] K_flags [THEN guar_set_card]

lemma guar_acmd51: "guar R (sd_issue_acmd51 hw rca)"
proof -
  have "guar R (sd_wait_for_interrupt hw m)" for m by (rule guar_wait) simp
  then show ?thesis unfolding sd_issue_acmd51_def by (intro guar_rules guar_set_blkszcnt guar_sd_issue_acmd guar_any_register)
qed

lemma guar_identify: "guar R (sd_card_init_and_identify hw)"
  unfolding sd_card_init_and_identify_def case_prod_beta
  by (intro guar_bnd_returns [OF guar_sd_cmds(3) returns_cmd3] guar_rules guar_record guar_set_card [OF K_rca]
      guar_sd_issue_cmd guar_sd_cmds) auto

lemma guar_init_transfer: "guar R (sd_init_transfer hw)"
  unfolding sd_init_transfer_def sd_set_4bit_data_bus_width_def sd_enable_transfer_interrupts_def case_prod_beta
  by (intro guar_rules guar_serial_log guar_record guar_host guar_sd_cmds guar_acmd51 guar_any_register)

lemma guar_sd_init: "guar R (sd_init hw)"
  unfolding sd_init_def sd_init_card_def
  by (intro guar_rules guar_serial_log guar_record guar_pre_cmd_init guar_identify guar_init_transfer)

lemma guar_sd_reset: "guar R (sd_reset hw)"
  unfolding sd_reset_def sd_reset_card_def by (intro guar_rules guar_sd_issue_cmd guar_record guar_host)

lemma guar_interrupts: "guar R enable_interrupts" "guar R disable_interrupts"
  unfolding enable_interrupts_def disable_interrupts_def by (rule guar_modify, rule R_cpsr)+

lemma guar_peripherals: "guar R (init_peripherals hw)" "guar R (reset_peripherals hw)"
  unfolding init_peripherals_def reset_peripherals_def ic_enable_interrupts_def ic_disable_interrupts_def
  by (intro guar_rules guar_uart_init guar_serial_log guar_interrupts guar_any_register guar_sd_init guar_sd_reset
      guar_signals)+

end

text \<open>Relations that speak neither of RAM nor of the record of the card.\<close>

locale log_relation = read_relation R hw
  for R :: "'d machine \<Rightarrow> 'd machine \<Rightarrow> bool" and hw :: "'d hw" +
  assumes R_card: "R s (s\<lparr>sdcard := c\<rparr>)" and R_status: "R s (s\<lparr>cpsr := v\<rparr>)"

sublocale log_relation \<subseteq> init_relation R hw "\<lambda>_. True"
  by unfold_locales (simp_all add: R_card R_status)

section \<open>The record of the card\<close>

text \<open>
  The driver's record of the card is well formed when the address it holds fits the 16 bits
  it has in a command, so that no command is sent to a truncated address, and the state is one that the
  driver takes a card through: it never records that a card is inactive, or busy with data.
\<close>

definition card_wf :: "card \<Rightarrow> bool" where
  "card_wf c \<longleftrightarrow> take_bit 16 (card_rca c) = card_rca c \<and> CARD_STATE_IDLE \<le> cstate c \<and> cstate c \<le> CARD_STATE_TRANSFER"

definition keeps_card_wf :: "'d machine \<Rightarrow> 'd machine \<Rightarrow> bool" where
  "keeps_card_wf s t \<longleftrightarrow> (card_wf (sdcard s) \<longrightarrow> card_wf (sdcard t))"

interpretation keeps_card_wf: read_relation keeps_card_wf hw for hw :: "'d hw"
  by unfold_locales (auto simp: keeps_card_wf_def)

interpretation keeps_card_wf: init_relation keeps_card_wf hw "\<lambda>f. \<forall>c. card_wf c \<longrightarrow> card_wf (f c)" for hw :: "'d hw"
  by unfold_locales (auto simp: keeps_card_wf_def card_wf_def zero_card_def less_eq_card_state_def)

section \<open>RAM below the heap\<close>

text \<open>What is at or above the heap belongs to the heap.\<close>

definition heap_area :: "addr set" where
  "heap_area = {x. unat HEAP_RAM_ADDR \<le> unat x}"

text \<open>A VideoCore that writes nothing below the property buffer.\<close>

definition vc_in_heap :: "'d hw \<Rightarrow> bool" where
  "vc_in_heap hw \<longleftrightarrow> (\<forall>d m x. x \<notin> heap_area \<longrightarrow> vc_respond hw d m x = m x)"

lemma property_buffer_in_heap:
  assumes "n mod 4 = 0" and "n < 2 ^ 16" and "x \<notin> heap_area"
  shows "snd (build_property_buffer [\<lparr>req_id = tid, req_args = bytes32 arg, req_ret = map u [0..<n]\<rparr>] m) x = m x"
proof -
  let ?reqs = "[\<lparr>req_id = tid, req_args = bytes32 arg, req_ret = map u [0..<n]\<rparr>]"
  have ws: "\<forall>req \<in> set ?reqs. word_sized req" using assms(1,2) by (simp add: word_sized_def value_bufsz_def max_def)
  have len: "length (concat (map tag_image ?reqs)) \<le> 2 ^ 17"
    using assms(2) by (simp add: tag_image_def value_bufsz_def)
  then have lt: "length (concat (map tag_image ?reqs)) < 2 ^ 30" by simp
  show ?thesis
    unfolding build_property_buffer_image [OF ws lt] snd_conv
    by (rule ram_write_below) (use assms(3) len in \<open>simp_all add: heap_area_def HEAP_RAM_ADDR_def\<close>)
qed

lemma same_except_request:
  assumes "vc_in_heap hw" and "n mod 4 = 0" and "n < 2 ^ 16"
  shows "guar (same_except heap_area) (request1 hw tid arg n)"
proof -
  let ?reqs = "[\<lparr>req_id = tid, req_args = bytes32 arg, req_ret = map (uninit hw) [0..<n]\<rparr>]"
  have b: "guar (same_except heap_area) (modify (\<lambda>s. s\<lparr>ram := snd (build_property_buffer ?reqs (ram s))\<rparr>))"
    by (rule same_except.guar_modify) (simp add: same_except_def property_buffer_in_heap [OF assms(2,3)])
  have v: "guar (same_except heap_area) (modify (\<lambda>s. s\<lparr>ram := vc_respond hw (dev s) (ram s)\<rparr>))"
    by (rule same_except.guar_modify) (use assms(1) in \<open>simp add: same_except_def vc_in_heap_def\<close>)
  show ?thesis
    unfolding request1_def request_tags_exchange exchange_def vcmailbox_write_message_def vcmailbox_read_message_def case_prod_beta
    by (intro b v same_except.guar_rules same_except.guar_access same_except.guar_mailbox_wait same_except.guar_check_response) simp_all
qed

lemma same_except_init:
  assumes "vc_in_heap hw"
  shows "init_relation (same_except heap_area) hw (\<lambda>_. True)"
  by unfold_locales (simp_all add: same_except_request [OF assms], simp_all add: same_except_def)

end
