(* ===== verification/Boot_Facts.thy ===== *)
theory Boot_Facts
  imports Frames Sd_Card
begin

unbundle bit_operations_syntax

text \<open>
  What is true when the kernel is started. The first part holds for every hardware: the
  checks that were made are still true of RAM at the jump. The second assumes that the card
  is faithful, and says that RAM then holds the items of the image.
\<close>

section \<open>The conversation with the card only grows\<close>

definition grows :: "addr set \<Rightarrow> 'd machine \<Rightarrow> 'd machine \<Rightarrow> bool" where
  "grows A s t \<longleftrightarrow> (\<exists>es. history A t = history A s @ es)"

lemma history_update_cpsr [simp]: "history A (s\<lparr>cpsr := v\<rparr>) = history A s"
  by (simp add: history_def)

interpretation grows: log_relation "grows A" hw for hw :: "'d hw" and A
  by unfold_locales (auto simp: grows_def)

lemma faithful_grows:
  "grows cmd_regs_set s t \<Longrightarrow> faithful hc d r (cmd_history t) \<Longrightarrow> faithful hc d r (cmd_history s)"
  by (auto simp: grows_def faithful_append)

section \<open>Stages that returned\<close>

text \<open>A check that did not stop the boot.\<close>

lemma signal_never_returns: "bnd m (\<lambda>_. signal_error hw e) s = (Ret x, t) \<longleftrightarrow> False"
  "signal_error hw e s = (Ret x, t) \<longleftrightarrow> False"
  by (simp_all add: bnd_Ret_iff run_simps)

lemma bnd_check:
  "bnd (when_io b (bnd m (\<lambda>_. signal_error hw e))) f s = (Ret y, u) \<longleftrightarrow> \<not> b \<and> f () s = (Ret y, u)"
  "bnd (when_io b (signal_error hw e)) f s = (Ret y, u) \<longleftrightarrow> \<not> b \<and> f () s = (Ret y, u)"
  by (auto simp: bnd_Ret_iff run_simps signal_never_returns split: if_splits)

lemma log_same:
  assumes "serial_log hw fmt ap s = (r, t)"
  shows "ram t = ram s" and "sdcard t = sdcard s" and "cmd_history t = cmd_history s"
  using guarD [OF same_ram.guar_serial_log assms] guarD [OF same_card.guar_serial_log assms] cmd_history_log [OF assms]
  by (simp_all add: same_ram_def same_card_def)

lemma read_blocks_frame:
  assumes "sd_read_blocks hw a lba n s = (Ret True, t)" and "0 \<le> n" and "512 * nat n \<le> 2 ^ 32"
  shows "\<exists>bs. length bs = 512 * nat n \<and> ram t = ram_write (ram s) a bs \<and> sdcard t = sdcard s"
proof -
  obtain ws where "length ws = 128 * nat n" "loaded a (read_plan (sdcard s) lba (nat n) ws) ws s t"
    using read_blocks_load [of hw a lba "nat n" s t] assms by (auto simp: sd_read_blocks_def)
  then show ?thesis by (intro exI [of _ "words_bytes ws"]) (simp add: loaded_def length_words)
qed

lemma bytes_to_blocks_bounds:
  assumes "0 \<le> n"
  shows "n \<le> 512 * bytes_to_blocks n" and "512 * bytes_to_blocks n < n + 512"
proof -
  define q r where "q = n div 512" and "r = n mod 512"
  have n: "n = 512 * q + r" "0 \<le> r" "r < 512" by (simp_all add: q_def r_def)
  have "bytes_to_blocks n = (if r \<noteq> 0 then q + 1 else q)"
    using assms by (simp add: bytes_to_blocks_def SD_BLKSZ_def q_def r_def)
  then show "n \<le> 512 * bytes_to_blocks n" "512 * bytes_to_blocks n < n + 512" using n by auto
qed

lemma bytes_to_blocks_small: "0 \<le> n \<Longrightarrow> n < 2 ^ 31 \<Longrightarrow> 0 \<le> bytes_to_blocks n \<and> 512 * nat (bytes_to_blocks n) \<le> 2 ^ 31"
  using bytes_to_blocks_bounds [of n] by simp

lemma itemsz_less: "itemsz item m < 2 ^ 31"
  using sint_lt [of "of_nat sizeof_item + ram_get32 m (item + item_datasz_off)"] by (simp add: itemsz_def)

lemma when_io_Ret: "when_io b m s = (Ret (), t) \<longleftrightarrow> (if b then m s = (Ret (), t) else t = s)"
  by (auto simp: when_io_run)

text \<open>All that happened is that a message was logged.\<close>

definition logged :: "'d hw \<Rightarrow> 'd machine \<Rightarrow> 'd machine \<Rightarrow> bool" where
  "logged hw s t \<longleftrightarrow> (\<exists>fmt ap. serial_log hw fmt ap s = (Ret (), t))"

lemma loggedI: "serial_log hw fmt ap s = (Ret x, t) \<Longrightarrow> logged hw s t"
  by (auto simp: logged_def)

lemma load_itemE:
  assumes "load_item hw want a lba s = (Ret item, t)"
  obtains s1 s2 s3 where "logged hw s s1" and "ram s1 = ram s" and "sdcard s1 = sdcard s"
    and "sd_read_blocks hw a lba 1 s1 = (Ret True, s2)" and "ram_get32 (ram s2) a = item_id_value want"
    and "if 512 < itemsz a (ram s2) then sd_read_bytes hw a lba (itemsz a (ram s2)) s2 = (Ret True, s3) else s3 = s2"
    and "item = a" and "ram t = ram s3" and "sdcard t = sdcard s3" and "cmd_history t = cmd_history s3"
proof -
  obtain name where nm: "stritem (item_id_value want) = Some name" by (cases want) (simp_all add: stritem_def)
  have wrong: "bnd (when_io (iid \<noteq> k) (case stritem iid of None \<Rightarrow> stop Undef
      | Some got \<Rightarrow> bnd (serial_log hw f (g got)) (\<lambda>_. signal_error hw e))) h u = (Ret y, v) \<longleftrightarrow> iid = k \<and> h () u = (Ret y, v)"
    for iid k f g e u v h y
    by (auto simp: bnd_Ret_iff when_io_Ret stop_run signal_never_returns split: option.splits)
  let ?sz = "\<lambda>u. itemsz a (ram u)"
  let ?more = "\<lambda>u. when_io (int SD_BLKSZ < ?sz u)
    (bnd (sd_read_bytes hw a lba (?sz u)) (\<lambda>ok. when_io (\<not> ok) (signal_error hw ERROR_SD_READ))) u"
  have "\<exists>x s1. serial_log hw ''Loading %s item to RAM address %08x...'' [VaS name, VaU a] s = (Ret x, s1) \<and>
    (\<exists>ok s2. sd_read_blocks hw a lba 1 s1 = (Ret ok, s2) \<and> ok \<and> ram_get32 (ram s2) a = item_id_value want \<and>
    (\<exists>x s3. ?more s2 = (Ret x, s3) \<and>
    (\<exists>x s4. serial_log hw ''Successfully loaded %s item, data size %u bytes''
       [VaS name, VaU (ram_get32 (ram s3) (a + item_datasz_off))] s3 = (Ret x, s4) \<and> ret a s4 = (Ret item, t))))"
    using assms unfolding load_item_def nm Let_def option.case
      bnd_Ret_iff [of "serial_log _ _ _"] bnd_Ret_iff [of "sd_read_blocks _ _ _ _"] bnd_check bnd_prim_run wrong
      bnd_Ret_iff [of "when_io (int SD_BLKSZ < _) _"] not_not .
  then obtain s1 s2 s3 x1 x2 where
    l1: "serial_log hw ''Loading %s item to RAM address %08x...'' [VaS name, VaU a] s = (Ret x1, s1)" and
    r: "sd_read_blocks hw a lba 1 s1 = (Ret True, s2)" "ram_get32 (ram s2) a = item_id_value want" and
    m: "?more s2 = (Ret (), s3)" and
    l2: "serial_log hw ''Successfully loaded %s item, data size %u bytes''
       [VaS name, VaU (ram_get32 (ram s3) (a + item_datasz_off))] s3 = (Ret x2, t)" and i: "item = a"
    unfolding ret_run by auto
  have "if 512 < ?sz s2 then sd_read_bytes hw a lba (?sz s2) s2 = (Ret True, s3) else s3 = s2"
    using m unfolding SD_BLKSZ_def by (auto simp: when_io_Ret bnd_Ret_iff signal_never_returns split: if_splits)
  then show ?thesis using that [OF loggedI [OF l1] log_same(1,2) [OF l1] r _ i log_same [OF l2]] by blast
qed

lemma load_item_frame:
  assumes "load_item hw want a lba s = (Ret item, t)"
  shows "item = a \<and> sdcard t = sdcard s \<and>
    (\<exists>bs. 512 \<le> length bs \<and> length bs \<le> 2 ^ 31 \<and> ram t = ram_write (ram s) a bs)"
  using assms
proof (rule load_itemE)
  fix s1 s2 s3
  assume 1: "ram s1 = ram s" "sdcard s1 = sdcard s" "sd_read_blocks hw a lba 1 s1 = (Ret True, s2)" "item = a"
    "ram t = ram s3" "sdcard t = sdcard s3"
    and 2: "if 512 < itemsz a (ram s2) then sd_read_bytes hw a lba (itemsz a (ram s2)) s2 = (Ret True, s3) else s3 = s2"
  obtain bs where bs: "length bs = 512" "ram s2 = ram_write (ram s) a bs" "sdcard s2 = sdcard s"
    using read_blocks_frame [OF 1(3)] 1(1,2) by auto
  let ?n = "bytes_to_blocks (itemsz a (ram s2))"
  show ?thesis
  proof (cases "512 < itemsz a (ram s2)")
    case True
    have n: "0 \<le> ?n" "512 * nat ?n \<le> 2 ^ 31" "512 \<le> 512 * nat ?n"
      using bytes_to_blocks_small [of "itemsz a (ram s2)"] bytes_to_blocks_bounds [of "itemsz a (ram s2)"] itemsz_less True
      by auto
    obtain cs where cs: "length cs = 512 * nat ?n" "ram s3 = ram_write (ram s2) a cs" "sdcard s3 = sdcard s2"
      using read_blocks_frame [of hw a lba ?n s2 s3] 2 True n by (auto simp: sd_read_bytes_def)
    have "ram t = ram_write (ram s) a cs"
      using 1(5) bs(1,2) cs(1,2) n(3) by (auto simp: ram_write_def)
    then show ?thesis using 1(4,6) bs(3) cs(1,3) n by (intro conjI exI [of _ cs]) auto
  next
    case False
    then show ?thesis using 1(4-6) 2 bs by (intro conjI exI [of _ bs]) auto
  qed
qed

abbreviation item_datasz :: "addr \<Rightarrow> ram \<Rightarrow> u32" where
  "item_datasz item m \<equiv> ram_get32 m (item + item_datasz_off)"

abbreviation kern_item :: addr where "kern_item \<equiv> KERN_RAM_ADDR - of_nat sizeof_item"
abbreviation dtb_item :: addr where "dtb_item \<equiv> DTB_RAM_ADDR - of_nat sizeof_item"

abbreviation next_lba :: "u32 \<Rightarrow> addr \<Rightarrow> ram \<Rightarrow> u32" where
  "next_lba lba item m \<equiv> lba + of_int (bytes_to_blocks (itemsz item m))"

lemma load_image_itemsE:
  assumes "load_image_items hw lba s = (Ret (), t)"
  obtains s1 s2 s3 s4 where
    "load_item hw ITEM_ID_KERNEL kern_item (lba + 1) s = (Ret kern_item, s1)"
    "KERN_RAM_ADDR + item_datasz kern_item (ram s1) \<le> DTB_RAM_ADDR"
    "ram_get32 (ram s1) (KERN_RAM_ADDR + ZIMAGE_MAGIC_OFF) = ZIMAGE_MAGIC"
    "logged hw s1 s2" "ram s2 = ram s1" "sdcard s2 = sdcard s1"
    "load_item hw ITEM_ID_DEVICE_TREE_BLOB dtb_item (next_lba (lba + 1) kern_item (ram s1)) s2 = (Ret dtb_item, s3)"
    "bswap32 (ram_get32 (ram s3) DTB_RAM_ADDR) = DTB_MAGIC"
    "logged hw s3 s4" "ram s4 = ram s3" "sdcard s4 = sdcard s3"
    "load_item hw ITEM_ID_END heap_get_base_address
       (next_lba (next_lba (lba + 1) kern_item (ram s1)) dtb_item (ram s3)) s4 = (Ret heap_get_base_address, t)"
proof -
  let ?chk = "''Successfully validated kernel''" and ?chd = "''Successfully validated device tree blob''"
  have "\<exists>item s1. load_item hw ITEM_ID_KERNEL kern_item (lba + 1) s = (Ret item, s1) \<and>
    \<not> DTB_RAM_ADDR < KERN_RAM_ADDR + item_datasz item (ram s1) \<and>
    ram_get32 (ram s1) (KERN_RAM_ADDR + ZIMAGE_MAGIC_OFF) = ZIMAGE_MAGIC \<and>
    (\<exists>x s2. serial_log hw ?chk [] s1 = (Ret x, s2) \<and>
    (\<exists>item' s3. load_item hw ITEM_ID_DEVICE_TREE_BLOB dtb_item (next_lba (lba + 1) item (ram s2)) s2 = (Ret item', s3) \<and>
    bswap32 (ram_get32 (ram s3) DTB_RAM_ADDR) = DTB_MAGIC \<and>
    (\<exists>x s4. serial_log hw ?chd [] s3 = (Ret x, s4) \<and>
    (\<exists>x s5. load_item hw ITEM_ID_END heap_get_base_address
       (next_lba (next_lba (lba + 1) item (ram s2)) item' (ram s4)) s4 = (Ret x, s5) \<and> ret () s5 = (Ret (), t)))))"
    using assms unfolding load_image_items_def Let_def
      bnd_Ret_iff [of "serial_log _ _ _"] bnd_Ret_iff [of "load_item _ _ _ _"] bnd_check bnd_prim_run not_not .
  then obtain i1 s1 s2 i2 s3 s4 i3 where
    k: "load_item hw ITEM_ID_KERNEL kern_item (lba + 1) s = (Ret i1, s1)"
      "KERN_RAM_ADDR + item_datasz i1 (ram s1) \<le> DTB_RAM_ADDR"
      "ram_get32 (ram s1) (KERN_RAM_ADDR + ZIMAGE_MAGIC_OFF) = ZIMAGE_MAGIC" and
    l1: "serial_log hw ?chk [] s1 = (Ret (), s2)" and
    d: "load_item hw ITEM_ID_DEVICE_TREE_BLOB dtb_item (next_lba (lba + 1) i1 (ram s2)) s2 = (Ret i2, s3)"
      "bswap32 (ram_get32 (ram s3) DTB_RAM_ADDR) = DTB_MAGIC" and
    l2: "serial_log hw ?chd [] s3 = (Ret (), s4)" and
    e: "load_item hw ITEM_ID_END heap_get_base_address
       (next_lba (next_lba (lba + 1) i1 (ram s2)) i2 (ram s4)) s4 = (Ret i3, t)"
    unfolding ret_run not_less by auto
  have i: "i1 = kern_item" "i2 = dtb_item" "i3 = heap_get_base_address"
    using load_item_frame [OF k(1)] load_item_frame [OF d(1)] load_item_frame [OF e] by simp_all
  show ?thesis
    using that [OF _ _ k(3) loggedI [OF l1] log_same(1,2) [OF l1] _ d(2) loggedI [OF l2] log_same(1,2) [OF l2]] k(1,2) d(1) e
    unfolding i log_same(1) [OF l1] log_same(1) [OF l2] by blast
qed

lemma load_mbr_frame:
  assumes "load_mbr hw cfg s = (Ret mbr, t)"
  shows "\<exists>bs. length bs = 512 \<and> ram t = ram_write (ram s) heap_get_base_address bs \<and> mbr = heap_get_base_address"
    and "mbr_magic heap_get_base_address (ram t)" and "mbr_partition_valid (IMAGE_PARTITION cfg)"
proof -
  have "\<exists>x s1. serial_log hw ''Loading MBR...'' [] s = (Ret x, s1) \<and>
    (\<exists>ok s2. sd_read_blocks hw heap_get_base_address 0 1 s1 = (Ret ok, s2) \<and> ok \<and>
    mbr_magic heap_get_base_address (ram s2) \<and> mbr_partition_valid (IMAGE_PARTITION cfg) \<and>
    (\<exists>x s3. serial_log hw ''Successfully loaded and validated MBR'' [] s2 = (Ret x, s3) \<and>
      ret heap_get_base_address s3 = (Ret mbr, t)))"
    using assms unfolding load_mbr_def Let_def bnd_Ret_iff [of "serial_log _ _ _"] bnd_Ret_iff [of "sd_read_blocks _ _ _ _"]
      bnd_check bnd_prim_run not_not .
  then obtain s1 s2 where
    l: "serial_log hw ''Loading MBR...'' [] s = (Ret (), s1)" and r: "sd_read_blocks hw heap_get_base_address 0 1 s1 = (Ret True, s2)"
    and l2: "serial_log hw ''Successfully loaded and validated MBR'' [] s2 = (Ret (), t)" and m: "mbr = heap_get_base_address"
    and c: "mbr_magic heap_get_base_address (ram s2)" "mbr_partition_valid (IMAGE_PARTITION cfg)"
    unfolding ret_run by auto
  show "\<exists>bs. length bs = 512 \<and> ram t = ram_write (ram s) heap_get_base_address bs \<and> mbr = heap_get_base_address"
    using read_blocks_frame [OF r] log_same(1) [OF l] log_same(1) [OF l2] m by auto
  show "mbr_magic heap_get_base_address (ram t)" "mbr_partition_valid (IMAGE_PARTITION cfg)"
    using c log_same(1) [OF l2] by simp_all
qed

lemma load_image_head_frame:
  assumes "load_image_head hw cfg a s = (Ret lba, t)"
  shows "\<exists>bs. length bs = 512 \<and> ram t = ram_write (ram s) heap_get_base_address bs"
    and "lba = mbr_get_partition_lba a (IMAGE_PARTITION cfg) (ram s)"
    and "ram_get32 (ram t) heap_get_base_address = IMG_MAGIC"
    and "ram_get32 (ram t) (heap_get_base_address + image_imgsz_off) \<le>
      mbr_get_partition_nblks a (IMAGE_PARTITION cfg) (ram s) * of_nat SD_BLKSZ"
proof -
  let ?n = "mbr_get_partition_nblks a (IMAGE_PARTITION cfg) (ram s)" and ?lba = "mbr_get_partition_lba a (IMAGE_PARTITION cfg) (ram s)"
  let ?img = heap_get_base_address
  let ?sz = "\<lambda>u. ram_get32 (ram u) (?img + image_imgsz_off)"
  have "\<exists>x s1. serial_log hw ''Loading image head from partition %u'' [VaU (of_int (IMAGE_PARTITION cfg))] s = (Ret x, s1) \<and>
    (\<exists>ok s2. sd_read_blocks hw ?img ?lba 1 s1 = (Ret ok, s2) \<and> ok \<and> ram_get32 (ram s2) ?img = IMG_MAGIC \<and>
    \<not> ?n * of_nat SD_BLKSZ < ?sz s2 \<and>
    (\<exists>x s3. serial_log hw ''Successfully loaded and validated image head, image size %u bytes'' [VaU (?sz s2)] s2 = (Ret x, s3) \<and>
      ret ?lba s3 = (Ret lba, t)))"
    using assms unfolding load_image_head_def Let_def bnd_Ret_iff [of "serial_log _ _ _"] bnd_Ret_iff [of "sd_read_blocks _ _ _ _"]
      bnd_check bnd_prim_run not_not .
  then obtain s1 s2 x y where
    l: "serial_log hw ''Loading image head from partition %u'' [VaU (of_int (IMAGE_PARTITION cfg))] s = (Ret x, s1)"
    and r: "sd_read_blocks hw ?img ?lba 1 s1 = (Ret True, s2)"
    and l2: "serial_log hw ''Successfully loaded and validated image head, image size %u bytes'' [VaU (?sz s2)] s2 = (Ret y, t)"
    and c: "ram_get32 (ram s2) ?img = IMG_MAGIC" "?sz s2 \<le> ?n * of_nat SD_BLKSZ" "lba = ?lba"
    unfolding ret_run not_less by auto
  show "\<exists>bs. length bs = 512 \<and> ram t = ram_write (ram s) ?img bs"
    using read_blocks_frame [OF r] log_same(1) [OF l] log_same(1) [OF l2] by auto
  show "lba = ?lba" "ram_get32 (ram t) ?img = IMG_MAGIC" "?sz t \<le> ?n * of_nat SD_BLKSZ"
    using c log_same(1) [OF l2] by simp_all
qed

lemma init_peripherals_sd:
  assumes "init_peripherals hw s = (Ret (), t)"
  shows "\<exists>u. sd_init hw u = (Ret SD_INIT_ERROR_NONE, t)"
proof -
  have "\<exists>u e. sd_init hw u = (Ret e, t) \<and> e = SD_INIT_ERROR_NONE"
    using assms unfolding init_peripherals_def bnd_Ret_iff when_io_Ret signal_never_returns
    by (auto simp: signal_never_returns split: if_splits)
  then show ?thesis by blast
qed

text \<open>
  An item has been loaded, and its first block, read from \<open>lba\<close> after a line of the log,
  carried the identifier wanted.
\<close>

definition item_identified :: "'d hw \<Rightarrow> item_id \<Rightarrow> addr \<Rightarrow> u32 \<Rightarrow> 'd machine \<Rightarrow> 'd machine \<Rightarrow> bool" where
  "item_identified hw want a lba s t \<longleftrightarrow> load_item hw want a lba s = (Ret a, t) \<and>
     (\<exists>u v. logged hw s u \<and> sd_read_blocks hw a lba 1 u = (Ret True, v) \<and> ram_get32 (ram v) a = item_id_value want)"

lemma load_item_identified:
  assumes "load_item hw want a lba s = (Ret a, t)"
  shows "item_identified hw want a lba s t"
proof -
  from assms obtain u v w where "logged hw s u" "sd_read_blocks hw a lba 1 u = (Ret True, v)"
    "ram_get32 (ram v) a = item_id_value want" by (rule load_itemE)
  then show ?thesis using assms unfolding item_identified_def by blast
qed

section \<open>The jump to the kernel\<close>

lemma bnd_Boot_ends:
  "ends E m \<Longrightarrow> bnd m f s = (Boot k, u) \<longleftrightarrow> (\<exists>x t. m s = (Ret x, t) \<and> f x t = (Boot k, u))"
  using ends_not_Boot [of E m s k u] by (simp add: bnd_Boot_iff)

lemma sd_reset_frame:
  assumes "sd_reset hw s = (Ret ok, t)"
  shows "ram t = ram s \<and> sdcard t = (if ok then (sdcard s)\<lparr>cstate := CARD_STATE_IDLE\<rparr> else sdcard s)"
proof -
  have host: "ram v = ram u \<and> sdcard v = sdcard u" if "sd_reset_host hw u = (r, v)" for r u v
  proof -
    have "guar same_ram (sd_reset_host hw)" "guar same_card (sd_reset_host hw)"
      unfolding sd_reset_host_def sd_sw_reset_hc_bit_set_def
      by (intro same_ram.guar_rules same_ram.guar_access same_ram.guar_while_cond
          same_card.guar_rules same_card.guar_access same_card.guar_while_cond; simp)+
    from this [THEN guarD, OF that] show ?thesis by (simp add: same_ram_def same_card_def)
  qed
  obtain e u where c: "sd_issue_cmd hw CMD_IDX_GO_IDLE_STATE 0 s = (Ret e, u)"
    and r: "(if e \<noteq> CMD_ERROR_NONE then ret False
      else bnd (set_card (\<lambda>c. c\<lparr>cstate := CARD_STATE_IDLE\<rparr>)) (\<lambda>_. bnd (sd_reset_host hw) (\<lambda>_. ret True))) u = (Ret ok, t)"
    using assms unfolding sd_reset_def sd_reset_card_def by (rule bnd_RetE)
  have "ram u = ram s" "sdcard u = sdcard s"
    using issue_cmd_loaded [OF c, of 0] by (simp_all add: loaded_def)
  then show ?thesis using r host by (auto simp: set_card_def run_simps bnd_ret_iff split: if_splits)
qed

lemma reset_peripherals_frame:
  assumes "reset_peripherals hw s = (Ret (), t)"
  shows "ram t = ram s \<and> sdcard t = (sdcard s)\<lparr>cstate := CARD_STATE_IDLE\<rparr>"
proof -
  obtain ok u where r: "sd_reset hw s = (Ret ok, u)" "ok" and
    i: "when_io (\<not> ENABLE_GIC) (bnd (ic_disable_interrupts hw) (\<lambda>_. bnd disable_interrupts (\<lambda>_.
        serial_log hw ''Disabled interrupts'' []))) u = (Ret (), t)"
    using assms unfolding reset_peripherals_def bnd_Ret_iff [of "sd_reset hw"] bnd_check not_not by blast
  have "ram t = ram u \<and> sdcard t = sdcard u"
    using i by (auto simp: when_io_Ret disable_interrupts_def ic_disable_interrupts_def bnd_assoc run_simps dest: log_same split: if_splits)
  then show ?thesis using sd_reset_frame [OF r(1)] r(2) by simp
qed

lemma c_entry_bootE:
  assumes "c_entry hw cfg s = (Boot k, t)"
  obtains s1 s2 s3 s4 mbr lba where
    "init_peripherals hw (s\<lparr>ram := mcopy (vector_table cfg) 0x0
       (sint (vector_table_pool_end cfg - vector_table cfg)) (ram s)\<rparr>) = (Ret (), s1)"
    "load_mbr hw cfg s1 = (Ret mbr, s2)" "load_image_head hw cfg mbr s2 = (Ret lba, s3)"
    "load_image_items hw lba s3 = (Ret (), s4)" "ram t = ram s4"
    "sdcard t = (sdcard s4)\<lparr>cstate := CARD_STATE_IDLE\<rparr>"
    "k = \<lparr>reg_r0 = 0, reg_r1 = NOT 0, reg_r2 = DTB_RAM_ADDR, reg_pc = KERN_RAM_ADDR\<rparr>"
    "grows cmd_regs_set s4 t"
proof -
  note e = ends_init_peripherals ends_load_mbr ends_load_image_head ends_load_image_items ends_reset_peripherals
  obtain s1 s2 s3 s4 s5 mbr lba where
    1: "init_peripherals hw (s\<lparr>ram := mcopy (vector_table cfg) 0x0
       (sint (vector_table_pool_end cfg - vector_table cfg)) (ram s)\<rparr>) = (Ret (), s1)"
      "load_mbr hw cfg s1 = (Ret mbr, s2)" "load_image_head hw cfg mbr s2 = (Ret lba, s3)"
      "load_image_items hw lba s3 = (Ret (), s4)" and
    r: "reset_peripherals hw s4 = (Ret (), s5)" and b: "boot_kernel hw s5 = (Boot k, t)"
    using assms unfolding c_entry_def install_vector_table_def bnd_prim_run e [THEN bnd_Boot_ends] by auto
  obtain x where l: "serial_log hw ''Jumping to kernel...'' [] s5 = (Ret x, t)"
    and k: "k = \<lparr>reg_r0 = 0, reg_r1 = NOT 0, reg_r2 = DTB_RAM_ADDR, reg_pc = KERN_RAM_ADDR\<rparr>"
    using b unfolding boot_kernel_def ends_serial_log [OF subset_refl, THEN bnd_Boot_ends] by (auto simp: stop_run)
  have "ram t = ram s4" "sdcard t = (sdcard s4)\<lparr>cstate := CARD_STATE_IDLE\<rparr>"
    using reset_peripherals_frame [OF r] log_same [OF l] by simp_all
  moreover have "grows cmd_regs_set s4 t"
    using guarD [OF grows.guar_peripherals(2) r] log_same(3) [OF l] by (simp add: grows_def)
  ultimately show ?thesis using that 1 k by blast
qed

text \<open>
  What the boot checked on its way, and in which order: the SD card was initialised, the master boot
  record had its magic, the head of the image, read from the partition that the record names, had
  its magic and a size within the partition, and the kernel, the device tree blob and the end
  item, each read from behind the one before, carried their identifiers.
\<close>

definition boot_checks :: "'d hw \<Rightarrow> build \<Rightarrow> 'd machine \<Rightarrow> 'd machine \<Rightarrow> bool" where
  "boot_checks hw cfg s t \<longleftrightarrow>
     (\<exists>s1 s2 s3 s4 k1 k2 d1 d2 lba. let P = IMAGE_PARTITION cfg; lba_d = next_lba (lba + 1) 0x1fffff8 (ram k1) in
        bnd (install_vector_table cfg) (\<lambda>_. init_peripherals hw) s = (Ret (), s1) \<and>
        (\<exists>u. sd_init hw u = (Ret SD_INIT_ERROR_NONE, s1)) \<and>
        load_mbr hw cfg s1 = (Ret 0x10000000, s2) \<and> mbr_magic 0x10000000 (ram s2) \<and>
        load_image_head hw cfg 0x10000000 s2 = (Ret lba, s3) \<and> lba = mbr_get_partition_lba 0x10000000 P (ram s2) \<and>
        ram_get32 (ram s3) 0x10000000 = 0xF00BA12 \<and>
        ram_get32 (ram s3) 0x10000004 \<le> mbr_get_partition_nblks 0x10000000 P (ram s2) * 512 \<and>
        load_image_items hw lba s3 = (Ret (), s4) \<and>
        item_identified hw ITEM_ID_KERNEL 0x1fffff8 (lba + 1) s3 k1 \<and> logged hw k1 k2 \<and>
        item_identified hw ITEM_ID_DEVICE_TREE_BLOB 0x7fffff8 lba_d k2 d1 \<and> logged hw d1 d2 \<and>
        item_identified hw ITEM_ID_END 0x10000000 (next_lba lba_d 0x7fffff8 (ram d1)) d2 s4 \<and>
        ram t = ram s4)"

lemma boot_checks_made:
  assumes "c_entry hw cfg s = (Boot k, t)"
  shows "boot_checks hw cfg s t"
  using assms
proof (rule c_entry_bootE)
  fix s1 s2 s3 s4 mbr lba
  assume p: "init_peripherals hw (s\<lparr>ram := mcopy (vector_table cfg) 0x0
       (sint (vector_table_pool_end cfg - vector_table cfg)) (ram s)\<rparr>) = (Ret (), s1)"
    and m: "load_mbr hw cfg s1 = (Ret mbr, s2)" and h: "load_image_head hw cfg mbr s2 = (Ret lba, s3)"
    and i: "load_image_items hw lba s3 = (Ret (), s4)" and t: "ram t = ram s4"
  have a: "heap_get_base_address = 0x10000000" "kern_item = 0x1fffff8" "dtb_item = 0x7fffff8" "image_imgsz_off = 4"
    "of_nat SD_BLKSZ = (512 :: u32)" "IMG_MAGIC = 0xF00BA12"
    by (simp_all add: addrmap_defs image_defs SD_BLKSZ_def IMG_MAGIC_def)
  have mbr: "mbr = 0x10000000" using load_mbr_frame(1) [OF m] by (auto simp: a)
  note head = load_image_head_frame [OF h, unfolded mbr a]
  have size: "ram_get32 (ram s3) 0x10000004 \<le> mbr_get_partition_nblks 0x10000000 (IMAGE_PARTITION cfg) (ram s2) * 512"
    using head(4) by simp
  have start: "bnd (install_vector_table cfg) (\<lambda>_. init_peripherals hw) s = (Ret (), s1)"
    using p by (simp add: install_vector_table_def bnd_prim_run)
  from i show ?thesis
  proof (rule load_image_itemsE)
    fix k1 k2 d1 d2
    assume k: "load_item hw ITEM_ID_KERNEL kern_item (lba + 1) s3 = (Ret kern_item, k1)" "logged hw k1 k2"
      and d: "load_item hw ITEM_ID_DEVICE_TREE_BLOB dtb_item (next_lba (lba + 1) kern_item (ram k1)) k2 = (Ret dtb_item, d1)"
        "logged hw d1 d2"
      and e: "load_item hw ITEM_ID_END heap_get_base_address
        (next_lba (next_lba (lba + 1) kern_item (ram k1)) dtb_item (ram d1)) d2 = (Ret heap_get_base_address, s4)"
    note items = k(1) [THEN load_item_identified, unfolded a] k(2) d(1) [THEN load_item_identified, unfolded a] d(2)
      e [THEN load_item_identified, unfolded a]
    show ?thesis
      unfolding boot_checks_def Let_def
      using start init_peripherals_sd [OF p] m [unfolded mbr] load_mbr_frame(2) [OF m, unfolded a] h [unfolded mbr]
        head(2,3) size i items t by blast
  qed
qed

text \<open>
  C3. Whatever the hardware does, the kernel is started only after every check has passed: the card
  was initialised; the partition is one of the four; the master boot record and the head of the
  image had their magics, the size of the image was within its partition, and the three items had
  their identifiers, each when it was read, in this order. What the last
  checks established is still true of RAM at the jump: the registers are those the ARM boot
  protocol asks for, the kernel does not reach into the device tree blob, both magics are in
  place, and the driver knows the card to be idle.
\<close>

theorem boot_only_validated:
  assumes "c_entry hw cfg s = (Boot k, t)"
  shows "k = \<lparr>reg_r0 = 0, reg_r1 = 0xffffffff, reg_r2 = 0x8000000, reg_pc = 0x2000000\<rparr> \<and>
    1 \<le> IMAGE_PARTITION cfg \<and> IMAGE_PARTITION cfg \<le> 4 \<and>
    0x2000000 + ram_get32 (ram t) 0x1fffffc \<le> 0x8000000 \<and>
    ram_get32 (ram t) 0x2000024 = 0x016F2818 \<and>
    ram_bytes (ram t) 0x8000000 4 = [0xd0, 0x0d, 0xfe, 0xed] \<and>
    cstate (sdcard t) = CARD_STATE_IDLE \<and> boot_checks hw cfg s t"
  using assms
proof (rule c_entry_bootE)
  fix s1 s2 s3 s4 mbr lba
  assume m: "load_mbr hw cfg s1 = (Ret mbr, s2)"
    and i: "load_image_items hw lba s3 = (Ret (), s4)"
    and t: "ram t = ram s4" "sdcard t = (sdcard s4)\<lparr>cstate := CARD_STATE_IDLE\<rparr>"
      "k = \<lparr>reg_r0 = 0, reg_r1 = NOT 0, reg_r2 = DTB_RAM_ADDR, reg_pc = KERN_RAM_ADDR\<rparr>"
  have p: "mbr_partition_valid (IMAGE_PARTITION cfg)" by (rule load_mbr_frame(3) [OF m])
  note ad = addrmap_defs image_defs ZIMAGE_MAGIC_OFF_def
  from i show ?thesis
  proof (rule load_image_itemsE)
    fix u1 u2 u3 u4
    assume k: "KERN_RAM_ADDR + item_datasz kern_item (ram u1) \<le> DTB_RAM_ADDR"
        "ram_get32 (ram u1) (KERN_RAM_ADDR + ZIMAGE_MAGIC_OFF) = ZIMAGE_MAGIC" "ram u2 = ram u1"
      and d: "load_item hw ITEM_ID_DEVICE_TREE_BLOB dtb_item (next_lba (lba + 1) kern_item (ram u1)) u2 = (Ret dtb_item, u3)"
        "bswap32 (ram_get32 (ram u3) DTB_RAM_ADDR) = DTB_MAGIC" "ram u4 = ram u3"
      and e: "load_item hw ITEM_ID_END heap_get_base_address
        (next_lba (next_lba (lba + 1) kern_item (ram u1)) dtb_item (ram u3)) u4 = (Ret heap_get_base_address, s4)"
    obtain bs where bs: "length bs \<le> 2 ^ 31" "ram u3 = ram_write (ram u1) dtb_item bs"
      using load_item_frame [OF d(1)] k(3) by auto
    obtain cs where cs: "length cs \<le> 2 ^ 31" "ram s4 = ram_write (ram u3) heap_get_base_address cs"
      using load_item_frame [OF e] d(3) by auto
    have below: "ram_get32 (ram s4) x = ram_get32 (ram u3) x" if "unat x \<le> 0x8000000" for x
      using that cs by (simp add: ad ram_get32_below)
    have below': "ram_get32 (ram s4) x = ram_get32 (ram u1) x" if "unat x \<le> 0x4000000" for x
      using that bs below [of x] by (simp add: ad ram_get32_below)
    have "bytes32 (ram_get32 (ram s4) 0x8000000) = rev (bytes32 DTB_MAGIC)"
      using d(2) below [of "0x8000000"] bswap32_bswap32 [of "ram_get32 (ram u3) 0x8000000"]
      by (simp add: ad flip: bswap32_bytes)
    also have "rev (bytes32 DTB_MAGIC) = [0xd0, 0x0d, 0xfe, 0xed]" by code_simp
    finally have "ram_bytes (ram s4) 0x8000000 4 = [0xd0, 0x0d, 0xfe, 0xed]" by (simp add: ram_get32_bytes)
    moreover have "0x2000000 + ram_get32 (ram s4) 0x1fffffc \<le> 0x8000000"
      using k(1) below' [of "0x1fffffc"] by (simp add: ad)
    moreover have "ram_get32 (ram s4) 0x2000024 = 0x016F2818"
      using k(2) below' [of "0x2000024"] by (simp add: ad ZIMAGE_MAGIC_def)
    moreover have "1 \<le> IMAGE_PARTITION cfg \<and> IMAGE_PARTITION cfg \<le> 4"
      using p by (simp add: mbr_partition_valid_def mbr_defs)
    ultimately show ?thesis using t boot_checks_made [OF assms] by (simp add: ad)
  qed
qed

end
