(* ===== verification/Reference.thy ===== *)
theory Reference
  imports Sd_Controller Vc_Reference Boot_Facts Total
begin

unbundle bit_operations_syntax

text \<open>
  The boot on a board that behaves as documented: an SD controller and card that follow the
  reference, a VideoCore that answers, a UART that is ready to transmit.
\<close>

definition pi_like :: "'d hw \<Rightarrow> ('d \<Rightarrow> ctl) \<Rightarrow> ('d \<Rightarrow> u32) \<Rightarrow> sd_spec \<Rightarrow> bool" where
  "pi_like hw view msg sp \<longleftrightarrow> follows hw view sp \<and> mailbox_follows hw msg \<and> uart_ready hw"

lemma pi_likeD:
  assumes "pi_like hw view msg sp"
  shows "follows hw view sp" and "mailbox_follows hw msg" and "uart_ready hw" and "0 < poll_fuel hw"
  using assms by (simp_all add: pi_like_def uart_ready_def)

section \<open>States\<close>

text \<open>The controller is in \<open>c\<close> and the driver's record of the card is \<open>cd\<close>; RAM is \<open>rm\<close>.\<close>

definition sd_at :: "('d \<Rightarrow> ctl) \<Rightarrow> ctl \<Rightarrow> card \<Rightarrow> 'd machine \<Rightarrow> bool" where
  "sd_at view c cd t \<longleftrightarrow> view (dev t) = c \<and> sdcard t = cd"

definition all_at :: "('d \<Rightarrow> ctl) \<Rightarrow> ctl \<Rightarrow> card \<Rightarrow> ram \<Rightarrow> 'd machine \<Rightarrow> bool" where
  "all_at view c cd rm t \<longleftrightarrow> view (dev t) = c \<and> sdcard t = cd \<and> ram t = rm"

lemma reaches_gives: "reaches view m s x c \<Longrightarrow> sdcard s = cd \<Longrightarrow> ram s = rm \<Longrightarrow> gives m s x (all_at view c cd rm)"
  by (auto simp: reaches_def gives_def all_at_def)

section \<open>Operations that leave the controller alone\<close>

definition same_view :: "('d \<Rightarrow> 'v) \<Rightarrow> 'd machine \<Rightarrow> 'd machine \<Rightarrow> bool" where
  "same_view view s t \<longleftrightarrow> view (dev t) = view (dev s)"

lemma same_view_relation:
  assumes "follows hw view sp"
  shows "ram_free_relation (same_view view) hw sd_page"
  by unfold_locales (simp_all add: same_view_def followsD [OF assms])

lemma gives_log:
  assumes "pi_like hw view msg sp" and "log_ok fmt ap" and "all_at view c cd rm s"
  shows "gives (serial_log hw fmt ap) s () (all_at view c cd rm)"
proof -
  note p = pi_likeD [OF assms(1)]
  obtain t where t: "serial_log hw fmt ap s = (Ret (), t)" using serial_log_returns [OF p(3) assms(2)] by blast
  have "same_view view s t"
    by (rule guarD [OF access_relation.guar_serial_log [OF ram_free_relation.axioms(1) [OF same_view_relation [OF p(1)]]] t])
  then show ?thesis using t log_same [OF t] assms(3) by (auto simp: gives_def all_at_def same_view_def)
qed

lemma gives_same:
  assumes "follows hw view sp" and "sd_at view c cd s" and "\<exists>t. m s = (Ret x, t)"
    and "guar (same_view view) m" and "guar same_card m"
  shows "gives m s x (sd_at view c cd)"
proof -
  obtain t where t: "m s = (Ret x, t)" using assms(3) by blast
  then show ?thesis using guarD [OF assms(4) t] guarD [OF assms(5) t] assms(2)
    by (auto simp: gives_def sd_at_def same_view_def same_card_def)
qed

lemma gives_tags:
  assumes "pi_like hw view msg sp" and "sd_at view c cd s"
  shows "gives (tag_clock_get_state hw clk) s (clock_state_of 1) (sd_at view c cd)"
    and "gives (tag_clock_get_rate hw clk) s (if clk = CLK_EMMC2 then 100000000 else 250000000) (sd_at view c cd)"
    and "gives (tag_gpio_get_config hw pin) s
      \<lparr>cfg_unused = 0, direction = 1, polarity = 0, term_en = 0, term_pull_up = 0\<rparr> (sd_at view c cd)"
    and "gives (tag_gpio_get_state hw pin) s (if pin = GPIO_EXPANDER_SD_PWR_ON then 1 else 0) (sd_at view c cd)"
proof -
  note p = pi_likeD [OF assms(1)]
  note g = mailbox_relation.guar_tags [OF ram_free_relation.mailbox_relation [OF same_view_relation [OF p(1)]]] and a = tags_answered [OF p(2,4)]
  note r = gives_same [OF p(1) assms(2)]
  show "gives (tag_clock_get_state hw clk) s (clock_state_of 1) (sd_at view c cd)"
    by (rule r [OF a(1) g(2) same_card.guar_tags(2)])
  show "gives (tag_clock_get_rate hw clk) s (if clk = CLK_EMMC2 then 100000000 else 250000000) (sd_at view c cd)"
    by (rule r [OF a(2) g(3) same_card.guar_tags(3)])
  show "gives (tag_gpio_get_config hw pin) s
      \<lparr>cfg_unused = 0, direction = 1, polarity = 0, term_en = 0, term_pull_up = 0\<rparr> (sd_at view c cd)"
    by (rule r [OF a(3) g(5) same_card.guar_tags(5)])
  show "gives (tag_gpio_get_state hw pin) s (if pin = GPIO_EXPANDER_SD_PWR_ON then 1 else 0) (sd_at view c cd)"
    by (rule r [OF a(4) g(4) same_card.guar_tags(4)])
qed

lemma gives_uart_init:
  assumes "pi_like hw view msg sp" and "sd_at view c cd s"
  shows "gives (uart_init hw) s () (sd_at view c cd)"
proof -
  note p = pi_likeD [OF assms(1)]
  let ?T = "\<lambda>_. True"
  have reg: "gives (register_set hw uart_access r v) u () ?T" "gives (register_disable_bits hw uart_access r v) u () ?T"
    "gives (gpio_pin_select_op hw GPIO_PIN_TXD1 GPIO_OP_ALT_FN_5) u () ?T" for r v u
    by (simp_all add: gives_def run_simps register_disable_bits_def gpio_pin_select_op_def gpfsel_regs_def
        GPIO_PIN_TXD1_def PINS_PER_GPFSEL_def)
  have rate: "gives (tag_clock_get_rate hw CLK_CORE) u (if CLK_CORE = CLK_EMMC2 then 100000000 else 250000000) ?T" for u
    using tags_answered(2) [OF p(2,4)] by (simp add: gives_def)
  have "gives (uart_init hw) s () ?T"
    unfolding uart_init_def uart_set_baudrate_def bnd_assoc
    by (rule gives_bnd [OF reg(3)] gives_bnd [OF reg(1)] gives_bnd [OF reg(2)] gives_bnd [OF rate] reg)+
  then have "\<exists>t. uart_init hw s = (Ret (), t)" by (simp add: gives_def)
  then show ?thesis
    by (rule gives_same [OF p(1) assms(2) _ mailbox_relation.guar_uart_init
          [OF ram_free_relation.mailbox_relation [OF same_view_relation [OF p(1)]]] same_card.guar_uart_init])
qed

section \<open>Controller registers\<close>

lemma gives_register:
  assumes "follows hw view sp" and "all_at view c cd rm s" and "r \<noteq> DATA"
  shows "gives (register_set hw sd_access r v) s () (all_at view (ctl_write sp r v c) cd rm)"
    and "gives (register_get hw sd_access r) s (ctl_value sp r c) (all_at view c cd rm)"
    and "gives (register_get_out hw sd_access r) s (ctl_value sp r c) (all_at view c cd rm)"
    and "gives (register_enable_bits hw sd_access r v) s () (all_at view (ctl_write sp r (ctl_value sp r c OR v) c) cd rm)"
    and "gives (register_disable_bits hw sd_access r v) s ()
      (all_at view (ctl_write sp r (ctl_value sp r c AND NOT v) c) cd rm)"
  using assms(2,3) by (simp_all add: gives_def all_at_def register_enable_bits_def register_disable_bits_def
      run_simps followsD [OF assms(1)] ctl_read_def)

lemma gives_reset_wait:
  assumes "follows hw view sp" and "0 < poll_fuel hw" and "all_at view c cd rm s" and "c_ctl1 c = 0"
  shows "gives (while_cond_timeout_infinite hw (sd_sw_reset_hc_bit_set hw) ms) s () (all_at view c cd rm)"
proof -
  note f = followsD [OF assms(1)]
  have "view (dev (after_read hw CLO_addr s)) = c" using assms(3) by (simp add: f(4) CLO_not_sd all_at_def)
  then have "dev_read hw (sd_reg CONTROL1) (after_read hw CLO_addr s) = 0"
    unfolding f(1) using assms(4) by (simp add: ctl_value_def)
  then show ?thesis
    using sd_reset_wait.while_cond_false [of hw s ms] assms(2,3)
    by (simp add: gives_def all_at_def f(2,4) CLO_not_sd ctl_read_def)
qed

lemma gives_clock_wait:
  assumes "follows hw view sp" and "0 < poll_fuel hw" and "all_at view c cd rm s"
    and "c_ctl1 c AND CONTROL1_INT_CLK_EN \<noteq> 0"
  shows "gives (while_cond_timeout_infinite hw (sd_internal_clock_not_stable hw) ms) s () (all_at view c cd rm)"
proof -
  note f = followsD [OF assms(1)]
  have "view (dev (after_read hw CLO_addr s)) = c" using assms(3) by (simp add: f(4) CLO_not_sd all_at_def)
  then have "dev_read hw (sd_reg CONTROL1) (after_read hw CLO_addr s) = c_ctl1 c OR CONTROL1_INT_CLK_STABLE"
    unfolding f(1) using assms(4) by (simp add: ctl_value_def)
  moreover have "(c_ctl1 c OR CONTROL1_INT_CLK_STABLE) AND CONTROL1_INT_CLK_STABLE \<noteq> 0"
    unfolding CONTROL1_INT_CLK_STABLE_def and_BIT_eq_0 by (simp add: bit_or_iff bit_BIT)
  ultimately show ?thesis
    using sd_clock_wait.while_cond_false [of hw s ms] assms(2,3)
    by (simp add: gives_def all_at_def f(2,4) CLO_not_sd ctl_read_def)
qed

lemma gives_sd_at:
  assumes "sd_at view c cd s" and "\<And>rm. all_at view c cd rm s \<Longrightarrow> gives m s x (all_at view c' cd' (f rm))"
  shows "gives m s x (sd_at view c' cd')"
proof -
  have "all_at view c cd (ram s) s" using assms(1) by (simp add: sd_at_def all_at_def)
  from assms(2) [OF this] show ?thesis by (rule gives_weaken) (simp add: sd_at_def all_at_def)
qed

section \<open>Initialisation of the host\<close>

lemma gives_assert_vc_init:
  assumes "pi_like hw view msg sp" and "sd_at view c cd s"
  shows "gives (sd_assert_vc_init hw) s () (sd_at view c cd)"
proof -
  note tag = gives_tags [OF assms(1)]
  have on: "clk_on (clock_state_of 1)" "\<not> clk_not_exists (clock_state_of 1)" by code_simp+
  have skip: "\<not> b \<Longrightarrow> sd_at view c cd u \<Longrightarrow> gives (when_io b m) u () (sd_at view c cd)" for b m u
    by (rule gives_skip)
  have 1: "gives (sd_assert_base_clock hw) u () (sd_at view c cd)" if "sd_at view c cd u" for u
    unfolding sd_assert_base_clock_def
    by (rule gives_bnd [OF tag(1) [OF that]], rule gives_bnd [OF skip], use on in simp, assumption,
        rule gives_bnd [OF tag(2)], assumption, rule skip, simp add: EMMC2_EXPECTED_BASE_CLOCK_HZ_def, assumption)
  have cfg: "gpio_config_pin_is_output \<lparr>cfg_unused = 0, direction = 1, polarity = 0, term_en = 0, term_pull_up = 0\<rparr>"
    "gpio_config_pin_is_active_high \<lparr>cfg_unused = 0, direction = 1, polarity = 0, term_en = 0, term_pull_up = 0\<rparr>"
    by (simp_all add: gpio_config_pin_is_output_def gpio_config_pin_is_active_high_def)
  have 2: "gives (sd_assert_voltage hw) u () (sd_at view c cd)" if "sd_at view c cd u" for u
    unfolding sd_assert_voltage_def
    by (rule gives_bnd [OF tag(3) [OF that]], rule gives_bnd [OF skip], use cfg in simp, assumption,
        rule gives_bnd [OF tag(4)], assumption, rule skip, simp, assumption)
  have 3: "gives (sd_assert_card_power hw) u () (sd_at view c cd)" if "sd_at view c cd u" for u
    unfolding sd_assert_card_power_def
    by (rule gives_bnd [OF tag(3) [OF that]], rule gives_bnd [OF skip], use cfg in simp, assumption,
        rule gives_bnd [OF tag(4)], assumption, rule skip, simp, assumption)
  show ?thesis
    unfolding sd_assert_vc_init_def
    by (rule gives_bnd [OF 1 [OF assms(2)]], rule gives_bnd [OF 2], assumption, rule 3)
qed

lemmas control1_defs = CONTROL1_CLK_EN_def CONTROL1_INT_CLK_EN_def CONTROL1_CLK_FREQ_SEL_def CONTROL1_INT_CLK_STABLE_def
  CONTROL1_SW_RESET_HC_def CONTROL1_CLK_FREQ_SEL_SHIFT_def BIT_def BITS_def

lemma gives_reset_host:
  assumes "follows hw view sp" and "0 < poll_fuel hw" and "all_at view c cd rm s"
  shows "gives (sd_reset_host hw) s ()
    (all_at view (c\<lparr>c_ctl0 := 0, c_ctl1 := 0, c_mask := 0, c_irq := 0, c_left := 0\<rparr>) cd rm)"
proof -
  have "(v OR CONTROL1_SW_RESET_HC) AND CONTROL1_SW_RESET_HC \<noteq> 0" for v
    unfolding CONTROL1_SW_RESET_HC_def and_BIT_eq_0 by (simp add: bit_or_iff bit_BIT)
  then have w: "ctl_write sp CONTROL1 (v OR CONTROL1_SW_RESET_HC) c =
      c\<lparr>c_ctl0 := 0, c_ctl1 := 0, c_mask := 0, c_irq := 0, c_left := 0\<rparr>" for v
    by (simp add: ctl_write_def)
  show ?thesis
    unfolding sd_reset_host_def
    by (rule gives_bnd, rule gives_register(4) [OF assms(1,3), where r = CONTROL1 and v = CONTROL1_SW_RESET_HC, unfolded w], simp,
        rule gives_reset_wait [OF assms(1,2)], assumption, simp)
qed

lemma dividers:
  "sd_8bit_clock_divider EMMC2_EXPECTED_BASE_CLOCK_HZ IDENTIFICATION_CLOCK_RATE_HZ = Some 128"
  "sd_8bit_clock_divider EMMC2_EXPECTED_BASE_CLOCK_HZ DEFAULT_SPEED_CLOCK_RATE_HZ = Some 2"
  by code_simp+

lemma gives_supply_clock:
  assumes "follows hw view sp" and "0 < poll_fuel hw" and "all_at view c cd rm s"
    and "sd_8bit_clock_divider EMMC2_EXPECTED_BASE_CLOCK_HZ rate = Some d"
    and "c_ctl1 c = 0 \<and> d = 128 \<and> w = 0x8007 \<or> c_ctl1 c = 0x8007 \<and> d = 2 \<and> w = 0x0207"
  shows "gives (sd_supply_clock hw rate) s () (all_at view (c\<lparr>c_ctl1 := w\<rparr>) cd rm)"
proof -
  note reg = gives_register [OF assms(1)] 
  have cw: "ctl_write sp CONTROL1 v c = c\<lparr>c_ctl1 := v\<rparr>" if "v AND CONTROL1_SW_RESET_HC = 0" for v c
    using that by (simp add: ctl_write_def)
  show ?thesis
    unfolding sd_supply_clock_def assms(4) option.case
    apply (rule gives_bnd [OF reg(5) [OF assms(3)]], simp)
    apply (rule gives_bnd [OF reg(5)], assumption, simp)
    apply (rule gives_bnd [OF reg(4)], assumption, simp)
    apply (rule gives_bnd [OF gives_clock_wait [OF assms(1,2)]], assumption)
    subgoal using assms(5) by (auto simp: ctl_value_def ctl_write_def control1_defs)
    apply (rule gives_weaken, rule reg(4), assumption, simp)
    using assms(5) by (auto simp: ctl_value_def ctl_write_def control1_defs)
qed

lemma gives_pre_cmd_init:
  assumes "pi_like hw view msg sp" and "sd_at view c cd s"
  shows "gives (sd_pre_cmd_init hw) s () (sd_at view
    (c\<lparr>c_irq := 0, c_left := 0, c_ctl0 := 0xf00, c_ctl1 := 0x8007, c_mask := 0x000f0001\<rparr>) cd)"
proof -
  note p = pi_likeD [OF assms(1)]
  let ?irq = "cast_interrupt ((interrupt_of 0)\<lparr>irq_cmd_complete := 1, irq_cmd_timeout_error := 1,
    irq_cmd_crc_error := 1, irq_cmd_end_bit_error := 1, irq_cmd_index_error := 1\<rparr>)"
  let ?pwr = "push_bit CONTROL0_PWR_CTL_SHIFT (PWR_CTL_SD_BUS_VOLT_SEL_3V3 OR PWR_CTL_SD_BUS_POWER)"
  have lits: "?irq = 0x000f0001" "?pwr = 0xf00" by code_simp+
  have host: "gives (bnd (sd_reset_host hw) (\<lambda>_. bnd (sd_supply_bus_power hw) (\<lambda>_.
      bnd (sd_supply_clock hw IDENTIFICATION_CLOCK_RATE_HZ) (\<lambda>_. sd_enable_cmd_interrupts hw)))) u ()
      (all_at view (c\<lparr>c_irq := 0, c_left := 0, c_ctl0 := 0xf00, c_ctl1 := 0x8007, c_mask := 0x000f0001\<rparr>) cd rm)"
    if "all_at view c cd rm u" for u rm
    unfolding sd_supply_bus_power_def sd_enable_cmd_interrupts_def sd_enable_interrupts_def Let_def lits
    by (rule gives_bnd [OF gives_reset_host [OF p(1,4) that]], rule gives_bnd [OF gives_register(4) [OF p(1)]],
        assumption, simp, rule gives_bnd [OF gives_supply_clock [OF p(1,4) _ dividers(1), where w = "0x8007"]], assumption,
        simp add: ctl_write_def, rule gives_weaken, rule gives_register(4) [OF p(1)], assumption, simp,
        simp add: ctl_write_def ctl_value_def)
  show ?thesis
    unfolding sd_pre_cmd_init_def
    by (rule gives_bnd [OF gives_assert_vc_init [OF assms]], rule gives_sd_at, assumption, rule host)
qed

section \<open>Commands\<close>

text \<open>
  \<open>card_at view k mk st app i a cd t\<close>: the controller has power, the clock setting \<open>k\<close>, the
  interrupt mk \<open>mk\<close> and nothing pending; the card is in the state \<open>st\<close>, its last command
  was number \<open>i\<close> with argument \<open>a\<close>; the driver's record of it is \<open>cd\<close>.
\<close>

definition card_at :: "('d \<Rightarrow> ctl) \<Rightarrow> u32 \<Rightarrow> u32 \<Rightarrow> card_state \<Rightarrow> bool \<Rightarrow> u32 \<Rightarrow> u32 \<Rightarrow> card \<Rightarrow> 'd machine \<Rightarrow> bool" where
  "card_at view k mk st app i a cd t \<longleftrightarrow>
     (let c = view (dev t)
      in c_ctl0 c AND 0x100 \<noteq> 0 \<and> c_ctl1 c = k \<and> c_mask c = mk \<and> c_irq c = 0 \<and> c_state c = st \<and> c_app c = app \<and>
         c_idx c = i \<and> c_arg c = a \<and> sdcard t = cd)"

definition live :: "u32 \<Rightarrow> u32 \<Rightarrow> bool" where
  "live k mk \<longleftrightarrow> k AND CONTROL1_INT_CLK_EN \<noteq> 0 \<and> k AND CONTROL1_CLK_EN \<noteq> 0 \<and>
     INTERRUPT_CMD_COMPLETE AND mk = INTERRUPT_CMD_COMPLETE"

lemma gives_cmd:
  assumes "follows hw view sp" and "0 < poll_fuel hw" and "live k mk" and "card_at view k mk st app i a cd s"
    and "card_next sp st app (cmd_number idx) args = Some st'" and "cmd_number idx \<notin> {17, 18, 51}"
  shows "gives (sd_issue_cmd hw idx args) s CMD_ERROR_NONE
    (card_at view k mk st' (cmd_number idx = 55) (cmd_number idx) args cd)"
proof -
  let ?c = "view (dev s)"
  have "takes_cmds ?c" using assms(3,4) by (simp add: takes_cmds_def running_def card_at_def live_def Let_def)
  moreover have "card_next sp (c_state ?c) (c_app ?c) (cmd_number idx) args = Some st'"
    using assms(4,5) by (simp add: card_at_def Let_def)
  ultimately obtain t where t: "sd_issue_cmd hw idx args s = (Ret CMD_ERROR_NONE, t)"
    "view (dev t) = issued sp idx args st' ?c" "sdcard t = sdcard s"
    using reaches_issue [OF assms(1) refl assms(2)] by (blast elim: reachesE)
  then show ?thesis using assms(4,6) by (auto simp: gives_def card_at_def issued_def Let_def)
qed

lemma gives_resp:
  assumes "follows hw view sp" and "card_at view k mk st app i a cd s"
  shows "gives (register_get_out hw sd_access RESP0) s
      (card_resp sp i a) (card_at view k mk st app i a cd)"
    and "gives (register_get hw sd_access RESP0) s
      (card_resp sp i a) (card_at view k mk st app i a cd)"
  using assms(2) by (simp_all add: gives_def run_simps followsD [OF assms(1)] ctl_value_def ctl_read_def card_at_def
      Let_def)

lemma gives_acmd:
  assumes "follows hw view sp" and "0 < poll_fuel hw" and "live k mk" and "card_at view k mk st app i a cd s"
    and "card_next sp st app 55 (cast_ac_rca_args ((ac_rca_args_of 0)\<lparr>ac_rca := rca\<rparr>)) = Some st"
    and "card_next sp st True (cmd_number idx) args = Some st'" and "cmd_number idx \<notin> {17, 18, 51, 55}"
  shows "gives (sd_issue_acmd hw idx args rca) s CMD_ERROR_NONE (card_at view k mk st' False (cmd_number idx) args cd)"
proof -
  let ?a = "cast_ac_rca_args ((ac_rca_args_of 0)\<lparr>ac_rca := rca\<rparr>)"
  have app: "cs_app_cmd (card_status_of (card_resp sp 55 ?a)) \<noteq> 0"
    by (simp add: card_resp_def card_status_of_def getfld_def)
  have 55: "gives (sd_issue_cmd hw CMD_IDX_APP_CMD ?a) s CMD_ERROR_NONE (card_at view k mk st True 55 ?a cd)"
    using gives_cmd [OF assms(1-4), of CMD_IDX_APP_CMD ?a st] assms(5) by simp
  have acmd: "gives (sd_issue_cmd hw idx args) u CMD_ERROR_NONE (card_at view k mk st' False (cmd_number idx) args cd)"
    if "card_at view k mk st True 55 ?a cd u" for u
    using gives_cmd [OF assms(1-3) that assms(6)] assms(7) by simp
  show ?thesis
    unfolding sd_issue_acmd_def
    by (rule gives_bnd [OF 55], simp, rule gives_bnd [OF gives_resp(1) [OF assms(1)]], assumption, simp add: app, rule acmd)
qed

section \<open>Identification of the card\<close>

lemma gives_set_card: "card_at view k mk st app i a cd s \<Longrightarrow> gives (set_card f) s () (card_at view k mk st app i a (f cd))"
  by (simp add: gives_def set_card_def run_simps card_at_def Let_def)

lemma gives_poll_start:
  assumes "follows hw view sp" and "card_at view k mk st app i a cd s"
  shows "\<exists>ts. gives (timer_poll_start hw ms) s ts (card_at view k mk st app i a cd)"
  using assms(2) by (simp add: gives_def run_simps card_at_def followsD(4) [OF assms(1)] CLO_not_sd)

lemma ocr_literals:
  "bit (0xc0300000 :: u32) 31" "bit (0x80300000 :: u32) 31" "\<not> bit (0x00cf8000 :: u32) 31"
  "bit (0xc0300000 :: u32) 30" "\<not> bit (0x80300000 :: u32) 30" "\<not> bit (0x00cf8000 :: u32) 30"
  by code_simp+

lemma card_resp_ocr:
  "card_resp sp 41 a = (if spec_hc sp then 0xc0300000 else 0x80300000) OR (spec_ocr sp AND 0x00cf8000)"
  by (simp add: card_resp_def)

lemma gives_acmd41_loop:
  assumes "follows hw view sp" and "live k mk" and "card_at view k mk CARD_STATE_IDLE False i a cd s" and "0 < poll_fuel hw"
    and "0 < fuel"
  shows "gives (acmd41_loop hw ts 0 op_cond_args fuel) s (CMD_ERROR_NONE, Some (spec_hc sp))
    (card_at view k mk CARD_STATE_READY False 41 op_cond_args cd)"
proof -
  obtain n where n: "fuel = Suc n" using assms(5) by (cases fuel) simp_all
  let ?ocr = "card_resp sp 41 op_cond_args"
  have ocr: "?ocr AND OCR_CARD_POWER_UP_STATUS \<noteq> 0" "(?ocr AND OCR_CARD_CAPACITY_STATUS \<noteq> 0) = spec_hc sp"
    unfolding OCR_CARD_POWER_UP_STATUS_def OCR_CARD_CAPACITY_STATUS_def and_BIT_eq_0 card_resp_ocr
    using ocr_literals by (simp_all only: bit_or_iff bit_and_iff simp_thms split: if_split)
  have win: "op_cond_args AND 0xff8000 \<noteq> 0" by code_simp
  have acmd: "gives (sd_issue_acmd hw ACMD_IDX_SD_SEND_OP_COND op_cond_args 0) u CMD_ERROR_NONE
      (card_at view k mk CARD_STATE_READY False 41 op_cond_args cd)" if "card_at view k mk CARD_STATE_IDLE False i a cd u" for u
    using gives_acmd [OF assms(1,4,2) that, of 0 ACMD_IDX_SD_SEND_OP_COND op_cond_args CARD_STATE_READY] win
    by (simp add: card_next_def rca_arg)
  show ?thesis
    unfolding n acmd41_loop.simps
    by (rule gives_bnd, rule gives_skip, simp, rule assms(3), rule gives_bnd [OF acmd], assumption, simp,
        rule gives_bnd [OF gives_resp(2) [OF assms(1)]], assumption, simp add: ocr, rule gives_ret)
qed

lemma gives_acmd41:
  assumes "follows hw view sp" and "0 < poll_fuel hw" and "live k mk" and "card_at view k mk CARD_STATE_IDLE False i a cd s"
  shows "gives (sd_issue_acmd41 hw) s (CMD_ERROR_NONE, Some (spec_hc sp))
    (card_at view k mk CARD_STATE_READY False 41 op_cond_args cd)"
proof -
  have inq: "gives (sd_issue_acmd hw ACMD_IDX_SD_SEND_OP_COND 0 0) s CMD_ERROR_NONE
      (card_at view k mk CARD_STATE_IDLE False 41 0 cd)"
    using gives_acmd [OF assms, of 0 ACMD_IDX_SD_SEND_OP_COND 0 CARD_STATE_IDLE]
    by (simp add: card_next_def rca_arg)
  have poll: "gives (bnd (timer_poll_start hw 1000) (\<lambda>ts. acmd41_loop hw ts 0 op_cond_args (poll_fuel hw))) u
      (CMD_ERROR_NONE, Some (spec_hc sp)) (card_at view k mk CARD_STATE_READY False 41 op_cond_args cd)"
    if st: "card_at view k mk CARD_STATE_IDLE False 41 0 cd u" for u
  proof -
    obtain ts where "gives (timer_poll_start hw 1000) u ts (card_at view k mk CARD_STATE_IDLE False 41 0 cd)"
      using gives_poll_start [OF assms(1) st] by blast
    then show ?thesis by (rule gives_bnd) (rule gives_acmd41_loop [OF assms(1,3) _ assms(2,2)])
  qed
  show ?thesis
    unfolding sd_issue_acmd41_def Let_def op_cond_args_def [symmetric]
    by (rule gives_bnd [OF inq], simp, rule gives_bnd [OF gives_resp(2) [OF assms(1)]], assumption, rule poll)
qed

lemma gives_cmd8:
  assumes "follows hw view sp" and "0 < poll_fuel hw" and "live k mk" and "card_at view k mk CARD_STATE_IDLE False i a cd s"
  shows "gives (sd_issue_cmd8 hw) s CMD_ERROR_NONE (card_at view k mk CARD_STATE_IDLE False 8 cmd8_args cd)"
proof -
  have c: "gives (sd_issue_cmd hw CMD_IDX_SEND_IF_COND cmd8_args) s CMD_ERROR_NONE
      (card_at view k mk CARD_STATE_IDLE False 8 cmd8_args cd)"
    using gives_cmd [OF assms, of CMD_IDX_SEND_IF_COND cmd8_args CARD_STATE_IDLE] by (simp add: card_next_def)
  have e: "cmd8_args = cmd8_args AND 0xfff" by code_simp
  show ?thesis
    unfolding sd_issue_cmd8_def
    by (rule gives_bnd [OF c], simp, rule gives_bnd [OF gives_resp(1) [OF assms(1)]], assumption,
        simp add: card_resp_def e [symmetric], rule gives_ret)
qed

lemma gives_cmd3:
  assumes "follows hw view sp" and "0 < poll_fuel hw" and "live k mk"
    and "card_at view k mk CARD_STATE_IDENTIFICATION False i a cd s" and "take_bit 16 (spec_rca sp) = spec_rca sp"
  shows "gives (sd_issue_cmd3 hw) s (CMD_ERROR_NONE, Some (spec_rca sp)) (card_at view k mk CARD_STATE_STANDBY False 3 0 cd)"
proof -
  have c: "gives (sd_issue_cmd hw CMD_IDX_SEND_RELATIVE_ADDR 0) s CMD_ERROR_NONE (card_at view k mk CARD_STATE_STANDBY False 3 0 cd)"
    using gives_cmd [OF assms(1-4), of CMD_IDX_SEND_RELATIVE_ADDR 0 CARD_STATE_STANDBY] by (simp add: card_next_def)
  have low: "getfld j (Suc 0) (push_bit 16 (spec_rca sp) OR 0x500) = 0" if "j = 3 \<or> j = 13 \<or> j = 14 \<or> j = 15" for j
  proof (rule bit_word_eqI)
    fix n
    assume "n < LENGTH(32)"
    have "\<not> bit (0x500 :: u32) 3" "\<not> bit (0x500 :: u32) 13" "\<not> bit (0x500 :: u32) 14" "\<not> bit (0x500 :: u32) 15" by code_simp+
    then show "bit (getfld j (Suc 0) (push_bit 16 (spec_rca sp) OR 0x500)) n = bit (0 :: u32) n"
      using that by (auto simp: bit_getfld bit_push_bit_iff bit_or_iff)
  qed
  have high: "getfld 16 16 (push_bit 16 (spec_rca sp) OR 0x500) = spec_rca sp"
  proof -
    have "getfld 16 16 (0x500 :: u32) = 0" by code_simp
    moreover have "getfld 16 16 (push_bit 16 (spec_rca sp)) = take_bit 16 (spec_rca sp)"
      by (rule bit_word_eqI) (auto simp: bit_getfld bit_push_bit_iff bit_take_bit_iff)
    ultimately show ?thesis using assms(5) by simp
  qed
  show ?thesis
    unfolding sd_issue_cmd3_def
    by (rule gives_bnd [OF c], simp, rule gives_bnd [OF gives_resp(1) [OF assms(1)]], assumption,
        simp add: card_resp_def low high del: getfld_or, rule gives_ret)
qed

text \<open>What the driver has to know of the card in the end.\<close>

definition known_card :: "sd_spec \<Rightarrow> card_state \<Rightarrow> card" where
  "known_card sp st = \<lparr>cstate = st, sdhc_or_sdxc = spec_hc sp, card_rca = spec_rca sp,
     cmd23_supported = (bit (spec_scr sp) 1)\<rparr>"

lemma gives_identify:
  assumes "follows hw view sp" and "0 < poll_fuel hw" and "live k mk" and "card_at view k mk st app i a zero_card s"
    and "take_bit 16 (spec_rca sp) = spec_rca sp"
  shows "gives (sd_card_init_and_identify hw) s SD_INIT_ERROR_NONE
    (card_at view k mk CARD_STATE_STANDBY False 3 0 ((known_card sp CARD_STATE_STANDBY)\<lparr>cmd23_supported := False\<rparr>))"
proof -
  note f = assms(1-3)
  have c0: "gives (sd_issue_cmd hw CMD_IDX_GO_IDLE_STATE 0) u CMD_ERROR_NONE (card_at view k mk CARD_STATE_IDLE False 0 0 cd)"
    if "card_at view k mk st app i a cd u" for u cd
    using gives_cmd [OF f that, of CMD_IDX_GO_IDLE_STATE 0 CARD_STATE_IDLE] by (simp add: card_next_def)
  have c2: "gives (sd_issue_cmd hw CMD_IDX_ALL_SEND_CID 0) u CMD_ERROR_NONE
      (card_at view k mk CARD_STATE_IDENTIFICATION False 2 0 cd)" if "card_at view k mk CARD_STATE_READY False i a cd u" for u i a cd
    using gives_cmd [OF f that, of CMD_IDX_ALL_SEND_CID 0 CARD_STATE_IDENTIFICATION] by (simp add: card_next_def)
  show ?thesis
    unfolding sd_card_init_and_identify_def
    apply (rule gives_bnd [OF gives_set_card [OF assms(4)]], rule gives_bnd [OF c0], assumption, simp)
    apply (rule gives_bnd [OF gives_cmd8 [OF f]], assumption, simp, rule gives_bnd [OF gives_acmd41 [OF f]], assumption, simp)
    apply (rule gives_bnd [OF gives_set_card], assumption, rule gives_bnd [OF gives_set_card], assumption)
    apply (rule gives_bnd [OF c2], assumption, simp, rule gives_bnd [OF gives_set_card], assumption)
    apply (rule gives_bnd [OF gives_cmd3 [OF f _ assms(5)]], assumption, simp, rule gives_bnd [OF gives_set_card], assumption)
    apply (rule gives_bnd [OF gives_set_card], assumption, rule gives_ret)
    apply (simp add: known_card_def zero_card_def)
    done
qed

end
