(* ===== verification/Reference_Init.thy ===== *)
theory Reference_Init
  imports Reference
begin
unbundle bit_operations_syntax

text \<open>
  The second half of the initialisation on a board that behaves as documented: from the
  identified card to the transfer state, and with it the whole of \<^verbatim>\<open>sd_init()\<close>.
\<close>

section \<open>Steps\<close>

lemma card_at_all: "all_at view (view (dev s)) (sdcard s) (ram s) s"
  by (simp add: all_at_def)

lemma gives_card_at:
  assumes "gives m s x (all_at view c (sdcard s) (ram s))"
    and "\<And>t. view (dev t) = c \<Longrightarrow> sdcard t = sdcard s \<Longrightarrow> P t"
  shows "gives m s x P"
  using assms by (auto simp: gives_def all_at_def)

lemma gives_log_card:
  assumes "pi_like hw view msg sp" and "log_ok fmt ap" and "card_at view k mk st app i a cd s"
  shows "gives (serial_log hw fmt ap) s () (card_at view k mk st app i a cd)"
  using gives_log [OF assms(1,2) card_at_all] by (rule gives_card_at) (use assms(3) in \<open>simp add: card_at_def\<close>)

lemma gives_fast_clock:
  assumes "follows hw view sp" and "0 < poll_fuel hw" and "card_at view 0x8007 mk st app i a cd s"
  shows "gives (sd_supply_clock hw DEFAULT_SPEED_CLOCK_RATE_HZ) s () (card_at view 0x0207 mk st app i a cd)"
proof (rule gives_card_at)
  show "gives (sd_supply_clock hw DEFAULT_SPEED_CLOCK_RATE_HZ) s ()
      (all_at view ((view (dev s))\<lparr>c_ctl1 := 0x0207\<rparr>) (sdcard s) (ram s))"
    using assms(3) by (intro gives_supply_clock [OF assms(1,2) card_at_all dividers(2)]) (simp add: card_at_def Let_def)
qed (use assms(3) in \<open>simp add: card_at_def Let_def\<close>)

lemma gives_mask:
  assumes "follows hw view sp" and "card_at view k mk st app i a cd s"
  shows "gives (register_set hw sd_access IRPT_MASK v) s () (card_at view k v st app i a cd)"
    and "gives (register_get hw sd_access IRPT_MASK) s mk (card_at view k mk st app i a cd)"
    and "gives (register_enable_bits hw sd_access IRPT_MASK v) s () (card_at view k (mk OR v) st app i a cd)"
    and "gives (register_disable_bits hw sd_access IRPT_MASK v) s () (card_at view k (mk AND NOT v) st app i a cd)"
    and "gives (register_enable_bits hw sd_access CONTROL0 v) s () (card_at view k mk st app i a cd)"
  using assms(2) by (simp_all add: gives_def run_simps register_enable_bits_def register_disable_bits_def
      followsD [OF assms(1)] ctl_value_def ctl_read_def ctl_write_def card_at_def Let_def)
    (simp add: bit.conj_disj_distrib2 or_eq_0_iff)

text \<open>The card is in the transfer state, whatever its last command was.\<close>

definition card_ready :: "('d \<Rightarrow> ctl) \<Rightarrow> u32 \<Rightarrow> u32 \<Rightarrow> card \<Rightarrow> 'd machine \<Rightarrow> bool" where
  "card_ready view k mk cd t \<longleftrightarrow> (\<exists>i a. card_at view k mk CARD_STATE_TRANSFER False i a cd t)"

lemma card_readyI: "card_at view k mk CARD_STATE_TRANSFER False i a cd t \<Longrightarrow> card_ready view k mk cd t"
  by (auto simp: card_ready_def)

lemma gives_readyI:
  "gives m s x (card_at view k mk CARD_STATE_TRANSFER False i a cd) \<Longrightarrow> gives m s x (card_ready view k mk cd)"
  by (erule gives_weaken) (rule card_readyI)

lemma gives_ready:
  assumes "card_ready view k mk cd s"
    and "\<And>i a. card_at view k mk CARD_STATE_TRANSFER False i a cd s \<Longrightarrow> gives m s x P"
  shows "gives m s x P"
  using assms by (auto simp: card_ready_def)

lemma gives_cmd7:
  assumes "follows hw view sp" and "0 < poll_fuel hw" and "live k mk" and "card_at view k mk CARD_STATE_STANDBY False i a cd s"
    and "take_bit 16 (spec_rca sp) = spec_rca sp"
  shows "gives (sd_issue_cmd7 hw (spec_rca sp)) s CMD_ERROR_NONE (card_ready view k mk cd)"
proof -
  let ?a = "cast_ac_rca_args ((ac_rca_args_of 0)\<lparr>ac_rca := spec_rca sp\<rparr>)"
  show ?thesis
    using gives_cmd [OF assms(1-4), of CMD_IDX_SELECT_CARD ?a CARD_STATE_TRANSFER] assms(5)
    by (intro gives_readyI [where i = 7 and a = ?a]) (simp add: card_next_def rca_arg sd_issue_cmd7_def)
qed

lemma gives_cmd13:
  assumes "follows hw view sp" and "0 < poll_fuel hw" and "live k mk" and "card_ready view k mk cd s"
    and "take_bit 16 (spec_rca sp) = spec_rca sp"
  shows "gives (sd_issue_cmd13 hw (spec_rca sp)) s (CMD_ERROR_NONE, Some (card_status_of 0x900)) (card_ready view k mk cd)"
proof (rule gives_ready [OF assms(4)], rule gives_readyI)
  fix i a
  let ?a = "cast_ac_rca_args ((ac_rca_args_of 0)\<lparr>ac_rca := spec_rca sp\<rparr>)"
  assume at: "card_at view k mk CARD_STATE_TRANSFER False i a cd s"
  have c: "gives (sd_issue_cmd hw CMD_IDX_SEND_STATUS ?a) s CMD_ERROR_NONE (card_at view k mk CARD_STATE_TRANSFER False 13 ?a cd)"
    using gives_cmd [OF assms(1-3) at, of CMD_IDX_SEND_STATUS ?a CARD_STATE_TRANSFER] assms(5) by (simp add: card_next_def rca_arg)
  show "gives (sd_issue_cmd13 hw (spec_rca sp)) s (CMD_ERROR_NONE, Some (card_status_of 0x900))
      (card_at view k mk CARD_STATE_TRANSFER False 13 ?a cd)"
    unfolding sd_issue_cmd13_def
    by (rule gives_bnd [OF c], simp, rule gives_bnd [OF gives_resp(1) [OF assms(1)]], assumption,
        simp add: card_resp_def, rule gives_ret)
qed

lemma gives_set_card_ready: "card_ready view k mk cd s \<Longrightarrow> gives (set_card f) s () (card_ready view k mk (f cd))"
  by (erule gives_ready) (rule gives_readyI, rule gives_set_card)

lemma gives_wait_flag:
  assumes "follows hw view sp" and "0 < poll_fuel hw" and "all_at view c cd rm s" and "c_irq c = f"
    and "f = INTERRUPT_READ_READY \<or> f = INTERRUPT_TRANSFER_COMPLETE"
  shows "gives (sd_wait_for_interrupt hw f) s CMD_ERROR_NONE (all_at view (c\<lparr>c_irq := 0\<rparr>) cd rm)"
  using reaches_wait_flag [OF assms(1,2), of s f] assms(3-5) reaches_gives by (fastforce simp: all_at_def)

lemma gives_data:
  assumes "follows hw view sp" and "all_at view c cd rm s"
  shows "gives (register_get hw sd_access DATA) s (data_word sp c) (all_at view (ctl_read DATA c) cd rm)"
  using assms(2) by (simp add: gives_def all_at_def run_simps followsD [OF assms(1)] ctl_value_def)

lemma gives_acmd51:
  fixes hw :: "'d hw"
  assumes "follows hw view sp" and "0 < poll_fuel hw" and "live k mk" and "INTERRUPT_READ_READY AND mk = INTERRUPT_READ_READY"
    and "INTERRUPT_TRANSFER_COMPLETE AND mk = INTERRUPT_TRANSFER_COMPLETE"
    and "card_at view k mk CARD_STATE_TRANSFER False i a cd s" and "take_bit 16 (spec_rca sp) = spec_rca sp"
  shows "gives (sd_issue_acmd51 hw (spec_rca sp)) s (CMD_ERROR_NONE, scr_of (spec_scr sp))
    (card_at view k mk CARD_STATE_TRANSFER False 51 0 cd)"
proof -
  let ?a = "cast_ac_rca_args ((ac_rca_args_of 0)\<lparr>ac_rca := spec_rca sp\<rparr>)"
  note f = followsD [OF assms(1)]
  have w: "cast_blksizecnt ((blksizecnt_of 0)\<lparr>bs_blksize := 8, bs_blkcnt := 1\<rparr>) = 0x10008" by code_simp
  have cs: "cs_app_cmd (card_status_of (card_resp sp 55 ?a)) \<noteq> 0"
    by (simp add: card_resp_def card_status_of_def getfld_def)
  let ?P = "\<lambda>app i a t. card_at view k mk CARD_STATE_TRANSFER app i a cd t \<and> c_blk (view (dev t)) = 0x10008"
  have blk: "gives (set_blkszcnt hw (4 + 4) 1) s () (?P False i a)"
    using assms(6) by (simp add: gives_def set_blkszcnt_def run_simps f(3) ctl_write_def card_at_def Let_def w)
  have c55: "gives (sd_issue_cmd hw CMD_IDX_APP_CMD ?a) u CMD_ERROR_NONE (?P True 55 ?a)" if u: "?P False i a u" for u
  proof -
    have "takes_cmds (view (dev u))" using u assms(3) by (simp add: takes_cmds_def running_def card_at_def live_def Let_def)
    moreover have "card_next sp (c_state (view (dev u))) (c_app (view (dev u))) (cmd_number CMD_IDX_APP_CMD) ?a = Some CARD_STATE_TRANSFER"
      using u assms(7) by (simp add: card_at_def Let_def card_next_def rca_arg)
    ultimately obtain t where "sd_issue_cmd hw CMD_IDX_APP_CMD ?a u = (Ret CMD_ERROR_NONE, t)"
      "view (dev t) = issued sp CMD_IDX_APP_CMD ?a CARD_STATE_TRANSFER (view (dev u))" "sdcard t = sdcard u"
      using reaches_issue [OF assms(1) refl assms(2)] by (blast elim: reachesE)
    then show ?thesis using u by (auto simp: gives_def card_at_def issued_def Let_def)
  qed
  have resp: "gives (register_get_out hw sd_access RESP0) u (card_resp sp 55 ?a) (?P True 55 ?a)" if "?P True 55 ?a u" for u
    using that by (simp add: gives_def run_simps f ctl_value_def ctl_read_def card_at_def Let_def)
  define Q where "Q irq left t \<longleftrightarrow> (let c = view (dev t) in c_ctl0 c AND 0x100 \<noteq> 0 \<and> c_ctl1 c = k \<and> c_mask c = mk \<and>
      c_state c = CARD_STATE_TRANSFER \<and> \<not> c_app c \<and> c_idx c = 51 \<and> c_arg c = 0 \<and> c_pos c = None \<and>
      c_blk c = 0x10008 \<and> sdcard t = cd \<and> c_irq c = irq \<and> c_left c = left)" for irq :: u32 and left :: nat and t :: "'d machine"
  have words: "unat (getfld 0 10 (0x10008 :: u32)) div 4 = 2" "unat (getfld 16 16 (0x10008 :: u32)) = 1" by code_simp+
  have c51: "gives (sd_issue_cmd hw ACMD_IDX_SD_SEND_SCR 0) u CMD_ERROR_NONE (Q INTERRUPT_READ_READY 2)"
    if u: "?P True 55 ?a u" for u
  proof -
    have "takes_cmds (view (dev u))" using u assms(3) by (simp add: takes_cmds_def running_def card_at_def live_def Let_def)
    moreover have "card_next sp (c_state (view (dev u))) (c_app (view (dev u))) (cmd_number ACMD_IDX_SD_SEND_SCR) 0 = Some CARD_STATE_TRANSFER"
      using u by (simp add: card_at_def Let_def card_next_def)
    ultimately obtain t where "sd_issue_cmd hw ACMD_IDX_SD_SEND_SCR 0 u = (Ret CMD_ERROR_NONE, t)"
      "view (dev t) = issued sp ACMD_IDX_SD_SEND_SCR 0 CARD_STATE_TRANSFER (view (dev u))" "sdcard t = sdcard u"
      using reaches_issue [OF assms(1) refl assms(2)] by (blast elim: reachesE)
    then show ?thesis using u assms(4)
      by (simp add: gives_def Q_def card_at_def issued_def Let_def block_words_def block_count_def words)
  qed
  have wait: "gives (sd_wait_for_interrupt hw irq) u CMD_ERROR_NONE (Q 0 left)"
    if "Q irq left u" and "irq = INTERRUPT_READ_READY \<or> irq = INTERRUPT_TRANSFER_COMPLETE" for irq left u
  proof (rule gives_card_at)
    show "gives (sd_wait_for_interrupt hw irq) u CMD_ERROR_NONE (all_at view ((view (dev u))\<lparr>c_irq := 0\<rparr>) (sdcard u) (ram u))"
      using that by (intro gives_wait_flag [OF assms(1,2) card_at_all]) (simp_all add: Q_def Let_def)
  qed (use that(1) in \<open>simp add: Q_def Let_def\<close>)
  have data: "gives (register_get hw sd_access DATA) u (bswap32 (spec_scr sp)) (Q (if left = 1 then INTERRUPT_TRANSFER_COMPLETE else 0) (left - 1))"
    if "Q 0 left u" and "left = 1 \<or> left = 2" for left u
    using that assms(5) by (auto simp: gives_def run_simps f(1,2) ctl_value_def data_word_def ctl_read_def Q_def Let_def
        block_words_def words)
  have fin: "gives (ret x) u x (card_at view k mk CARD_STATE_TRANSFER False 51 0 cd)" if "Q 0 0 u" for u x
    using that by (simp add: gives_def ret_run Q_def card_at_def Let_def)
  have acmd: "gives (sd_issue_acmd hw ACMD_IDX_SD_SEND_SCR 0 (spec_rca sp)) u CMD_ERROR_NONE (Q INTERRUPT_READ_READY 2)"
    if "?P False i a u" for u
    unfolding sd_issue_acmd_def
    by (rule gives_bnd [OF c55 [OF that]], simp, rule gives_bnd [OF resp], assumption, simp add: cs, rule c51, assumption)
  have d2: "gives (register_get hw sd_access DATA) u (bswap32 (spec_scr sp)) (Q 0 1)" if "Q 0 2 u" for u
    using data [OF that] by simp
  have d1: "gives (register_get hw sd_access DATA) u (bswap32 (spec_scr sp)) (Q INTERRUPT_TRANSFER_COMPLETE 0)" if "Q 0 1 u" for u
    using data [OF that] by simp
  show ?thesis
    unfolding sd_issue_acmd51_def
    apply (rule gives_bnd [OF blk], rule gives_bnd [OF acmd], assumption, simp)
    apply (rule gives_bnd [OF wait], assumption, simp, simp)
    apply (rule gives_bnd [OF d2], assumption, rule gives_bnd [OF d1], assumption)
    apply (rule gives_bnd [OF wait], assumption, simp, simp)
    apply (rule fin, assumption)
    done
qed

lemma init_log_ok:
  "log_ok ''Successfully initialised SD: %s capacity, CMD23 %s, %s-bit data bus width, 25 MHz clock, default speed bus mode''
     [VaS (if b then ''SDHC/SDXC'' else ''SDSC''), VaS (if c then ''supported'' else ''not supported''),
      VaS (if d then ''4'' else ''1'')]"
  by (cases b; cases c; cases d; simp only: if_True if_False; code_simp)

lemma gives_4bit:
  assumes "follows hw view sp" and "0 < poll_fuel hw" and "live k mk" and "live k (mk AND NOT 0x100)"
    and "card_ready view k mk cd s" and "take_bit 16 (spec_rca sp) = spec_rca sp"
  shows "gives (sd_set_4bit_data_bus_width hw (spec_rca sp)) s SD_INIT_ERROR_NONE (card_ready view k mk cd)"
proof -
  note reg = gives_mask [OF assms(1)]
  have irq: "cast_interrupt ((interrupt_of 0)\<lparr>irq_card := 1\<rparr>) = 0x100" by code_simp
  have acmd: "gives (sd_issue_acmd6 hw (spec_rca sp) True) u CMD_ERROR_NONE
      (card_at view k (mk AND NOT 0x100) CARD_STATE_TRANSFER False 6 (fld 0 2 2) cd)"
    if "card_at view k (mk AND NOT 0x100) CARD_STATE_TRANSFER False i a cd u" for i a u
    using gives_acmd [OF assms(1,2,4) that, of "spec_rca sp" ACMD_IDX_SET_BUS_WIDTH "fld 0 2 2" CARD_STATE_TRANSFER] assms(6)
    by (simp add: sd_issue_acmd6_def card_next_def rca_arg)
  have on: "gives (when_io (CMD_ERROR_NONE = CMD_ERROR_NONE) (register_enable_bits hw sd_access CONTROL0 v)) u ()
      (card_at view k m' CARD_STATE_TRANSFER False i a cd)" if "card_at view k m' CARD_STATE_TRANSFER False i a cd u" for u v i a m'
    using reg(5) [OF that] by (simp add: when_io_def)
  show ?thesis
    unfolding sd_set_4bit_data_bus_width_def irq
    by (rule gives_ready [OF assms(5)], rule gives_bnd [OF reg(2)], assumption, rule gives_bnd [OF reg(4)], assumption,
        rule gives_bnd [OF acmd], assumption, rule gives_bnd [OF on], assumption, rule gives_bnd [OF reg(1)], assumption,
        simp, rule gives_ret, rule card_readyI)
qed

lemma scr_bits:
  "scr_cmd23 (scr_of w) \<noteq> 0 \<longleftrightarrow> bit w 1"
proof -
  have "getfld 1 1 w = (if bit w 1 then 1 else 0)"
    by (rule bit_word_eqI) (auto simp: bit_getfld bit_1_iff)
  then show ?thesis by (simp add: scr_of_def)
qed

lemma gives_init_transfer:
  assumes "pi_like hw view msg sp" and "take_bit 16 (spec_rca sp) = spec_rca sp"
    and "card_at view 0x8007 0x000f0001 CARD_STATE_STANDBY False i a ((known_card sp CARD_STATE_STANDBY)\<lparr>cmd23_supported := False\<rparr>) s"
  shows "gives (sd_init_transfer hw) s SD_INIT_ERROR_NONE
    (card_ready view 0x207 0x007f0023 (known_card sp CARD_STATE_TRANSFER))"
proof -
  note p = pi_likeD [OF assms(1)]
  let ?sb = "(known_card sp CARD_STATE_STANDBY)\<lparr>cmd23_supported := False\<rparr>"
  let ?tr = "(known_card sp CARD_STATE_TRANSFER)\<lparr>cmd23_supported := False\<rparr>"
  let ?kc = "known_card sp CARD_STATE_TRANSFER"
  have l: "live 0x207 0x000f0001" "live 0x207 0x007f0023" "live 0x207 (0x007f0023 AND NOT 0x100)"
    unfolding live_def by code_simp+
  have irq: "cast_interrupt ((interrupt_of 0)\<lparr>irq_read_ready := 1, irq_transfer_complete := 1,
      irq_data_timeout_error := 1, irq_data_crc_error := 1, irq_data_end_bit_error := 1\<rparr>) = 0x00700022"
    and mask: "0x000f0001 OR 0x00700022 = (0x007f0023 :: u32)"
    and flags: "INTERRUPT_READ_READY AND 0x007f0023 = INTERRUPT_READ_READY"
      "INTERRUPT_TRANSFER_COMPLETE AND 0x007f0023 = INTERRUPT_TRANSFER_COMPLETE" by code_simp+
  have state: "uint (cs_current_state (card_status_of 0x900)) = 4" by code_simp
  have rca: "gives (gets (\<lambda>s. card_rca (sdcard s))) u (spec_rca sp) (card_at view k mk st app i a ?sb)"
    if "card_at view k mk st app i a ?sb u" for k mk st app i a u
    using that by (intro gives_gets) (simp_all add: card_at_def Let_def known_card_def)
  have upd: "?sb\<lparr>cstate := CARD_STATE_TRANSFER\<rparr> = ?tr" "?tr\<lparr>cmd23_supported := (scr_cmd23 (scr_of (spec_scr sp)) \<noteq> 0)\<rparr> = ?kc"
    by (simp_all add: known_card_def scr_bits)
  have mk: "gives (sd_enable_transfer_interrupts hw) u () (card_at view 0x207 0x007f0023 st app i a cd)"
    if "card_at view 0x207 0x000f0001 st app i a cd u" for st app i a cd u
    using gives_mask(3) [OF p(1) that, of "0x00700022"] mask
    by (simp add: sd_enable_transfer_interrupts_def sd_enable_interrupts_def irq)
  have width: "gives (if b then sd_set_4bit_data_bus_width hw (spec_rca sp) else ret SD_INIT_ERROR_NONE) u SD_INIT_ERROR_NONE
      (card_ready view 0x207 0x007f0023 ?kc)" if "card_at view 0x207 0x007f0023 CARD_STATE_TRANSFER False i a ?kc u" for b i a u
    using gives_4bit [OF p(1,4) l(2,3) card_readyI [OF that] assms(2)] card_readyI [OF that] by (simp add: gives_ret)
  have final: "gives (bnd (gets sdcard) (\<lambda>c. bnd (serial_log hw ''Successfully initialised SD: %s capacity, CMD23 %s, %s-bit data bus width, 25 MHz clock, default speed bus mode''
      [VaS (if sdhc_or_sdxc c then ''SDHC/SDXC'' else ''SDSC''), VaS (if cmd23_supported c then ''supported'' else ''not supported''),
       VaS (if b then ''4'' else ''1'')]) (\<lambda>_. ret SD_INIT_ERROR_NONE))) u SD_INIT_ERROR_NONE
      (card_ready view 0x207 0x007f0023 ?kc)" if "card_ready view 0x207 0x007f0023 ?kc u" for b u
  proof (rule gives_ready [OF that])
    fix i a
    assume at: "card_at view 0x207 0x007f0023 CARD_STATE_TRANSFER False i a ?kc u"
    have g: "gives (gets sdcard) u ?kc (card_at view 0x207 0x007f0023 CARD_STATE_TRANSFER False i a ?kc)"
      using at by (intro gives_gets) (simp_all add: card_at_def Let_def)
    show ?thesis
      by (rule gives_bnd [OF g], rule gives_bnd [OF gives_log_card [OF assms(1) init_log_ok]], assumption, rule gives_ret, rule card_readyI)
  qed
  have acmd51: "gives (sd_issue_acmd51 hw (spec_rca sp)) u (CMD_ERROR_NONE, scr_of (spec_scr sp))
      (card_at view 0x207 0x007f0023 CARD_STATE_TRANSFER False 51 0 cd)" if "card_ready view 0x207 0x007f0023 cd u" for u cd
    by (rule gives_ready [OF that], rule gives_acmd51 [OF p(1,4) l(2) flags _ assms(2)])
  have mk': "gives (sd_enable_transfer_interrupts hw) u () (card_ready view 0x207 0x007f0023 cd)"
    if "card_ready view 0x207 0x000f0001 cd u" for u cd
    by (rule gives_ready [OF that], rule gives_readyI, rule mk)
  show ?thesis
    unfolding sd_init_transfer_def
    apply (rule gives_bnd [OF gives_fast_clock [OF p(1,4) assms(3)]], rule gives_bnd [OF rca], assumption)
    apply (rule gives_bnd [OF gives_cmd7 [OF p(1,4) l(1) _ assms(2)]], assumption, simp)
    apply (rule gives_bnd [OF gives_cmd13 [OF p(1,4) l(1) _ assms(2)]], assumption, simp add: state)
    apply (rule gives_bnd [OF gives_set_card_ready], assumption)
    apply (unfold upd, rule gives_bnd [OF mk'], assumption, rule gives_bnd [OF acmd51], assumption, simp split del: if_split)
    apply (rule gives_bnd [OF gives_set_card], assumption, unfold upd)
    apply (rule gives_bnd [OF width], assumption, simp split del: if_split, rule final, assumption)
    done
qed

lemma gives_sd_init:
  assumes "pi_like hw view msg sp" and "take_bit 16 (spec_rca sp) = spec_rca sp"
  shows "gives (sd_init hw) s SD_INIT_ERROR_NONE
    (card_ready view 0x207 0x007f0023 (known_card sp CARD_STATE_TRANSFER))"
proof -
  note p = pi_likeD [OF assms(1)]
  have l: "live 0x8007 0x000f0001" unfolding live_def by code_simp+
  have ok: "log_ok ''Initialising SD...'' []" by code_simp
  have log: "gives (serial_log hw ''Initialising SD...'' []) s () (sd_at view (view (dev s)) (sdcard s))"
    using gives_log [OF assms(1) ok card_at_all] by (rule gives_weaken) (simp add: all_at_def sd_at_def)
  have set: "gives (set_card (\<lambda>_. zero_card)) u () (sd_at view c zero_card)" if "sd_at view c cd u" for u c cd
    using that by (simp add: gives_def set_card_def run_simps sd_at_def)
  have at: "card_at view 0x8007 0x000f0001 (c_state c) (c_app c) (c_idx c) (c_arg c) zero_card u"
    if "sd_at view (c\<lparr>c_irq := 0, c_left := 0, c_ctl0 := 0xf00, c_ctl1 := 0x8007, c_mask := 0x000f0001\<rparr>) zero_card u" for u c
    using that by (simp add: sd_at_def card_at_def)
  show ?thesis
    unfolding sd_init_def sd_init_card_def
    apply (rule gives_bnd [OF log], rule gives_bnd [OF set], assumption, rule gives_bnd [OF gives_pre_cmd_init [OF assms(1)]], assumption)
    apply (rule gives_bnd [OF gives_identify [OF p(1,4) l at assms(2)]], assumption, simp, rule gives_init_transfer [OF assms], assumption)
    done
qed

end
