(* ===== verification/Reference_Boot.thy ===== *)
theory Reference_Boot
  imports Reference_Init Image_Spec
begin

unbundle bit_operations_syntax

text \<open>
  The stages after the initialisation on a board that behaves as documented, with a card that
  holds a master boot record and a well-formed image: each stage returns, and the items of the
  image end up in RAM.
\<close>

section \<open>Reading and logging\<close>

definition resting :: "('d \<Rightarrow> ctl) \<Rightarrow> card \<Rightarrow> ram \<Rightarrow> 'd machine \<Rightarrow> bool" where
  "resting view cd rm t \<longleftrightarrow> at_rest (view (dev t)) \<and> sdcard t = cd \<and> ram t = rm"

lemma card_ready_resting:
  "card_ready view 0x207 0x007f0023 cd t \<Longrightarrow> resting view cd (ram t) t"
proof -
  have "(0x207 :: u32) AND CONTROL1_INT_CLK_EN \<noteq> 0" "(0x207 :: u32) AND CONTROL1_CLK_EN \<noteq> 0"
    "INTERRUPT_CMD_COMPLETE AND 0x007f0023 = INTERRUPT_CMD_COMPLETE"
    "INTERRUPT_READ_READY AND 0x007f0023 = INTERRUPT_READ_READY"
    "INTERRUPT_TRANSFER_COMPLETE AND 0x007f0023 = INTERRUPT_TRANSFER_COMPLETE" by code_simp+
  then show "card_ready view 0x207 0x007f0023 cd t \<Longrightarrow> ?thesis"
    by (auto simp: card_ready_def card_at_def resting_def at_rest_def takes_cmds_def takes_data_def running_def Let_def)
qed

lemma gives_log_resting:
  assumes "pi_like hw view msg sp" and "log_ok fmt ap" and "resting view cd rm s"
  shows "gives (serial_log hw fmt ap) s () (resting view cd rm)"
proof -
  have "all_at view (view (dev s)) cd rm s" using assms(3) by (simp add: all_at_def resting_def)
  from gives_log [OF assms(1,2) this] show ?thesis
    by (rule gives_weaken) (use assms(3) in \<open>simp add: all_at_def resting_def\<close>)
qed

lemma gives_read:
  assumes "pi_like hw view msg sp" and "resting view (known_card sp st) rm s" and "address_aligned a 4" and "512 * n \<le> 2 ^ 32"
    and "within_card (spec_hc sp) (unat lba + n)"
  shows "gives (sd_read_blocks hw a lba (int n)) s True
    (resting view (known_card sp st) (ram_write rm a (disk_bytes (spec_disk sp) (512 * unat lba) (512 * n))))"
proof -
  note p = pi_likeD [OF assms(1)]
  have "sdhc_or_sdxc (sdcard s) = spec_hc sp" "at_rest (view (dev s))"
    using assms(2) by (simp_all add: resting_def known_card_def)
  from read_blocks_ctl [OF p(1,4) this assms(3-5)] show ?thesis
    using assms(2) by (auto simp: gives_def resting_def reads_to_def sd_read_blocks_def)
qed

lemma gives_gets_resting: "resting view cd rm s \<Longrightarrow> gives (gets (\<lambda>s. f (ram s))) s (f rm) (resting view cd rm)"
  by (rule gives_gets) (simp_all add: resting_def)

lemma gives_check: "\<not> b \<Longrightarrow> resting view cd rm s \<Longrightarrow> gives (when_io b m) s () (resting view cd rm)"
  by (rule gives_skip)

text \<open>Messages that show a number.\<close>

lemma fmt_number:
  "CHR ''%'' \<notin> set f \<Longrightarrow> fmt_spec (CHR ''%'' # CHR ''u'' # f) [VaU v] = Some (uint_to_str v @ f)"
proof -
  assume "CHR ''%'' \<notin> set f"
  then have "fmt_spec f [] = Some f" by (induction f) auto
  then show ?thesis
    by (simp add: fmt_field_def is_digit_def specifier_supports_field_width_def conv_spec_def char_digit_to_int_def field_spec_def)
qed

lemma log_ok_number:
  assumes "CHR ''%'' \<notin> set f" and "CHR ''%'' \<notin> set g" and "NUL \<notin> set f" and "NUL \<notin> set g" and "length f + length g \<le> 400"
  shows "log_ok (f @ CHR ''%'' # CHR ''u'' # g) [VaU v]"
proof -
  have "fmt_spec (f @ CHR ''%'' # CHR ''u'' # g) [VaU v] = Some (f @ uint_to_str v @ g)"
    unfolding fmt_spec_plain [OF assms(1)] fmt_number [OF assms(2)] by simp
  moreover have "NUL \<notin> set (uint_to_str v)" "length (uint_to_str v) \<le> 10"
    using digit_strings_chars(1) length_uint_to_str by auto
  ultimately show ?thesis using assms by (simp add: log_ok_def)
qed

lemma log_ok_loaded:
  assumes "stritem (item_id_value want) = Some name"
  shows "log_ok ''Successfully loaded %s item, data size %u bytes'' [VaS name, VaU v]"
proof -
  have n: "name \<in> {''end'', ''kernel'', ''device tree blob''}" using assms by (cases want) (auto simp: stritem_def)
  have "fmt_spec ''Successfully loaded %s item, data size %u bytes'' [VaS name, VaU v] =
      Some (''Successfully loaded '' @ name @ '' item, data size '' @ uint_to_str v @ '' bytes'')"
    using n by (auto simp: fmt_field_def is_digit_def specifier_supports_field_width_def conv_spec_def
        char_digit_to_int_def field_spec_def)
  moreover have "NUL \<notin> set (uint_to_str v)" "length (uint_to_str v) \<le> 10"
    using digit_strings_chars(1) length_uint_to_str by auto
  ultimately show ?thesis using n by (auto simp: log_ok_def)
qed

text \<open>Where the loader puts the items.\<close>

fun item_dest :: "item_id \<Rightarrow> addr" where
  "item_dest ITEM_ID_KERNEL = kern_item"
| "item_dest ITEM_ID_DEVICE_TREE_BLOB = dtb_item"
| "item_dest ITEM_ID_END = heap_get_base_address"

lemma length_uint_to_hexstr: "length (uint_to_hexstr v) \<le> 8"
proof (cases "v = 0")
  case False
  have "length (uint_digits_loop (unat v) 16 []) \<le> 8"
    using unat32_lt [of v] by (intro length_uint_digits) auto
  then show ?thesis using False by (simp add: uint_to_hexstr_def HEX_BASE_def uint_to_str_base_eq)
qed (simp add: uint_to_hexstr_def HEX_BASE_def uint_to_str_base_eq)

lemma log_ok_loading:
  assumes "stritem (item_id_value want) = Some name"
  shows "log_ok ''Loading %s item to RAM address %08x...'' [VaS name, VaU a]"
proof -
  let ?h = "field_spec (CHR ''0'') 8 (uint_to_hexstr a)"
  have n: "name \<in> {''end'', ''kernel'', ''device tree blob''}" using assms by (cases want) (auto simp: stritem_def)
  have "fmt_spec ''Loading %s item to RAM address %08x...'' [VaS name, VaU a] =
      Some (''Loading '' @ name @ '' item to RAM address 0x'' @ ?h @ ''...'')"
    using n by (auto simp: fmt_field_def is_digit_def specifier_supports_field_width_def conv_spec_def
        char_digit_to_int_def) (simp_all add: field_spec_def)
  moreover have "NUL \<notin> set ?h" "length ?h \<le> 8"
    using digit_strings_chars(2) [of a] length_uint_to_hexstr [of a] by (auto simp: field_spec_def)
  ultimately show ?thesis using n by (auto simp: log_ok_def)
qed

section \<open>Items\<close>

lemma item_in_ram:
  fixes rm :: ram and a :: addr and want :: item_id
  assumes "whole_blocks data"
  defines "m \<equiv> ram_write rm a (item_bytes want data)"
  shows "ram_get32 m a = item_id_value want" and "item_datasz a m = of_nat (length data)"
    and "itemsz a m = int (8 + length data)"
proof -
  have l: "8 + length data < 2 ^ 31" using assms(1) by (simp add: whole_blocks_def)
  show "ram_get32 m a = item_id_value want"
    unfolding m_def using ram_get32_within [of 0 "item_bytes want data" "item_id_value want" rm a] l
    by (simp add: item_bytes_def)
  have b: "take 4 (drop 4 (item_bytes want data)) = bytes32 (of_nat (length data))" by (simp add: item_bytes_def)
  show sz: "item_datasz a m = of_nat (length data)"
    unfolding m_def image_defs using ram_get32_within [OF b, of rm a] l by simp
  have "of_nat sizeof_item + item_datasz a m = of_nat (8 + length data)" unfolding sz by (simp add: sizeof_item_def)
  then show "itemsz a m = int (8 + length data)"
    unfolding itemsz_def using sint_of_nat_lt [OF l] by (simp only:)
qed

text \<open>The first block of an item already has its identifier and size.\<close>

lemma item_head_in_ram:
  fixes rm :: ram and a :: addr and want :: item_id
  assumes "whole_blocks data"
  defines "m \<equiv> ram_write rm a (take 512 (item_bytes want data))"
  shows "ram_get32 m a = item_id_value want" and "itemsz a m = int (8 + length data)"
proof -
  let ?b = "take 512 (item_bytes want data)"
  have l: "8 + length data < 2 ^ 31" using assms(1) by (simp add: whole_blocks_def)
  have "512 \<le> 8 + length data" using whole_blocks_div [OF assms(1)] by linarith
  then have lb: "length ?b = 512" by simp
  have b: "take 4 (drop 0 ?b) = bytes32 (item_id_value want)" "take 4 (drop 4 ?b) = bytes32 (of_nat (length data))"
    by (simp_all add: item_bytes_def drop_take)
  show "ram_get32 m a = item_id_value want"
    unfolding m_def using ram_get32_within [OF b(1), of rm a] lb by simp
  have "item_datasz a m = of_nat (length data)"
    unfolding m_def image_defs using ram_get32_within [OF b(2), of rm a] lb by simp
  then have "of_nat sizeof_item + item_datasz a m = of_nat (8 + length data)" by (simp add: image_defs)
  then show "itemsz a m = int (8 + length data)"
    unfolding itemsz_def using sint_of_nat_lt [OF l] by (simp only:)
qed

lemma bytes_to_blocks_whole:
  assumes "whole_blocks data"
  shows "bytes_to_blocks (int (8 + length data)) = int ((8 + length data) div 512)"
proof -
  have "bytes_to_blocks (int n) = int (n div 512)" if "n mod 512 = 0" for n
  proof -
    have "int n mod 512 = 0" using that by presburger
    then show ?thesis by (simp add: bytes_to_blocks_def SD_BLKSZ_def zdiv_int)
  qed
  then show ?thesis using assms by (simp only: whole_blocks_def)
qed

lemma gives_load_item:
  assumes "pi_like hw view msg sp" and "resting view (known_card sp st) rm s" and "whole_blocks data"
    and "within_card (spec_hc sp) (unat lba + (8 + length data) div 512)"
    and "disk_bytes (spec_disk sp) (512 * unat lba) (8 + length data) = item_bytes want data"
  shows "gives (load_item hw want (item_dest want) lba) s (item_dest want)
    (resting view (known_card sp st) (ram_write rm (item_dest want) (item_bytes want data)))"
proof -
  let ?a = "item_dest want" and ?d = "spec_disk sp" and ?n = "(8 + length data) div 512"
  let ?rm1 = "ram_write rm ?a (take 512 (item_bytes want data))" and ?rm2 = "ram_write rm ?a (item_bytes want data)"
  let ?at = "resting view (known_card sp st)"
  obtain name where nm: "stritem (item_id_value want) = Some name" by (cases want) (simp_all add: stritem_def)
  note wb = whole_blocks_div [OF assms(3)] and hd = item_head_in_ram [OF assms(3), where rm = rm and a = ?a and want = want]
  have big: "512 \<le> 8 + length data" using wb by linarith
  have small: "8 + length data < 2 ^ 31" using assms(3) by (simp add: whole_blocks_def)
  have al: "address_aligned ?a 4" unfolding address_aligned_4 by (cases want) (simp_all add: addrmap_defs image_defs)
  have one: "disk_bytes ?d (512 * unat lba) (512 * 1) = take 512 (item_bytes want data)"
    using disk_bytes_slice [of 0 512 "8 + length data" ?d "512 * unat lba"] assms(5) big by simp
  have w1: "within_card (spec_hc sp) (unat lba + 1)" using assms(4) wb(2) by (auto simp: within_card_def split: if_splits)
  have r1: "gives (sd_read_blocks hw ?a lba 1) u True (?at ?rm1)" if "?at rm u" for u
    using gives_read [OF assms(1) that al _ w1] one by simp
  have r2: "gives (when_io (int SD_BLKSZ < itemsz ?a ?rm1) (bnd (sd_read_bytes hw ?a lba (itemsz ?a ?rm1)) (\<lambda>ok.
      when_io (\<not> ok) (signal_error hw ERROR_SD_READ)))) u () (?at ?rm2)" if at: "?at ?rm1 u" for u
  proof (cases "512 < 8 + length data")
    case True
    have "gives (sd_read_blocks hw ?a lba (int ?n)) u True (?at (ram_write ?rm1 ?a (item_bytes want data)))"
      using gives_read [OF assms(1) at al _ assms(4)] wb(1) assms(5) small by simp
    moreover have "ram_write ?rm1 ?a (item_bytes want data) = ?rm2"
      by (rule ext) (auto simp: ram_write_def)
    ultimately have "gives (sd_read_bytes hw ?a lba (itemsz ?a ?rm1)) u True (?at ?rm2)"
      unfolding sd_read_bytes_def Let_def hd(2) bytes_to_blocks_whole [OF assms(3)] by simp
    moreover have "gives (when_io (\<not> True) (signal_error hw ERROR_SD_READ)) v () (?at ?rm2)" if "?at ?rm2 v" for v
      using that by (simp add: gives_skip)
    ultimately have "gives (bnd (sd_read_bytes hw ?a lba (itemsz ?a ?rm1)) (\<lambda>ok.
        when_io (\<not> ok) (signal_error hw ERROR_SD_READ))) u () (?at ?rm2)" by (rule gives_bnd)
    then show ?thesis using True by (simp add: when_io_def SD_BLKSZ_def hd(2))
  next
    case False
    then have same: "?rm2 = ?rm1" using big by simp
    have "\<not> int SD_BLKSZ < itemsz ?a ?rm1" unfolding hd(2) using False by (simp add: SD_BLKSZ_def)
    then show ?thesis using at unfolding same by (rule gives_skip)
  qed
  note step = gives_log_resting [OF assms(1)]
  show ?thesis
    unfolding load_item_def nm option.case Let_def
    apply (rule gives_bnd [OF step [OF log_ok_loading [OF nm] assms(2)]], rule gives_bnd [OF r1], assumption)
    apply (rule gives_bnd [OF gives_check], simp, assumption)
    apply (rule gives_bnd [OF gives_gets_resting], assumption, rule gives_bnd [OF gives_check], simp add: hd(1), assumption)
    apply (rule gives_bnd [OF gives_gets_resting [where f = "itemsz ?a"]], assumption, rule gives_bnd [OF r2], assumption)
    apply (rule gives_bnd [OF gives_gets_resting], assumption, rule gives_bnd [OF step [OF log_ok_loaded [OF nm]]], assumption)
    apply (rule gives_ret, assumption)
    done
qed

section \<open>The items of an image\<close>

text \<open>
  The card holds a well-formed image at block \<open>lba\<close>, whose kernel is a zImage and whose device tree
  blob has its magic, and both fit the places the loader gives them.
\<close>

definition bootable :: "sd_spec \<Rightarrow> u32 \<Rightarrow> u8 list \<Rightarrow> u8 list \<Rightarrow> u8 list \<Rightarrow> u8 list \<Rightarrow> bool" where
  "bootable sp lba pad k d e \<longleftrightarrow>
     image_wf pad k d e \<and> disk_bytes (spec_disk sp) (512 * unat lba) (image_size k d e) = image_bytes pad k d e \<and>
     within_card (spec_hc sp) (unat lba + image_size k d e div 512) \<and>
     take 4 (drop 0x24 k) = bytes32 ZIMAGE_MAGIC \<and> take 4 d = [0xd0, 0x0d, 0xfe, 0xed] \<and>
     0x28 \<le> length k \<and> length k \<le> 0x6000000 \<and> 4 \<le> length d \<and> length d \<le> 0x8000000"

text \<open>RAM with the three items in place.\<close>

definition loaded_ram :: "ram \<Rightarrow> u8 list \<Rightarrow> u8 list \<Rightarrow> u8 list \<Rightarrow> ram" where
  "loaded_ram rm k d e = ram_write (ram_write (ram_write rm (item_dest ITEM_ID_KERNEL) (item_bytes ITEM_ID_KERNEL k))
     (item_dest ITEM_ID_DEVICE_TREE_BLOB) (item_bytes ITEM_ID_DEVICE_TREE_BLOB d))
     (item_dest ITEM_ID_END) (item_bytes ITEM_ID_END e)"

lemma bootable_blocks:
  assumes "bootable sp lba pad k d e"
  defines "nk \<equiv> (8 + length k) div 512" and "nd \<equiv> (8 + length d) div 512" and "ne \<equiv> (8 + length e) div 512"
  shows "whole_blocks k" and "whole_blocks d" and "whole_blocks e"
    and "8 + length k = 512 * nk" and "8 + length d = 512 * nd" and "8 + length e = 512 * ne"
    and "0 < nk" and "0 < nd" and "0 < ne" and "within_card (spec_hc sp) (unat lba + (1 + nk + nd + ne))"
proof -
  show w: "whole_blocks k" "whole_blocks d" "whole_blocks e"
    using assms(1) by (simp_all add: bootable_def image_wf_def)
  show n: "8 + length k = 512 * nk" "8 + length d = 512 * nd" "8 + length e = 512 * ne" "0 < nk" "0 < nd" "0 < ne"
    using whole_blocks_div [OF w(1)] whole_blocks_div [OF w(2)] whole_blocks_div [OF w(3)]
    by (simp_all only: nk_def nd_def ne_def)
  have "image_size k d e = 512 * (1 + nk + nd + ne)" unfolding image_size_def n by simp
  then have "image_size k d e div 512 = 1 + nk + nd + ne" by simp
  then show "within_card (spec_hc sp) (unat lba + (1 + nk + nd + ne))" using assms(1) by (simp add: bootable_def)
qed

lemma within_card_le: "within_card hc m \<Longrightarrow> n \<le> m \<Longrightarrow> within_card hc n"
  by (auto simp: within_card_def)

lemma kernel_checks:
  fixes rm :: ram
  assumes "bootable sp lba pad k d e"
  defines "m \<equiv> ram_write rm (item_dest ITEM_ID_KERNEL) (item_bytes ITEM_ID_KERNEL k)"
  shows "\<not> DTB_RAM_ADDR < KERN_RAM_ADDR + item_datasz (item_dest ITEM_ID_KERNEL) m"
    and "ram_get32 m (KERN_RAM_ADDR + ZIMAGE_MAGIC_OFF) = ZIMAGE_MAGIC"
proof -
  have b: "length k \<le> 0x6000000" "0x28 \<le> length k" "take 4 (drop 0x24 k) = bytes32 ZIMAGE_MAGIC"
    using assms(1) by (simp_all add: bootable_def)
  note wb = bootable_blocks(1) [OF assms(1)]
  have "KERN_RAM_ADDR + item_datasz (item_dest ITEM_ID_KERNEL) m = of_nat (0x2000000 + length k)"
    unfolding m_def item_in_ram(2) [OF wb] by (simp add: addrmap_defs)
  moreover have "\<not> (of_nat 0x8000000 :: addr) < of_nat (0x2000000 + length k)"
    using b(1) by (subst of_nat_less32) simp_all
  ultimately show "\<not> DTB_RAM_ADDR < KERN_RAM_ADDR + item_datasz (item_dest ITEM_ID_KERNEL) m"
    by (simp add: addrmap_defs)
  have "take 4 (drop 0x2c (item_bytes ITEM_ID_KERNEL k)) = bytes32 ZIMAGE_MAGIC"
    using b(3) by (simp add: item_bytes_def)
  from ram_get32_within [OF this, of rm "item_dest ITEM_ID_KERNEL"] b
  show "ram_get32 m (KERN_RAM_ADDR + ZIMAGE_MAGIC_OFF) = ZIMAGE_MAGIC"
    by (simp add: m_def addrmap_defs image_defs ZIMAGE_MAGIC_OFF_def)
qed

lemma dtb_check:
  assumes "bootable sp lba pad k d e"
  shows "bswap32 (ram_get32 (ram_write rm (item_dest ITEM_ID_DEVICE_TREE_BLOB) (item_bytes ITEM_ID_DEVICE_TREE_BLOB d)) DTB_RAM_ADDR) = DTB_MAGIC"
proof -
  have b: "length d \<le> 0x8000000" "4 \<le> length d" "take 4 d = [0xd0, 0x0d, 0xfe, 0xed]" using assms by (simp_all add: bootable_def)
  have "bytes32 (bswap32 DTB_MAGIC) = [0xd0, 0x0d, 0xfe, 0xed]" by code_simp
  then have "take 4 (drop 8 (item_bytes ITEM_ID_DEVICE_TREE_BLOB d)) = bytes32 (bswap32 DTB_MAGIC)"
    using b(3) by (simp add: item_bytes_def)
  from ram_get32_within [OF this, of rm "item_dest ITEM_ID_DEVICE_TREE_BLOB"] b show ?thesis
    by (simp add: addrmap_defs image_defs)
qed

lemma loaded_ram_items:
  assumes "bootable sp lba pad k d e"
  shows "ram_bytes (loaded_ram rm k d e) KERN_RAM_ADDR (length k) = k"
    and "ram_bytes (loaded_ram rm k d e) DTB_RAM_ADDR (length d) = d"
proof -
  note bl = bootable_blocks [OF assms]
  have b: "length k \<le> 0x6000000" "length d \<le> 0x8000000" using assms by (simp_all add: bootable_def)
  have k8: "0x2000000 + length k \<le> 0x7fffff8"
  proof -
    obtain n where n: "8 + length k = 512 * n" using bl(4) by blast
    then have "n \<le> 0x30000" using b(1) by (intro leI notI) simp
    then show ?thesis using n by linarith
  qed
  have e: "8 + length e < 2 ^ 31" using bl(3) by (simp add: whole_blocks_def)
  let ?K = "item_bytes ITEM_ID_KERNEL k" and ?D = "item_bytes ITEM_ID_DEVICE_TREE_BLOB d"
  have "ram_bytes (ram_write rm (item_dest ITEM_ID_KERNEL) ?K) (item_dest ITEM_ID_KERNEL + of_nat 8) (length k) = k"
    using b by (subst ram_bytes_write_sub) (simp_all add: item_bytes_def)
  then show "ram_bytes (loaded_ram rm k d e) KERN_RAM_ADDR (length k) = k"
    unfolding loaded_ram_def using k8 b e by (simp add: addrmap_defs image_defs ram_bytes_below)
  have "ram_bytes (ram_write m (item_dest ITEM_ID_DEVICE_TREE_BLOB) ?D) (item_dest ITEM_ID_DEVICE_TREE_BLOB + of_nat 8) (length d) = d" for m
    using b by (subst ram_bytes_write_sub) (simp_all add: item_bytes_def)
  then show "ram_bytes (loaded_ram rm k d e) DTB_RAM_ADDR (length d) = d"
    unfolding loaded_ram_def using b e by (simp add: addrmap_defs image_defs ram_bytes_below)
qed

lemma gives_load_image_items:
  assumes "pi_like hw view msg sp" and "resting view (known_card sp st) rm s" and "bootable sp lba pad k d e"
  shows "gives (load_image_items hw lba) s () (resting view (known_card sp st) (loaded_ram rm k d e))"
proof -
  let ?at = "resting view (known_card sp st)" and ?disk = "spec_disk sp"
  define nk nd ne where "nk = (8 + length k) div 512" and "nd = (8 + length d) div 512" and "ne = (8 + length e) div 512"
  note bl = bootable_blocks [OF assms(3), folded nk_def nd_def ne_def]
  let ?k = "ram_write rm (item_dest ITEM_ID_KERNEL) (item_bytes ITEM_ID_KERNEL k)"
  let ?d = "ram_write ?k (item_dest ITEM_ID_DEVICE_TREE_BLOB) (item_bytes ITEM_ID_DEVICE_TREE_BLOB d)"
  have ad: "unat (lba + 1) = unat lba + 1" "unat (lba + 1 + of_nat nk) = unat lba + (1 + nk)"
    "unat (lba + 1 + of_nat nk + of_nat nd) = unat lba + (1 + nk + nd)"
    using unat_lba_add [OF bl(10), of 1] unat_lba_add [OF bl(10), of "1 + nk"] unat_lba_add [OF bl(10), of "1 + nk + nd"] bl(7-9)
    by (simp_all add: add.assoc)
  have wc: "within_card (spec_hc sp) (unat (lba + 1) + nk)" "within_card (spec_hc sp) (unat (lba + 1 + of_nat nk) + nd)"
    "within_card (spec_hc sp) (unat (lba + 1 + of_nat nk + of_nat nd) + ne)"
    unfolding ad by (rule within_card_le [OF bl(10)], simp)+
  have "disk_bytes ?disk (512 * unat lba) (image_size k d e) = image_bytes pad k d e" "length pad = 504"
    using assms(3) by (simp_all add: bootable_def image_wf_def)
  note img = image_on_disk [OF this, unfolded bl(4,5)]
  have on: "disk_bytes ?disk (512 * unat (lba + 1)) (8 + length k) = item_bytes ITEM_ID_KERNEL k"
    "disk_bytes ?disk (512 * unat (lba + 1 + of_nat nk)) (8 + length d) = item_bytes ITEM_ID_DEVICE_TREE_BLOB d"
    "disk_bytes ?disk (512 * unat (lba + 1 + of_nat nk + of_nat nd)) (8 + length e) = item_bytes ITEM_ID_END e"
    using img(2-4) unfolding ad bl(4,5) by (simp_all add: algebra_simps)
  note item = gives_load_item [OF assms(1)]
  have sz: "itemsz (item_dest ITEM_ID_KERNEL) ?k = int (8 + length k)"
    "itemsz (item_dest ITEM_ID_DEVICE_TREE_BLOB) ?d = int (8 + length d)"
    by (rule item_in_ram(3) [OF bl(1)], rule item_in_ram(3) [OF bl(2)])
  have nx: "next_lba x (item_dest ITEM_ID_KERNEL) ?k = x + of_nat nk"
    "next_lba x (item_dest ITEM_ID_DEVICE_TREE_BLOB) ?d = x + of_nat nd" for x
    unfolding sz bytes_to_blocks_whole [OF bl(1)] bytes_to_blocks_whole [OF bl(2)] nk_def nd_def by simp_all
  have lk: "gives (load_item hw ITEM_ID_KERNEL (item_dest ITEM_ID_KERNEL) (lba + 1)) s (item_dest ITEM_ID_KERNEL) (?at ?k)"
    by (rule item [OF assms(2) bl(1) wc(1) [unfolded nk_def] on(1)])
  have ld: "gives (load_item hw ITEM_ID_DEVICE_TREE_BLOB (item_dest ITEM_ID_DEVICE_TREE_BLOB) (lba + 1 + of_nat nk)) u
      (item_dest ITEM_ID_DEVICE_TREE_BLOB) (?at ?d)" if "?at ?k u" for u
    by (rule item [OF that bl(2) wc(2) [unfolded nd_def] on(2)])
  have le: "gives (load_item hw ITEM_ID_END (item_dest ITEM_ID_END) (lba + 1 + of_nat nk + of_nat nd)) u
      (item_dest ITEM_ID_END) (?at (loaded_ram rm k d e))" if "?at ?d u" for u
    unfolding loaded_ram_def by (rule item [OF that bl(3) wc(3) [unfolded ne_def] on(3)])
  have ok: "log_ok ''Successfully validated kernel'' []" "log_ok ''Successfully validated device tree blob'' []" by code_simp+
  note log = gives_log_resting [OF assms(1)] and chk = kernel_checks [OF assms(3), of rm]
  show ?thesis
    unfolding load_image_items_def Let_def item_dest.simps(1-3) [symmetric]
    apply (rule gives_bnd [OF lk], rule gives_bnd [OF gives_gets_resting], assumption)
    apply (rule gives_bnd [OF gives_check], rule chk(1), assumption)
    apply (rule gives_bnd [OF gives_gets_resting], assumption, rule gives_bnd [OF gives_check], simp only: chk(2) simp_thms, assumption)
    apply (rule gives_bnd [OF log [OF ok(1)]], assumption, rule gives_bnd [OF gives_gets_resting], assumption, unfold nx)
    apply (rule gives_bnd [OF ld], assumption, rule gives_bnd [OF gives_gets_resting], assumption)
    apply (rule gives_bnd [OF gives_check], simp only: dtb_check [OF assms(3)] simp_thms, assumption)
    apply (rule gives_bnd [OF log [OF ok(2)]], assumption, rule gives_bnd [OF gives_gets_resting], assumption, unfold nx)
    apply (rule gives_bnd [OF le], assumption, rule gives_ret, assumption)
    done
qed

section \<open>The record and the head of the image\<close>

definition partitioned :: "sd_spec \<Rightarrow> u8 list \<Rightarrow> part_entry list \<Rightarrow> bool" where
  "partitioned sp code entries \<longleftrightarrow> mbr_wf code entries \<and> disk_bytes (spec_disk sp) 0 512 = mbr_bytes code entries"

lemma heap_aligned: "address_aligned heap_get_base_address 4"
  unfolding address_aligned_4 by (simp add: addrmap_defs)

lemma gives_load_mbr:
  assumes "pi_like hw view msg sp" and "resting view (known_card sp st) rm s" and "partitioned sp code entries"
    and "1 \<le> IMAGE_PARTITION cfg" and "IMAGE_PARTITION cfg \<le> 4"
  shows "gives (load_mbr hw cfg) s heap_get_base_address
    (resting view (known_card sp st) (ram_write rm heap_get_base_address (mbr_bytes code entries)))"
proof -
  let ?rm = "ram_write rm heap_get_base_address (mbr_bytes code entries)"
  have w: "mbr_wf code entries" "disk_bytes (spec_disk sp) 0 512 = mbr_bytes code entries"
    using assms(3) by (simp_all add: partitioned_def)
  have rd: "gives (sd_read_blocks hw heap_get_base_address 0 1) u True (resting view (known_card sp st) ?rm)"
    if "resting view (known_card sp st) rm u" for u
    using gives_read [OF assms(1) that heap_aligned, of 1 0] w(2) by (simp add: within_card_def)
  have ok: "log_ok ''Loading MBR...'' []" "log_ok ''Successfully loaded and validated MBR'' []" by code_simp+
  note log = gives_log_resting [OF assms(1)] and magic = mbr_fields(3) [OF w(1) assms(4,5), of heap_get_base_address rm]
  have valid: "mbr_partition_valid (IMAGE_PARTITION cfg)" using assms(4,5) by (simp add: mbr_partition_valid_def mbr_defs)
  show ?thesis
    unfolding load_mbr_def Let_def
    apply (rule gives_bnd [OF log [OF ok(1) assms(2)]], rule gives_bnd [OF rd], assumption)
    apply (rule gives_bnd [OF gives_check], simp, assumption, rule gives_bnd [OF gives_gets_resting], assumption)
    apply (rule gives_bnd [OF gives_check], simp only: magic simp_thms, assumption)
    apply (rule gives_bnd [OF gives_check], simp only: valid simp_thms, assumption)
    apply (rule gives_bnd [OF log [OF ok(2)]], assumption, rule gives_ret, assumption)
    done
qed

lemma head_checks:
  fixes rm :: ram and nblks :: u32
  assumes "bootable sp lba pad k d e" and "image_size k d e \<le> 512 * unat nblks" and "512 * unat nblks < 2 ^ 32"
  defines "m \<equiv> ram_write rm heap_get_base_address (bytes32 IMG_MAGIC @ bytes32 (of_nat (image_size k d e)) @ pad)"
  shows "ram_get32 m heap_get_base_address = IMG_MAGIC"
    and "ram_get32 m (heap_get_base_address + image_imgsz_off) = of_nat (image_size k d e)"
    and "\<not> nblks * of_nat SD_BLKSZ < of_nat (image_size k d e)"
proof -
  let ?b = "bytes32 IMG_MAGIC @ bytes32 (of_nat (image_size k d e)) @ pad"
  have l: "length ?b = 512" using assms(1) by (simp add: bootable_def image_wf_def)
  have "take 4 (drop 0 ?b) = bytes32 IMG_MAGIC" "take 4 (drop 4 ?b) = bytes32 (of_nat (image_size k d e))" by simp_all
  from this [THEN ram_get32_within, of rm heap_get_base_address] l
  show "ram_get32 m heap_get_base_address = IMG_MAGIC"
    and "ram_get32 m (heap_get_base_address + image_imgsz_off) = of_nat (image_size k d e)"
    by (simp_all add: m_def image_imgsz_off_def)
  have "nblks * of_nat SD_BLKSZ = of_nat (unat nblks * 512)" by (simp add: SD_BLKSZ_def)
  moreover have "\<not> of_nat (unat nblks * 512) < (of_nat (image_size k d e) :: u32)"
    using assms(2,3) of_nat_less32 [of "unat nblks * 512" "image_size k d e"] by (simp del: of_nat_mult)
  ultimately show "\<not> nblks * of_nat SD_BLKSZ < of_nat (image_size k d e)" by (simp only: simp_thms)
qed

lemma gives_load_image_head:
  assumes "pi_like hw view msg sp" and "mbr_wf code entries" and "1 \<le> IMAGE_PARTITION cfg" and "IMAGE_PARTITION cfg \<le> 4"
    and "resting view (known_card sp st) (ram_write rm heap_get_base_address (mbr_bytes code entries)) s"
  defines "en \<equiv> entries ! nat (IMAGE_PARTITION cfg - 1)"
  assumes "bootable sp (part_lba en) pad k d e" and "image_size k d e \<le> 512 * unat (part_nblks en)"
    and "512 * unat (part_nblks en) < 2 ^ 32"
  shows "gives (load_image_head hw cfg heap_get_base_address) s (part_lba en)
    (resting view (known_card sp st) (ram_write (ram_write rm heap_get_base_address (mbr_bytes code entries)) heap_get_base_address
       (bytes32 IMG_MAGIC @ bytes32 (of_nat (image_size k d e)) @ pad)))"
proof -
  let ?rm = "ram_write rm heap_get_base_address (mbr_bytes code entries)"
  let ?h = "bytes32 IMG_MAGIC @ bytes32 (of_nat (image_size k d e)) @ pad"
  note f = mbr_fields [OF assms(2-4), of heap_get_base_address rm, folded en_def]
  note bl = bootable_blocks [OF assms(7)]
  have img: "disk_bytes (spec_disk sp) (512 * unat (part_lba en)) 512 = ?h"
    using assms(7) by (intro image_on_disk(1)) (simp_all add: bootable_def image_wf_def)
  have rd: "gives (sd_read_blocks hw heap_get_base_address (part_lba en) 1) u True (resting view (known_card sp st) (ram_write ?rm heap_get_base_address ?h))"
    if "resting view (known_card sp st) ?rm u" for u
    using gives_read [OF assms(1) that heap_aligned, of 1 "part_lba en"] within_card_le [OF bl(10), of "unat (part_lba en) + 1"] img
    by simp
  have ok: "log_ok ''Loading image head from partition %u'' [VaU v]"
    "log_ok ''Successfully loaded and validated image head, image size %u bytes'' [VaU v]" for v
    using log_ok_number [of "''Loading image head from partition ''" "[]" v]
      log_ok_number [of "''Successfully loaded and validated image head, image size ''" "'' bytes''" v] by simp_all
  note log = gives_log_resting [OF assms(1)] and chk = head_checks(1,2) [OF assms(7-9), where rm = ?rm] head_checks(3) [OF assms(7-9)]
  show ?thesis
    unfolding load_image_head_def Let_def
    apply (rule gives_bnd [OF gives_gets_resting [OF assms(5)]], rule gives_bnd [OF gives_gets_resting], assumption, unfold f)
    apply (rule gives_bnd [OF log [OF ok(1)]], assumption, rule gives_bnd [OF rd], assumption)
    apply (rule gives_bnd [OF gives_check], simp, assumption, rule gives_bnd [OF gives_gets_resting], assumption)
    apply (rule gives_bnd [OF gives_check], simp only: chk simp_thms, assumption)
    apply (rule gives_bnd [OF gives_gets_resting], assumption, unfold chk(2))
    apply (rule gives_bnd [OF gives_check], rule chk(3), assumption)
    apply (rule gives_bnd [OF log [OF ok(2)]], assumption, rule gives_ret, assumption)
    done
qed

section \<open>Peripherals\<close>

lemma gives_init_peripherals:
  assumes "pi_like hw view msg sp" and "take_bit 16 (spec_rca sp) = spec_rca sp"
  shows "\<exists>t. init_peripherals hw s = (Ret (), t) \<and> resting view (known_card sp CARD_STATE_TRANSFER) (ram t) t"
proof -
  let ?c = "view (dev s)" and ?cd = "sdcard s"
  let ?P = "\<lambda>t. resting view (known_card sp CARD_STATE_TRANSFER) (ram t) t"
  have uart: "gives (uart_init hw) s () (sd_at view ?c ?cd)"
    by (rule gives_uart_init [OF assms(1)]) (simp add: sd_at_def)
  have ok: "log_ok ''Bootloader started: enabled mini UART'' []" by code_simp
  have log: "gives (serial_log hw ''Bootloader started: enabled mini UART'' []) u () (sd_at view ?c ?cd)"
    if "sd_at view ?c ?cd u" for u
    using gives_sd_at [OF that, of "serial_log hw ''Bootloader started: enabled mini UART'' []" "()" ?c ?cd id] gives_log [OF assms(1) ok]
    by simp
  have skip: "gives (when_io (\<not> ENABLE_GIC) m) u () (sd_at view ?c ?cd)" if "sd_at view ?c ?cd u" for m u
    using that by (intro gives_skip) (simp_all add: ENABLE_GIC_def)
  have init: "gives (sd_init hw) u SD_INIT_ERROR_NONE ?P" for u
    by (rule gives_weaken [OF gives_sd_init [OF assms]]) (rule card_ready_resting)
  have "gives (init_peripherals hw) s () ?P"
    unfolding init_peripherals_def
    by (rule gives_bnd [OF uart], rule gives_bnd [OF log], assumption, rule gives_bnd [OF skip], assumption,
        rule gives_bnd [OF init], rule gives_skip, simp, assumption)
  then show ?thesis by (simp add: gives_def)
qed

text \<open>After the reset the card is idle, for the driver and in truth.\<close>

definition idle_again :: "('d \<Rightarrow> ctl) \<Rightarrow> card \<Rightarrow> ram \<Rightarrow> 'd machine \<Rightarrow> bool" where
  "idle_again view cd rm t \<longleftrightarrow> (\<exists>c. all_at view c (cd\<lparr>cstate := CARD_STATE_IDLE\<rparr>) rm t \<and> c_state c = CARD_STATE_IDLE)"

lemma gives_reset_peripherals:
  assumes "pi_like hw view msg sp" and "resting view cd rm s"
  shows "gives (reset_peripherals hw) s () (idle_again view cd rm)"
proof -
  note p = pi_likeD [OF assms(1)]
  let ?c = "issued sp CMD_IDX_GO_IDLE_STATE 0 CARD_STATE_IDLE (view (dev s))"
  let ?cd = "cd\<lparr>cstate := CARD_STATE_IDLE\<rparr>"
  have "takes_cmds (view (dev s))" "card_next sp (c_state (view (dev s))) (c_app (view (dev s))) (cmd_number CMD_IDX_GO_IDLE_STATE) 0 = Some CARD_STATE_IDLE"
    using assms(2) by (simp_all add: resting_def at_rest_def card_next_def)
  from reaches_gives [OF reaches_issue [OF p(1) refl p(4) this]]
  have cmd: "gives (sd_issue_cmd hw CMD_IDX_GO_IDLE_STATE 0) s CMD_ERROR_NONE (all_at view ?c cd rm)"
    using assms(2) by (simp add: resting_def)
  have set: "gives (set_card f) u () (all_at view c (f cd) rm)" if "all_at view c cd rm u" for f c u
    using that by (simp add: gives_def set_card_def run_simps all_at_def)
  have fin: "all_at view (?c\<lparr>c_ctl0 := 0, c_ctl1 := 0, c_mask := 0, c_irq := 0, c_left := 0\<rparr>) ?cd rm t \<Longrightarrow> idle_again view cd rm t" for t
    unfolding idle_again_def
    by (intro exI [of _ "?c\<lparr>c_ctl0 := 0, c_ctl1 := 0, c_mask := 0, c_irq := 0, c_left := 0\<rparr>"])
      (simp add: issued_def Let_def)
  have reset: "gives (sd_reset hw) s True (idle_again view cd rm)"
    unfolding sd_reset_def sd_reset_card_def
    by (rule gives_bnd [OF cmd], simp, rule gives_bnd [OF set], assumption, rule gives_bnd [OF gives_reset_host [OF p(1,4)]],
        assumption, rule gives_ret, rule fin)
  have skip: "\<not> b \<Longrightarrow> idle_again view cd rm u \<Longrightarrow> gives (when_io b m) u () (idle_again view cd rm)" for b m u
    by (rule gives_skip)
  show ?thesis
    unfolding reset_peripherals_def
    by (rule gives_bnd [OF reset], rule gives_bnd [OF skip], simp, assumption, rule skip, simp add: ENABLE_GIC_def)
qed

section \<open>The boot\<close>

lemma c_entry_boots:
  assumes "pi_like hw view msg sp" and "take_bit 16 (spec_rca sp) = spec_rca sp"
    and "partitioned sp code entries" and "1 \<le> IMAGE_PARTITION cfg" and "IMAGE_PARTITION cfg \<le> 4"
  defines "en \<equiv> entries ! nat (IMAGE_PARTITION cfg - 1)"
  assumes "bootable sp (part_lba en) pad k d e" and "image_size k d e \<le> 512 * unat (part_nblks en)"
    and "512 * unat (part_nblks en) < 2 ^ 32"
  shows "\<exists>t. c_entry hw cfg s =
      (Boot \<lparr>reg_r0 = 0, reg_r1 = 0xffffffff, reg_r2 = 0x8000000, reg_pc = 0x2000000\<rparr>, t) \<and>
    ram_bytes (ram t) 0x2000000 (length k) = k \<and> ram_bytes (ram t) 0x8000000 (length d) = d \<and>
    c_state (view (dev t)) = CARD_STATE_IDLE \<and> sdcard t = known_card sp CARD_STATE_IDLE"
proof -
  let ?kc = "known_card sp CARD_STATE_TRANSFER"
  let ?s0 = "s\<lparr>ram := mcopy (vector_table cfg) 0x0 (sint (vector_table_pool_end cfg - vector_table cfg)) (ram s)\<rparr>"
  have wf: "mbr_wf code entries" using assms(3) by (simp add: partitioned_def)
  obtain s1 where s1: "init_peripherals hw ?s0 = (Ret (), s1)" "resting view ?kc (ram s1) s1"
    using gives_init_peripherals [OF assms(1,2)] by blast
  obtain s2 where s2: "load_mbr hw cfg s1 = (Ret heap_get_base_address, s2)"
    "resting view ?kc (ram_write (ram s1) heap_get_base_address (mbr_bytes code entries)) s2"
    using gives_load_mbr [OF assms(1) s1(2) assms(3-5)] by (auto simp: gives_def)
  obtain s3 rm where s3: "load_image_head hw cfg heap_get_base_address s2 = (Ret (part_lba en), s3)" "resting view ?kc rm s3"
    using gives_load_image_head [OF assms(1) wf assms(4,5) s2(2), folded en_def, OF assms(7-9)] by (auto simp: gives_def)
  obtain s4 where s4: "load_image_items hw (part_lba en) s3 = (Ret (), s4)" "resting view ?kc (loaded_ram rm k d e) s4"
    using gives_load_image_items [OF assms(1) s3(2) assms(7)] by (auto simp: gives_def)
  obtain s5 c where s5: "reset_peripherals hw s4 = (Ret (), s5)"
    "all_at view c (?kc\<lparr>cstate := CARD_STATE_IDLE\<rparr>) (loaded_ram rm k d e) s5" "c_state c = CARD_STATE_IDLE"
    using gives_reset_peripherals [OF assms(1) s4(2)] by (auto simp: gives_def idle_again_def)
  have ok: "log_ok ''Jumping to kernel...'' []" by code_simp
  obtain t where t: "serial_log hw ''Jumping to kernel...'' [] s5 = (Ret (), t)"
    "all_at view c (?kc\<lparr>cstate := CARD_STATE_IDLE\<rparr>) (loaded_ram rm k d e) t"
    using gives_log [OF assms(1) ok s5(2)] by (auto simp: gives_def)
  have "c_entry hw cfg s = (Boot \<lparr>reg_r0 = 0, reg_r1 = NOT 0, reg_r2 = DTB_RAM_ADDR, reg_pc = KERN_RAM_ADDR\<rparr>, t)"
    unfolding c_entry_def install_vector_table_def bnd_prim_run boot_kernel_def
    by (simp add: bnd_def s1(1) s2(1) s3(1) s4(1) s5(1) t(1) stop_run)
  moreover have "ram t = loaded_ram rm k d e" "view (dev t) = c" "sdcard t = known_card sp CARD_STATE_IDLE"
    using t(2) by (simp_all add: all_at_def known_card_def)
  ultimately show ?thesis using loaded_ram_items [OF assms(7), of rm] s5(3) by (simp add: addrmap_defs)
qed

text \<open>
  C7. The whole boot on a board that behaves as documented: when the card holds a master boot
  record with the image partition in it, and that partition a well-formed image with a zImage and a
  device tree blob that fit their places, then \<^verbatim>\<open>c_entry()\<close> comes to the jump to the kernel with
  the registers of the ARM boot protocol, RAM holds the kernel and the device tree blob byte
  for byte at the addresses the registers name, and the card has been put back into its idle
  state.
\<close>

theorem boot_reference:
  assumes "pi_like hw view msg sp" and "take_bit 16 (spec_rca sp) = spec_rca sp"
    and "partitioned sp code entries" and "1 \<le> IMAGE_PARTITION cfg" and "IMAGE_PARTITION cfg \<le> 4"
  defines "en \<equiv> entries ! nat (IMAGE_PARTITION cfg - 1)"
  assumes "bootable sp (part_lba en) pad k d e" and "image_size k d e \<le> 512 * unat (part_nblks en)"
    and "512 * unat (part_nblks en) < 2 ^ 32"
  shows "\<exists>t. c_entry hw cfg s =
      (Boot \<lparr>reg_r0 = 0, reg_r1 = 0xffffffff, reg_r2 = 0x8000000, reg_pc = 0x2000000\<rparr>, t) \<and>
    ram_bytes (ram t) 0x2000000 (length k) = k \<and> ram_bytes (ram t) 0x8000000 (length d) = d \<and>
    c_state (view (dev t)) = CARD_STATE_IDLE \<and> sdcard t = known_card sp CARD_STATE_IDLE"
  using c_entry_boots [OF assms(1-5) assms(7-9) [unfolded en_def]] by (simp add: en_def)

end
