(* ===== verification/Pi_Board.thy ===== *)
theory Pi_Board
  imports Reference_Boot
begin

unbundle bit_operations_syntax

text \<open>
  A concrete board: the reference controller, a clock that ticks with every read of its low
  word, a VideoCore that answers and a UART that is always ready. It meets every assumption
  that the theorems on the boot make of hardware, so they are not vacuous.
\<close>

section \<open>The board\<close>

definition sd_registers :: "sd_register list" where
  "sd_registers = [BLKSIZECNT, ARG1, CMDTM, RESP0, DATA, STATUS, CONTROL0, CONTROL1, INTERRUPT, IRPT_MASK, IRPT_EN, FORCE_IRPT]"

definition sd_register_at :: "addr \<Rightarrow> sd_register option" where
  "sd_register_at a = find (\<lambda>r. sd_reg r = a) sd_registers"

type_synonym board = "ctl \<times> nat \<times> u32"

abbreviation board_ctl :: "board \<Rightarrow> ctl" where "board_ctl \<equiv> fst"
abbreviation board_msg :: "board \<Rightarrow> u32" where "board_msg b \<equiv> snd (snd b)"
abbreviation board_clock :: "board \<Rightarrow> nat" where "board_clock b \<equiv> fst (snd b)"

definition pi_board :: "sd_spec \<Rightarrow> nat \<Rightarrow> board hw" where
  "pi_board sp fuel =
     \<lparr>mmio_read = (\<lambda>a (c, n, m). case sd_register_at a of
          Some r \<Rightarrow> (ctl_value sp r c, (ctl_read r c, n, m))
        | None \<Rightarrow> if a = CLO_addr then (of_nat n, (c, Suc n, m))
                  else (if a = mbox_reg MBOX0_READ then m else if a = LSR_addr then BIT 5 else 0, (c, n, m))),
      mmio_write = (\<lambda>a v (c, n, m). case sd_register_at a of
          Some r \<Rightarrow> (ctl_write sp r v c, n, m)
        | None \<Rightarrow> (c, n, if a = mbox_reg MBOX1_WRITE then v else m)),
      vc_respond = (\<lambda>b. vc_answer), uninit = (\<lambda>_. 0), poll_fuel = fuel\<rparr>"

lemma sd_register_at_reg: "sd_register_at (sd_reg r) = Some r"
  by (cases r) (simp_all add: sd_register_at_def sd_registers_def)

lemma sd_register_at_other: "a \<notin> sd_page \<Longrightarrow> sd_register_at a = None"
  using sd_reg_page by (auto simp: sd_register_at_def sd_registers_def find_None_iff)

lemma other_regs:
  "CLO_addr \<notin> sd_page" "LSR_addr \<notin> sd_page" "mbox_reg r \<notin> sd_page" "mbox_reg r \<noteq> CLO_addr" "LSR_addr \<noteq> CLO_addr"
  "mbox_reg r \<noteq> LSR_addr" "mbox_reg MBOX0_STATUS \<noteq> mbox_reg MBOX0_READ" "mbox_reg MBOX1_STATUS \<noteq> mbox_reg MBOX0_READ"
  by ((cases r)?; simp add: sd_page_def get_peripheral_reg_addr_def timer_access_def vcmailbox_access_def uart_access_def
      ARM_LO_MAIN_PERIPH_BASE_ADDR_def)+

lemma pi_board_follows: "follows (pi_board sp fuel) board_ctl sp"
  by (auto simp: follows_def pi_board_def sd_register_at_reg sd_register_at_other split: prod.splits)

lemma pi_board_mailbox: "mailbox_follows (pi_board sp fuel) board_msg"
  by (auto simp: mailbox_follows_def pi_board_def sd_register_at_other other_regs not_sym [OF other_regs(6)] split: prod.splits option.splits)

lemma pi_board_like: "0 < fuel \<Longrightarrow> pi_like (pi_board sp fuel) board_ctl board_msg sp"
  using pi_board_follows pi_board_mailbox
  by (auto simp: pi_like_def uart_ready_def pi_board_def sd_register_at_other other_regs not_sym [OF other_regs(6)] bit_BIT split: prod.splits)

lemma pi_board_steady: "steady_clock (pi_board sp fuel) board_clock 1"
  by (auto simp: steady_clock_def pi_board_def sd_register_at_other other_regs split: prod.splits option.splits)

section \<open>A disk with a small image\<close>

definition disk_of :: "u8 list \<Rightarrow> disk" where
  "disk_of bs p = (if p < length bs then bs ! p else 0)"

lemma disk_of_bytes: "p + n \<le> length bs \<Longrightarrow> disk_bytes (disk_of bs) p n = take n (drop p bs)"
  by (rule nth_equalityI) (simp_all add: disk_bytes_def disk_of_def)

definition tiny_kernel :: "u8 list" where
  "tiny_kernel = replicate 0x24 0 @ bytes32 ZIMAGE_MAGIC @ replicate 464 0"

definition tiny_dtb :: "u8 list" where
  "tiny_dtb = [0xd0, 0x0d, 0xfe, 0xed] @ replicate 500 0"

definition tiny_pad :: "u8 list" where
  "tiny_pad = replicate 504 0"

definition tiny_entry :: part_entry where
  "tiny_entry = \<lparr>part_head = replicate 8 0, part_lba = 1, part_nblks = 4\<rparr>"

definition tiny_disk :: disk where
  "tiny_disk = disk_of (mbr_bytes (replicate 446 0) (replicate 4 tiny_entry) @ image_bytes tiny_pad tiny_kernel tiny_dtb tiny_pad)"

definition tiny_card :: sd_spec where
  "tiny_card = \<lparr>spec_hc = True, spec_rca = 0x1234, spec_ocr = 0x00ff8000, spec_scr = 0x00050002, spec_disk = tiny_disk\<rparr>"

definition tiny_build :: build where
  "tiny_build = \<lparr>IMAGE_PARTITION = 1, vector_table = 0x8000, vector_table_pool_end = 0x8040\<rparr>"

definition fresh_board :: board where
  "fresh_board = (\<lparr>c_arg = 0, c_blk = 0, c_idx = 0, c_app = False, c_ctl0 = 0, c_ctl1 = 0, c_mask = 0, c_irq = 0,
     c_state = CARD_STATE_INACTIVE, c_pos = None, c_left = 0\<rparr>, 0, 0)"

lemma tiny_lengths: "length tiny_kernel = 504" "length tiny_dtb = 504" "length tiny_pad = 504"
  by (simp_all add: tiny_kernel_def tiny_dtb_def tiny_pad_def)

lemma tiny_wf: "mbr_wf (replicate 446 0) (replicate 4 tiny_entry)"
  by (simp add: mbr_wf_def tiny_entry_def)

lemma length_mbr: "mbr_wf code entries \<Longrightarrow> length (mbr_bytes code entries) = 512"
  by (auto simp: mbr_wf_def mbr_bytes_def length_concat comp_def length_entry_bytes sum_list_triv cong: map_cong)

lemma tiny_partitioned: "partitioned tiny_card (replicate 446 0) (replicate 4 tiny_entry)"
  using tiny_wf length_mbr [OF tiny_wf]
  by (simp add: partitioned_def tiny_card_def tiny_disk_def disk_of_bytes)

lemma tiny_bootable: "bootable tiny_card 1 tiny_pad tiny_kernel tiny_dtb tiny_pad"
proof -
  have sz: "image_size tiny_kernel tiny_dtb tiny_pad = 2048" by (simp add: image_size_def tiny_lengths)
  have len: "length (image_bytes tiny_pad tiny_kernel tiny_dtb tiny_pad) = 2048"
    using length_image_bytes [OF tiny_lengths(3)] sz by simp
  have "disk_bytes tiny_disk 512 2048 = image_bytes tiny_pad tiny_kernel tiny_dtb tiny_pad"
    unfolding tiny_disk_def using length_mbr [OF tiny_wf] len by (subst disk_of_bytes) simp_all
  moreover have "take 4 (drop 0x24 tiny_kernel) = bytes32 ZIMAGE_MAGIC" "take 4 tiny_dtb = [0xd0, 0x0d, 0xfe, 0xed]"
    by (simp_all add: tiny_kernel_def tiny_dtb_def)
  ultimately show ?thesis
    by (simp add: bootable_def sz image_wf_def tiny_lengths whole_blocks_def tiny_card_def within_card_def)
qed

theorem boot_reference_witness:
  "\<exists>t. c_entry (pi_board tiny_card 1) tiny_build (blank_machine fresh_board) =
      (Boot \<lparr>reg_r0 = 0, reg_r1 = 0xffffffff, reg_r2 = 0x8000000, reg_pc = 0x2000000\<rparr>, t) \<and>
    ram_bytes (ram t) 0x2000000 504 = tiny_kernel \<and> ram_bytes (ram t) 0x8000000 504 = tiny_dtb"
proof -
  have e: "replicate 4 tiny_entry ! nat (IMAGE_PARTITION tiny_build - 1) = tiny_entry"
    "part_lba tiny_entry = 1" "part_nblks tiny_entry = 4"
    by (simp_all add: tiny_build_def tiny_entry_def)
  have "take_bit 16 (spec_rca tiny_card) = spec_rca tiny_card" by (simp add: tiny_card_def)
  moreover have "1 \<le> IMAGE_PARTITION tiny_build" "IMAGE_PARTITION tiny_build \<le> 4" by (simp_all add: tiny_build_def)
  moreover have "image_size tiny_kernel tiny_dtb tiny_pad \<le> 512 * unat (4 :: u32)" by (simp add: image_size_def tiny_lengths)
  ultimately show ?thesis
    using boot_reference [OF pi_board_like [of 1 tiny_card] _ tiny_partitioned, where cfg = tiny_build and pad = tiny_pad
        and k = tiny_kernel and d = tiny_dtb and e = tiny_pad and s = "blank_machine fresh_board", unfolded e] tiny_bootable
    by (auto simp: tiny_lengths)
qed

end
