(* ===== verification/Image_Roundtrip.thy ===== *)
theory Image_Roundtrip
  imports Imager_Facts Pi_Board
begin

unbundle bit_operations_syntax

text \<open>
  The imager and the bootloader together: what \<^verbatim>\<open>rpi-img\<close> writes to the partition, the
  bootloader boots. The two programs share only the format of the image.
\<close>

section \<open>A card with the image in its partition\<close>

definition card_holds :: "sd_spec \<Rightarrow> build \<Rightarrow> u8 list \<Rightarrow> bool" where
  "card_holds sp cfg img \<longleftrightarrow>
     1 \<le> IMAGE_PARTITION cfg \<and> IMAGE_PARTITION cfg \<le> 4 \<and> take_bit 16 (spec_rca sp) = spec_rca sp \<and>
     (\<exists>code entries. partitioned sp code entries \<and>
       (let en = entries ! nat (IMAGE_PARTITION cfg - 1); p = unat (part_lba en); n = unat (part_nblks en)
        in disk_bytes (spec_disk sp) (512 * p) (length img) = img \<and> length img \<le> 512 * n \<and> 512 * n < 2 ^ 32 \<and>
           within_card (spec_hc sp) (p + length img div 512)))"

text \<open>Files that the bootloader accepts, with room for the padding.\<close>

definition bootable_files :: "u8 list \<Rightarrow> u8 list \<Rightarrow> bool" where
  "bootable_files k d \<longleftrightarrow> 0x28 \<le> length k \<and> length k + 512 \<le> 0x6000000 \<and> take 4 (drop 0x24 k) = bytes32 ZIMAGE_MAGIC \<and>
     4 \<le> length d \<and> length d + 512 \<le> 0x8000000 \<and> take 4 d = [0xd0, 0x0d, 0xfe, 0xed]"

lemma ram_bytes_prefix: "ram_bytes m a (length (xs @ ys)) = xs @ ys \<Longrightarrow> ram_bytes m a (length xs) = xs"
  by (auto simp: ram_bytes_append)

lemma card_boots:
  assumes "card_holds sp cfg (image_bytes pad (k @ kx) (d @ dx) e)" and "image_wf pad (k @ kx) (d @ dx) e"
    and "bootable_files k d" and "length kx < 512" and "length dx < 512" and "pi_like hw view msg sp"
  shows "\<exists>u. c_entry hw cfg s =
      (Boot \<lparr>reg_r0 = 0, reg_r1 = 0xffffffff, reg_r2 = 0x8000000, reg_pc = 0x2000000\<rparr>, u) \<and>
    ram_bytes (ram u) 0x2000000 (length k) = k \<and> ram_bytes (ram u) 0x8000000 (length d) = d"
proof -
  have "length pad = 504" using assms(2) by (simp add: image_wf_def)
  note len = length_image_bytes [OF this]
  obtain code entries where c: "partitioned sp code entries" "1 \<le> IMAGE_PARTITION cfg" "IMAGE_PARTITION cfg \<le> 4"
      "take_bit 16 (spec_rca sp) = spec_rca sp"
    and p: "let en = entries ! nat (IMAGE_PARTITION cfg - 1); p = unat (part_lba en); n = unat (part_nblks en); sz = image_size (k @ kx) (d @ dx) e
        in disk_bytes (spec_disk sp) (512 * p) sz = image_bytes pad (k @ kx) (d @ dx) e \<and> sz \<le> 512 * n \<and> 512 * n < 2 ^ 32 \<and>
           within_card (spec_hc sp) (p + sz div 512)"
    using assms(1) unfolding card_holds_def len Let_def by blast
  let ?en = "entries ! nat (IMAGE_PARTITION cfg - 1)"
  have "bootable sp (part_lba ?en) pad (k @ kx) (d @ dx) e"
    using assms(2-5) p by (simp add: bootable_def bootable_files_def Let_def)
  from c_entry_boots [OF assms(6) c(4,1-3) this] p obtain u where
    "c_entry hw cfg s = (Boot \<lparr>reg_r0 = 0, reg_r1 = 0xffffffff, reg_r2 = 0x8000000, reg_pc = 0x2000000\<rparr>, u)"
    "ram_bytes (ram u) 0x2000000 (length (k @ kx)) = k @ kx" "ram_bytes (ram u) 0x8000000 (length (d @ dx)) = d @ dx"
    unfolding Let_def by blast
  then show ?thesis using ram_bytes_prefix by blast
qed

text \<open>
  C2. The round trip through the card: on a system that works, \<^verbatim>\<open>rpi-img\<close> given a kernel and a device
  tree blob that the bootloader accepts succeeds, writes little more than the two files, and
  whichever board then starts with a card that holds these bytes in its image partition boots
  with the registers of the boot protocol and with the two files, byte for byte, in RAM.
\<close>

theorem image_roundtrip:
  assumes "os_works os contents unread written" and "contents kern = Some k" and "contents dtb = Some d"
    and "bootable_files k d" and "length k + length d + 8192 < os_fuel os" and "\<not> any_arg_is_help [prog, part, kern, dtb]"
  shows "\<exists>fd t. imager_main os [prog, part, kern, dtb] s = (Ret EXIT_SUCCESS, t) \<and>
    length (written t fd) < length k + length d + 2560 \<and>
    (\<forall>sp cfg hw view msg m. card_holds sp cfg (written t fd) \<and> pi_like hw view msg sp \<longrightarrow>
      (\<exists>u. c_entry hw cfg m = (Boot \<lparr>reg_r0 = 0, reg_r1 = 0xffffffff, reg_r2 = 0x8000000, reg_pc = 0x2000000\<rparr>, u) \<and>
        ram_bytes (ram u) 0x2000000 (length k) = k \<and> ram_bytes (ram u) 0x8000000 (length d) = d))"
proof -
  have "k \<noteq> []" "d \<noteq> []" "length k + length d + 8192 < 2 ^ 31" using assms(4) by (auto simp: bootable_files_def)
  from imager_writes [OF assms(1-3) this assms(5,6)] obtain pad kx dx e fd t where
    t: "imager_main os [prog, part, kern, dtb] s = (Ret EXIT_SUCCESS, t)" "written t fd = image_bytes pad (k @ kx) (d @ dx) e"
      "image_wf pad (k @ kx) (d @ dx) e" "length kx < 512" "length dx < 512" "length e < 512"
    by blast
  have "length (written t fd) = image_size (k @ kx) (d @ dx) e"
    using t(2,3) by (simp add: image_wf_def length_image_bytes)
  then have "length (written t fd) < length k + length d + 2560" using t(4-6) by (simp add: image_size_def)
  then show ?thesis using t(1) by (intro exI [where x = fd] exI [where x = t]) (auto simp: t(2) intro!: card_boots [OF _ t(3) assms(4) t(4,5)])
qed

section \<open>A concrete system\<close>

text \<open>Files as lists of bytes; every call succeeds, and reads and writes transfer all they can.\<close>

record desk =
  desk_unread :: "int \<Rightarrow> u8 list"
  desk_written :: "int \<Rightarrow> u8 list"
  desk_next :: nat

definition desk_os :: "(string \<Rightarrow> u8 list option) \<Rightarrow> nat \<Rightarrow> desk os" where
  "desk_os contents fuel =
     \<lparr>os_open = (\<lambda>path wr o1. let fd = int (desk_next o1); o2 = o1\<lparr>desk_next := Suc (desk_next o1)\<rparr> in
        if wr then (fd, o2\<lparr>desk_written := (desk_written o1)(fd := [])\<rparr>)
        else (case contents path of None \<Rightarrow> (-1, o1) | Some bs \<Rightarrow> (fd, o2\<lparr>desk_unread := (desk_unread o1)(fd := bs)\<rparr>))),
      os_fstat = (\<lambda>fd o1. (Some (int (length (desk_unread o1 fd))), o1)),
      os_malloc = (\<lambda>n o1. (Some (replicate n 0), o1)),
      os_realloc = (\<lambda>mem n o1. (Some (mem @ replicate (n - length mem) 0), o1)),
      os_read = (\<lambda>fd n o1. let bs = take n (desk_unread o1 fd) in
        ((int (length bs), bs), o1\<lparr>desk_unread := (desk_unread o1)(fd := drop n (desk_unread o1 fd))\<rparr>)),
      os_write = (\<lambda>fd bs o1. (int (length bs), o1\<lparr>desk_written := (desk_written o1)(fd := desk_written o1 fd @ bs)\<rparr>)),
      os_close = (\<lambda>fd o1. o1),
      os_fuel = fuel\<rparr>"

lemma desk_works: "os_works (desk_os contents fuel) contents desk_unread desk_written"
proof -
  have rd: "\<exists>k. int (min (length bs) n) = int k \<and> take n bs = take k bs \<and> k \<le> n \<and> k \<le> length bs \<and> (k = 0 \<longrightarrow> bs = []) \<and> drop n bs = drop k bs"
    if "0 < n" for n and bs :: "u8 list"
    using that by (intro exI [where x = "min (length bs) n"]) (auto simp: min_def)
  show ?thesis
    unfolding os_works_def os_opens_def os_reads_def os_allocates_def os_writes_def
    using rd by (auto simp: desk_os_def Let_def intro!: exI [where x = "length _"])
qed

text \<open>A card for the tiny board that holds given bytes in its first partition.\<close>

definition desk_files :: "string \<Rightarrow> u8 list option" where
  "desk_files = [''kernel'' \<mapsto> tiny_kernel, ''dtb'' \<mapsto> tiny_dtb]"

definition wide_entry :: part_entry where
  "wide_entry = \<lparr>part_head = replicate 8 0, part_lba = 1, part_nblks = 8\<rparr>"

definition flashed_card :: "u8 list \<Rightarrow> sd_spec" where
  "flashed_card img = tiny_card\<lparr>spec_disk := disk_of (mbr_bytes (replicate 446 0) (replicate 4 wide_entry) @ img)\<rparr>"

lemma flashed_card_holds:
  assumes "length img \<le> 4096"
  shows "card_holds (flashed_card img) tiny_build img"
proof -
  have wf: "mbr_wf (replicate 446 0) (replicate 4 wide_entry)" by (simp add: mbr_wf_def wide_entry_def)
  have "partitioned (flashed_card img) (replicate 446 0) (replicate 4 wide_entry)"
    using wf length_mbr [OF wf] by (simp add: partitioned_def flashed_card_def disk_of_bytes)
  moreover have "disk_bytes (spec_disk (flashed_card img)) 512 (length img) = img"
    unfolding flashed_card_def using length_mbr [OF wf] by (simp add: disk_of_bytes)
  moreover have "replicate 4 wide_entry ! nat (IMAGE_PARTITION tiny_build - 1) = wide_entry" by (simp add: tiny_build_def)
  ultimately show ?thesis using assms
    by (auto simp: card_holds_def Let_def tiny_build_def wide_entry_def flashed_card_def tiny_card_def within_card_def
        intro!: exI [where x = "replicate 4 wide_entry"])
qed

lemma tiny_files: "bootable_files tiny_kernel tiny_dtb"
  by (simp add: bootable_files_def tiny_lengths) (simp add: tiny_kernel_def tiny_dtb_def)

theorem image_roundtrip_witness:
  "\<exists>fd t u. imager_main (desk_os desk_files 10000) [''rpi-img'', ''part'', ''kernel'', ''dtb''] \<lparr>desk_unread = \<lambda>_. [], desk_written = \<lambda>_. [], desk_next = 3\<rparr> =
      (Ret EXIT_SUCCESS, t) \<and>
    c_entry (pi_board (flashed_card (desk_written t fd)) 1) tiny_build (blank_machine fresh_board) =
      (Boot \<lparr>reg_r0 = 0, reg_r1 = 0xffffffff, reg_r2 = 0x8000000, reg_pc = 0x2000000\<rparr>, u) \<and>
    ram_bytes (ram u) 0x2000000 504 = tiny_kernel \<and> ram_bytes (ram u) 0x8000000 504 = tiny_dtb"
proof -
  let ?args = "[''rpi-img'', ''part'', ''kernel'', ''dtb'']" and ?os = "desk_os desk_files 10000"
  let ?s = "\<lparr>desk_unread = \<lambda>_. [], desk_written = \<lambda>_. [], desk_next = 3\<rparr>"
  have pre: "\<not> any_arg_is_help ?args" "desk_files ''kernel'' = Some tiny_kernel" "desk_files ''dtb'' = Some tiny_dtb"
    "length tiny_kernel + length tiny_dtb + 8192 < os_fuel ?os"
    by (simp_all add: any_arg_is_help_def desk_files_def desk_os_def tiny_lengths)
  have "\<exists>fd t. imager_main ?os ?args ?s = (Ret EXIT_SUCCESS, t) \<and>
    length (desk_written t fd) < length tiny_kernel + length tiny_dtb + 2560 \<and>
    (\<forall>sp cfg (hw :: board hw) view msg m. card_holds sp cfg (desk_written t fd) \<and> pi_like hw view msg sp \<longrightarrow>
      (\<exists>u. c_entry hw cfg m = (Boot \<lparr>reg_r0 = 0, reg_r1 = 0xffffffff, reg_r2 = 0x8000000, reg_pc = 0x2000000\<rparr>, u) \<and>
        ram_bytes (ram u) 0x2000000 (length tiny_kernel) = tiny_kernel \<and> ram_bytes (ram u) 0x8000000 (length tiny_dtb) = tiny_dtb))"
    by (rule image_roundtrip [OF desk_works pre(2,3) tiny_files pre(4,1)])
  then obtain fd t where
    t: "imager_main ?os ?args ?s = (Ret EXIT_SUCCESS, t)" "length (desk_written t fd) < length tiny_kernel + length tiny_dtb + 2560" and
    b: "\<forall>sp cfg (hw :: board hw) view msg m. card_holds sp cfg (desk_written t fd) \<and> pi_like hw view msg sp \<longrightarrow>
      (\<exists>u. c_entry hw cfg m = (Boot \<lparr>reg_r0 = 0, reg_r1 = 0xffffffff, reg_r2 = 0x8000000, reg_pc = 0x2000000\<rparr>, u) \<and>
        ram_bytes (ram u) 0x2000000 (length tiny_kernel) = tiny_kernel \<and> ram_bytes (ram u) 0x8000000 (length tiny_dtb) = tiny_dtb)"
    by (elim exE conjE)
  have h: "card_holds (flashed_card (desk_written t fd)) tiny_build (desk_written t fd)"
    by (rule flashed_card_holds) (use t(2) in \<open>simp add: tiny_lengths\<close>)
  from b [rule_format, OF conjI [OF h pi_board_like], of 1 "blank_machine fresh_board"] t(1) show ?thesis
    unfolding tiny_lengths by auto
qed

end
