(* ===== verification/Boot_Spec.thy ===== *)
theory Boot_Spec
  imports Reference_Boot
begin

unbundle bit_operations_syntax

text \<open>
  The boot as a function of the disk. The specification looks at words of the card and says
  how the boot ends, with which error code or in the kernel; it knows nothing of RAM, registers, commands
  or logs. Its state is the number of the block after the last one it has looked at. On a
  board that behaves as documented the program refines it.
\<close>

section \<open>The specification\<close>

definition card_word :: "sd_spec \<Rightarrow> u32 \<Rightarrow> nat \<Rightarrow> u32" where
  "card_word sp lba off = disk_word (spec_disk sp) (512 * unat lba + off)"

definition sees :: "u32 \<Rightarrow> nat \<Rightarrow> (nat, unit) prog" where
  "sees lba n = modify (\<lambda>top. max top (unat lba + n))"

definition demand :: "bool \<Rightarrow> error_code \<Rightarrow> (nat, unit) prog" where
  "demand ok e = when_io (\<not> ok) (stop (Signal e))"

definition mbr_spec :: "sd_spec \<Rightarrow> int \<Rightarrow> (nat, unit) prog" where
  "mbr_spec sp p =
     bnd (sees 0 1) (\<lambda>_.
     bnd (demand (spec_disk sp 510 = 0x55 \<and> spec_disk sp 511 = 0xaa) ERROR_NO_MBR_MAGIC) (\<lambda>_.
     demand (1 \<le> p \<and> p \<le> 4) ERROR_INVALID_PARTITION))"

definition head_spec :: "sd_spec \<Rightarrow> int \<Rightarrow> (nat, u32) prog" where
  "head_spec sp p =
     (let lba = card_word sp 0 (446 + 16 * nat (p - 1) + 8); nblks = card_word sp 0 (446 + 16 * nat (p - 1) + 12)
      in bnd (sees lba 1) (\<lambda>_.
         bnd (demand (card_word sp lba 0 = IMG_MAGIC) ERROR_NO_IMAGE_MAGIC) (\<lambda>_.
         bnd (demand (card_word sp lba 4 \<le> nblks * 512) ERROR_IMAGE_OVERFLOW) (\<lambda>_.
         ret lba))))"

text \<open>The size of an item with its identifier and size, as a signed number.\<close>

definition item_size :: "sd_spec \<Rightarrow> u32 \<Rightarrow> int" where
  "item_size sp lba = sint (8 + card_word sp lba 4)"

definition known_ids :: "u32 list" where
  "known_ids = map item_id_value [ITEM_ID_END, ITEM_ID_KERNEL, ITEM_ID_DEVICE_TREE_BLOB]"

definition item_spec :: "sd_spec \<Rightarrow> item_id \<Rightarrow> u32 \<Rightarrow> (nat, unit) prog" where
  "item_spec sp want lba =
     bnd (sees lba 1) (\<lambda>_.
     bnd (when_io (card_word sp lba 0 \<noteq> item_id_value want)
            (stop (if card_word sp lba 0 \<in> set known_ids then Signal ERROR_IMAGE_CONTENTS else Undef))) (\<lambda>_.
     when_io (512 < item_size sp lba) (sees lba (nat (bytes_to_blocks (item_size sp lba))))))"

definition items_spec :: "sd_spec \<Rightarrow> u32 \<Rightarrow> (nat, unit) prog" where
  "items_spec sp lba =
     (let kern = lba + 1; dtb = kern + of_int (bytes_to_blocks (item_size sp kern));
          fin = dtb + of_int (bytes_to_blocks (item_size sp dtb))
      in bnd (item_spec sp ITEM_ID_KERNEL kern) (\<lambda>_.
         bnd (demand (0x2000000 + card_word sp kern 4 \<le> 0x8000000) ERROR_KERN_OVERFLOW) (\<lambda>_.
         bnd (demand (card_word sp kern 0x2c = ZIMAGE_MAGIC) ERROR_IMAGE_CONTENTS) (\<lambda>_.
         bnd (item_spec sp ITEM_ID_DEVICE_TREE_BLOB dtb) (\<lambda>_.
         bnd (demand (bswap32 (card_word sp dtb 8) = DTB_MAGIC) ERROR_IMAGE_CONTENTS) (\<lambda>_.
         item_spec sp ITEM_ID_END fin))))))"

definition boot_spec :: "sd_spec \<Rightarrow> int \<Rightarrow> (nat, unit) prog" where
  "boot_spec sp p =
     bnd (mbr_spec sp p) (\<lambda>_.
     bnd (head_spec sp p) (\<lambda>lba.
     bnd (items_spec sp lba) (\<lambda>_.
     stop (Boot \<lparr>reg_r0 = 0, reg_r1 = 0xffffffff, reg_r2 = 0x8000000, reg_pc = 0x2000000\<rparr>))))"

section \<open>Refinement\<close>

text \<open>
  From \<open>s\<close>, \<open>m\<close> ends as \<open>p\<close> does, provided \<open>p\<close> looks at blocks the card can address only; when
  both return, \<open>Q\<close> relates the results and holds of the state.
\<close>

definition meets :: "bool \<Rightarrow> ('d, 'a) io \<Rightarrow> 'd machine \<Rightarrow> (nat, 'b) prog \<Rightarrow> nat \<Rightarrow> ('a \<Rightarrow> 'b \<Rightarrow> 'd machine \<Rightarrow> bool) \<Rightarrow> bool" where
  "meets hc m s p k Q \<longleftrightarrow> (within_card hc (snd (p k)) \<longrightarrow>
     (case fst (p k) of
        Ret y \<Rightarrow> \<exists>x t. m s = (Ret x, t) \<and> Q x y t
      | Signal e \<Rightarrow> \<exists>t. m s = (Signal e, t)
      | Boot b \<Rightarrow> \<exists>t. m s = (Boot b, t)
      | Undef \<Rightarrow> \<exists>t. m s = (Undef, t)
      | Hang \<Rightarrow> False))"

text \<open>What has been looked at stays looked at.\<close>

definition upward :: "(nat, 'a) prog \<Rightarrow> bool" where
  "upward p \<longleftrightarrow> (\<forall>k. k \<le> snd (p k))"

lemma upward_bnd: "upward p \<Longrightarrow> (\<And>y. upward (g y)) \<Longrightarrow> upward (bnd p g)"
  unfolding upward_def bnd_def by (auto split: prod.splits res.splits) (metis le_trans snd_conv)+

lemma upward_prims: "upward (ret x)" "upward (stop r)" "upward (sees lba n)" "upward (demand b e)"
  "upward p' \<Longrightarrow> upward (when_io b p')"
  by (simp_all add: upward_def sees_def demand_def run_simps)

lemmas upward_rules = upward_bnd upward_prims

lemma upward_specs: "upward (mbr_spec sp p)" "upward (head_spec sp p)" "upward (item_spec sp want lba)" "upward (items_spec sp lba)"
  unfolding mbr_spec_def head_spec_def item_spec_def items_spec_def Let_def by (intro upward_rules)+

lemma within_card_mono: "within_card hc m \<Longrightarrow> n \<le> m \<Longrightarrow> within_card hc n"
  by (rule within_card_le)

lemma meets_bnd:
  assumes "meets hc m s p k Q" and "\<And>y. upward (g y)"
    and "\<And>x y t k'. Q x y t \<Longrightarrow> meets hc (f x) t (g y) k' P"
  shows "meets hc (bnd m f) s (bnd p g) k P"
proof (cases "p k")
  case (Pair r k1)
  show ?thesis
  proof (cases r)
    case (Ret y)
    have g: "bnd p g k = g y k1" using Pair Ret by (simp add: bnd_def)
    have "k1 \<le> snd (g y k1)" using assms(2) by (simp add: upward_def)
    then have w: "within_card hc k1" if "within_card hc (snd (g y k1))" using within_card_mono that by blast
    show ?thesis unfolding meets_def g
    proof
      assume *: "within_card hc (snd (g y k1))"
      obtain x t where m: "m s = (Ret x, t)" "Q x y t"
        using assms(1) w [OF *] Pair Ret by (auto simp: meets_def)
      have b: "bnd m f s = f x t" using m(1) by (simp add: bnd_def)
      show "case fst (g y k1) of Ret z \<Rightarrow> \<exists>x t. bnd m f s = (Ret x, t) \<and> P x z t | Signal e \<Rightarrow> \<exists>t. bnd m f s = (Signal e, t)
          | Boot c \<Rightarrow> \<exists>t. bnd m f s = (Boot c, t) | Undef \<Rightarrow> \<exists>t. bnd m f s = (Undef, t) | Hang \<Rightarrow> False"
        using assms(3) [OF m(2), of k1] * unfolding b meets_def by blast
    qed
  qed (use assms(1) Pair in \<open>auto simp: meets_def bnd_def\<close>)
qed

lemma meets_eq: "m s = m' s' \<Longrightarrow> p k = p' k' \<Longrightarrow> meets hc m' s' p' k' Q \<Longrightarrow> meets hc m s p k Q"
  by (cases "fst (p' k')") (simp_all add: meets_def)

lemma meets_gives:
  assumes "gives m s x P" and "\<And>t. P t \<Longrightarrow> meets hc (f x) t p k Q"
  shows "meets hc (bnd m f) s p k Q"
proof -
  obtain t where "m s = (Ret x, t)" "P t" using assms(1) by (auto simp: gives_def)
  then have "bnd m f s = f x t" "meets hc (f x) t p k Q" using assms(2) by (simp_all add: bnd_def)
  then show ?thesis by (rule meets_eq [OF _ refl])
qed

lemma meets_sees:
  assumes "\<And>k. within_card hc (unat lba + n) \<Longrightarrow> meets hc m s (g ()) k Q" and "upward (g ())"
  shows "meets hc m s (bnd (sees lba n) g) k Q"
proof -
  let ?k = "max k (unat lba + n)"
  have g: "bnd (sees lba n) g k = g () ?k" by (simp add: sees_def run_simps)
  have "unat lba + n \<le> snd (g () ?k)" using assms(2) unfolding upward_def by (metis max.bounded_iff)
  then show ?thesis using assms(1) [of ?k] within_card_mono unfolding meets_def g by blast
qed

lemma meets_demand:
  assumes "b \<longleftrightarrow> \<not> ok" and "b \<Longrightarrow> gives l s () P" and "ok \<Longrightarrow> meets hc (f ()) s (g ()) k Q"
  shows "meets hc (bnd (when_io b (bnd l (\<lambda>_. signal_error hw e))) f) s (bnd (demand ok e) g) k Q"
proof (cases ok)
  case True
  then have m: "meets hc (f ()) s (g ()) k Q" and b: "\<not> b" using assms(1,3) by simp_all
  have "bnd (when_io b (bnd l (\<lambda>_. signal_error hw e))) f s = f () s" "bnd (demand ok e) g k = g () k"
    using b True by (simp_all only: when_io_def demand_def bnd_prim_run if_False simp_thms)
  then show ?thesis using m by (rule meets_eq)
next
  case False
  then obtain t where "l s = (Ret (), t)" using assms(1,2) by (auto simp: gives_def)
  then show ?thesis using False assms(1) by (simp add: meets_def demand_def run_simps bnd_def)
qed

text \<open>The last step of a specification, with nothing to come.\<close>

lemma meets_unit: "meets hc m s (bnd p ret) k Q \<longleftrightarrow> meets hc m s p k Q"
proof -
  have "bnd p ret k = p k" by (cases "p k"; cases "fst (p k)") (auto simp: bnd_def ret_def)
  then show ?thesis by (simp add: meets_def)
qed

lemma meets_ret: "Q x y s \<Longrightarrow> meets hc (ret x) s (ret y) k Q"
  by (simp add: meets_def run_simps)

lemma meets_weaken: "meets hc m s p k Q \<Longrightarrow> (\<And>x y t. Q x y t \<Longrightarrow> P x y t) \<Longrightarrow> meets hc m s p k P"
  unfolding meets_def by (auto split: res.splits)

section \<open>Words of a block in RAM\<close>

lemma loaded_word:
  assumes "k + 4 \<le> n" and "n \<le> 2 ^ 32"
  shows "ram_get32 (ram_write m a (disk_bytes d p n)) (a + of_nat k) = disk_word d (p + k)"
proof (rule ram_get32_within)
  have "disk_bytes d (p + k) 4 = take 4 (drop k (disk_bytes d p n))" by (rule disk_bytes_slice [OF assms(1)])
  moreover have "disk_bytes d (p + k) 4 = bytes32 (disk_word d (p + k))"
    by (simp add: disk_bytes_def disk_word_def upt_conv_Cons eval_nat_numeral)
  ultimately show "take 4 (drop k (disk_bytes d p n)) = bytes32 (disk_word d (p + k))" by simp
qed (use assms in simp_all)

text \<open>The item at \<open>lba\<close>, once the first \<open>n\<close> of its blocks are in RAM.\<close>

lemma item_words:
  fixes rm :: ram and a :: addr and sp :: sd_spec and lba :: u32
  assumes "0 < n" and "512 * n \<le> 2 ^ 32"
  defines "m \<equiv> ram_write rm a (disk_bytes (spec_disk sp) (512 * unat lba) (512 * n))"
  shows "ram_get32 m a = card_word sp lba 0" and "item_datasz a m = card_word sp lba 4"
    and "ram_get32 m (a + 8) = card_word sp lba 8" and "ram_get32 m (a + 0x2c) = card_word sp lba 0x2c"
    and "itemsz a m = item_size sp lba"
proof -
  have w: "ram_get32 m (a + of_nat k) = card_word sp lba k" if "k \<le> 508" for k
    unfolding m_def card_word_def using that assms(1,2) by (intro loaded_word) simp_all
  show "ram_get32 m a = card_word sp lba 0" "item_datasz a m = card_word sp lba 4"
    "ram_get32 m (a + 8) = card_word sp lba 8" "ram_get32 m (a + 0x2c) = card_word sp lba 0x2c"
    using w [of 0] w [of 4] w [of 8] w [of "0x2c"] by (simp_all add: image_defs)
  then show "itemsz a m = item_size sp lba" by (simp add: itemsz_def item_size_def image_defs)
qed

section \<open>Messages\<close>

lemma error_log_ok:
  "log_ok ''Error: couldn't find MBR on SD card: no MBR magic'' []"
  "log_ok ''Error: partition %u not a valid primary partition'' [VaU v]"
  "log_ok ''Error: couldn't find image at start of partition %u: no image magic'' [VaU v]"
  "log_ok ''Error: kernel size %u bytes overflows into device tree blob'' [VaU v]"
  "log_ok ''Error: couldn't find kernel zImage magic'' []"
  "log_ok ''Error: couldn't find device tree blob magic'' []"
  using log_ok_number [of "''Error: partition ''" "'' not a valid primary partition''" v]
    log_ok_number [of "''Error: couldn't find image at start of partition ''" "'': no image magic''" v]
    log_ok_number [of "''Error: kernel size ''" "'' bytes overflows into device tree blob''" v]
  by (simp_all, code_simp+)

lemma fmt_number_step:
  "fmt_spec (CHR ''%'' # CHR ''u'' # f) (VaU v # ap) = map_option ((@) (uint_to_str v)) (fmt_spec f ap)"
  by (simp add: fmt_field_def is_digit_def specifier_supports_field_width_def conv_spec_def char_digit_to_int_def field_spec_def
      split: option.split)

lemma overflow_log_ok:
  "log_ok ''Error: image overflow: image size %u bytes is greater than size of image partition %u bytes'' [VaU v, VaU w]"
proof -
  let ?f = "''Error: image overflow: image size ''" and ?g = "'' bytes is greater than size of image partition ''"
  let ?h = "'' bytes''"
  have fs: "fmt_spec (?f @ CHR ''%'' # CHR ''u'' # ?g @ CHR ''%'' # CHR ''u'' # ?h) [VaU v, VaU w] =
      Some (?f @ uint_to_str v @ ?g @ uint_to_str w @ ?h)"
    by (subst fmt_spec_plain, simp, subst fmt_number_step, subst fmt_spec_plain, simp, subst fmt_number, simp, simp)
  have u: "NUL \<notin> set (uint_to_str u)" "length (uint_to_str u) \<le> 10" for u
    using digit_strings_chars(1) length_uint_to_str by auto
  have "log_ok (?f @ CHR ''%'' # CHR ''u'' # ?g @ CHR ''%'' # CHR ''u'' # ?h) [VaU v, VaU w]"
    unfolding log_ok_def fs using u(1) u(2) [of v] u(2) [of w] by simp
  then show ?thesis by simp
qed

lemma item_log_ok:
  assumes "stritem (item_id_value want) = Some name" and "stritem v = Some got"
  shows "log_ok ''Error: loaded image item %s but expected %s'' [VaS got, VaS name]"
proof -
  have n: "name \<in> {''end'', ''kernel'', ''device tree blob''}" "got \<in> {''end'', ''kernel'', ''device tree blob''}"
    using assms by (auto simp: stritem_def split: if_splits)
  have "fmt_spec ''Error: loaded image item %s but expected %s'' [VaS got, VaS name] =
      Some (''Error: loaded image item '' @ got @ '' but expected '' @ name)"
    using n by (auto simp: fmt_field_def is_digit_def specifier_supports_field_width_def conv_spec_def
        char_digit_to_int_def field_spec_def)
  then show ?thesis using n by (auto simp: log_ok_def)
qed

lemma stritem_known: "stritem v = None \<longleftrightarrow> v \<notin> set known_ids"
  by (auto simp: stritem_def known_ids_def split: if_splits)

section \<open>The stages\<close>

lemma meets_log:
  assumes "pi_like hw view msg sp" and "log_ok fmt ap" and "resting view cd rm s"
    and "\<And>t. resting view cd rm t \<Longrightarrow> meets hc (f ()) t p k Q"
  shows "meets hc (bnd (serial_log hw fmt ap) f) s p k Q"
  by (rule meets_gives, rule gives_log_resting [OF assms(1-3)], rule assms(4))

lemma meets_get:
  assumes "resting view cd rm s" and "\<And>t. resting view cd rm t \<Longrightarrow> meets hc (f (g rm)) t p k Q"
  shows "meets hc (bnd (gets (\<lambda>s. g (ram s))) f) s p k Q"
  by (rule meets_gives, rule gives_gets_resting [OF assms(1)], rule assms(2))

lemma meets_read:
  assumes "pi_like hw view msg sp" and "resting view (known_card sp st) rm s" and "address_aligned a 4" and "512 * n \<le> 2 ^ 32"
    and "within_card (spec_hc sp) (unat lba + n)"
    and "\<And>t. resting view (known_card sp st) (ram_write rm a (disk_bytes (spec_disk sp) (512 * unat lba) (512 * n))) t \<Longrightarrow>
      meets hc (f ()) t p k Q"
  shows "meets hc (bnd (sd_read_blocks hw a lba (int n)) (\<lambda>ok. bnd (when_io (\<not> ok) (signal_error hw ERROR_SD_READ)) f)) s p k Q"
  by (rule meets_gives, rule gives_read [OF assms(1-5)], rule meets_gives, rule gives_check, simp, assumption, rule assms(6))

lemma meets_check:
  assumes "pi_like hw view msg sp" and "resting view cd rm s" and "b \<longleftrightarrow> \<not> ok" and "log_ok fmt ap"
    and "ok \<Longrightarrow> meets hc (f ()) s (g ()) k Q"
  shows "meets hc (bnd (when_io b (bnd (serial_log hw fmt ap) (\<lambda>_. signal_error hw e))) f) s (bnd (demand ok e) g) k Q"
  by (rule meets_demand, rule assms(3), rule gives_log_resting [OF assms(1,4,2)], rule assms(5))

lemma mbr_words:
  fixes rm :: ram and sp :: sd_spec
  defines "m \<equiv> ram_write rm heap_get_base_address (disk_bytes (spec_disk sp) 0 512)"
  shows "mbr_magic heap_get_base_address m \<longleftrightarrow> spec_disk sp 510 = 0x55 \<and> spec_disk sp 511 = 0xaa"
    and "1 \<le> p \<Longrightarrow> p \<le> 4 \<Longrightarrow> mbr_get_partition_lba heap_get_base_address p m = card_word sp 0 (446 + 16 * nat (p - 1) + 8)"
    and "1 \<le> p \<Longrightarrow> p \<le> 4 \<Longrightarrow> mbr_get_partition_nblks heap_get_base_address p m = card_word sp 0 (446 + 16 * nat (p - 1) + 12)"
proof -
  have w: "ram_get32 m (heap_get_base_address + of_nat k) = card_word sp 0 k" if "k \<le> 508" for k
    unfolding m_def card_word_def using that loaded_word [of k 512] by simp
  have pw: "(of_int ((p - 1) * PART_ENTRY_SZ) :: addr) = of_nat (16 * nat (p - 1))" if "1 \<le> p" for p
  proof -
    have "(p - 1) * 16 = int (16 * nat (p - 1))" using that by simp
    then show ?thesis unfolding PART_ENTRY_SZ_def by (simp only: of_int_of_nat_eq)
  qed
  have e: "mbr_get_part_entry_field heap_get_base_address p (of_nat j) m = card_word sp 0 (446 + 16 * nat (p - 1) + j)"
    if "1 \<le> p" "p \<le> 4" "j \<le> 12" for p j
  proof -
    have a: "446 + 16 * nat (p - 1) + j \<le> 508" using that by simp
    have "heap_get_base_address + MBR_PART_ENTRIES_OFF + of_nat (16 * nat (p - 1)) + of_nat j =
        heap_get_base_address + of_nat (446 + 16 * nat (p - 1) + j)"
      by (simp add: mbr_defs(3) add.assoc del: of_nat_nat)
    then show ?thesis
      unfolding mbr_get_part_entry_field_def Let_def pw [OF that(1)] using w [OF a] by (simp only:)
  qed
  show "1 \<le> p \<Longrightarrow> p \<le> 4 \<Longrightarrow> mbr_get_partition_lba heap_get_base_address p m = card_word sp 0 (446 + 16 * nat (p - 1) + 8)"
    "1 \<le> p \<Longrightarrow> p \<le> 4 \<Longrightarrow> mbr_get_partition_nblks heap_get_base_address p m = card_word sp 0 (446 + 16 * nat (p - 1) + 12)"
    using e [of p 8] e [of p 12] by (simp_all add: mbr_get_partition_lba_def mbr_get_partition_nblks_def mbr_defs)
  have b: "m (heap_get_base_address + of_nat k) = spec_disk sp k" if "k < 512" for k
    unfolding m_def ram_write_def using that by (simp add: disk_bytes_def unat_of_nat_lt)
  have "(ucast x OR push_bit 8 (ucast y) :: u16) = 0xaa55 \<longleftrightarrow> x = 0x55 \<and> y = 0xaa" for x y :: u8
  proof
    assume *: "(ucast x OR push_bit 8 (ucast y) :: u16) = 0xaa55"
    have "x = ucast (ucast x OR push_bit 8 (ucast y) :: u16)"
      by (rule bit_word_eqI) (auto simp: bit_simps)
    moreover have "y = ucast (drop_bit 8 (ucast x OR push_bit 8 (ucast y) :: u16))"
      by (rule bit_word_eqI) (auto simp: bit_simps dest: bit_imp_le_length)
    ultimately show "x = 0x55 \<and> y = 0xaa" unfolding * by simp
  qed simp
  then show "mbr_magic heap_get_base_address m \<longleftrightarrow> spec_disk sp 510 = 0x55 \<and> spec_disk sp 511 = 0xaa"
    using b [of 510] b [of 511] by (simp add: mbr_magic_def mbr_defs ram_get16_def add.assoc)
qed

lemma meets_load_mbr:
  assumes "pi_like hw view msg sp" and "resting view (known_card sp st) rm s"
  shows "meets (spec_hc sp) (load_mbr hw cfg) s (mbr_spec sp (IMAGE_PARTITION cfg)) k
    (\<lambda>a _ t. a = heap_get_base_address \<and> 1 \<le> IMAGE_PARTITION cfg \<and> IMAGE_PARTITION cfg \<le> 4 \<and>
       resting view (known_card sp st) (ram_write rm heap_get_base_address (disk_bytes (spec_disk sp) 0 512)) t)"
proof -
  note log = meets_log [OF assms(1)] and chk = meets_check [OF assms(1)]
  have ok: "log_ok ''Loading MBR...'' []" "log_ok ''Successfully loaded and validated MBR'' []" by code_simp+
  have valid: "mbr_partition_valid p \<longleftrightarrow> 1 \<le> p \<and> p \<le> 4" for p by (simp add: mbr_partition_valid_def mbr_defs)
  show ?thesis
    unfolding load_mbr_def mbr_spec_def Let_def
    apply (rule log [OF ok(1) assms(2)], rule meets_sees)
     apply (rule meets_read [OF assms(1), where n = 1 and lba = 0, simplified], assumption, rule heap_aligned, simp add: within_card_def)
     apply (rule meets_get, assumption)
     apply (rule chk, assumption, simp add: mbr_words, rule error_log_ok)
     apply (rule iffD1 [OF meets_unit], rule chk, assumption, simp add: valid, rule error_log_ok)
     apply (rule log [OF ok(2)], assumption, rule meets_ret, simp)
    apply (intro upward_rules)
    done
qed

lemma meets_load_image_head:
  assumes "pi_like hw view msg sp" and "1 \<le> IMAGE_PARTITION cfg" and "IMAGE_PARTITION cfg \<le> 4"
    and "resting view (known_card sp st) (ram_write rm heap_get_base_address (disk_bytes (spec_disk sp) 0 512)) s"
  shows "meets (spec_hc sp) (load_image_head hw cfg heap_get_base_address) s (head_spec sp (IMAGE_PARTITION cfg)) k
    (\<lambda>x y t. x = y \<and> (\<exists>rm. resting view (known_card sp st) rm t))"
proof -
  note log = meets_log [OF assms(1)] and chk = meets_check [OF assms(1)]
  have ok: "log_ok ''Loading image head from partition %u'' [VaU v]"
    "log_ok ''Successfully loaded and validated image head, image size %u bytes'' [VaU v]" for v
    using log_ok_number [of "''Loading image head from partition ''" "[]" v]
      log_ok_number [of "''Successfully loaded and validated image head, image size ''" "'' bytes''" v] by simp_all
  have w: "ram_get32 (ram_write m a (disk_bytes (spec_disk sp) (512 * unat lba) (512 * 1))) a = card_word sp lba 0"
    "ram_get32 (ram_write m a (disk_bytes (spec_disk sp) (512 * unat lba) (512 * 1))) (a + image_imgsz_off) = card_word sp lba 4"
    for m a lba
    using loaded_word [of 0 512 m a "spec_disk sp" "512 * unat lba"] loaded_word [of 4 512 m a "spec_disk sp" "512 * unat lba"]
    by (simp_all add: card_word_def image_imgsz_off_def)
  show ?thesis
    unfolding load_image_head_def head_spec_def Let_def
    apply (rule meets_get [OF assms(4)], rule meets_get, assumption, unfold mbr_words(2,3) [OF assms(2,3)])
    apply (rule log [OF ok(1)], assumption, rule meets_sees)
     apply (rule meets_read [OF assms(1), where n = 1, unfolded of_nat_1], assumption, rule heap_aligned, simp, assumption)
     apply (rule meets_get, assumption, unfold w, rule chk, assumption, simp, rule error_log_ok)
     apply (rule meets_get, assumption, unfold w, rule chk, assumption, simp add: SD_BLKSZ_def not_le, rule overflow_log_ok)
     apply (rule log [OF ok(2)], assumption, rule meets_ret, blast)
    apply (intro upward_rules)
    done
qed

lemma meets_item_id:
  assumes "pi_like hw view msg sp" and "resting view cd rm s" and "stritem (item_id_value want) = Some name"
    and "v = item_id_value want \<Longrightarrow> meets hc (f ()) s (g ()) k Q"
  shows "meets hc (bnd (when_io (v \<noteq> item_id_value want) (case stritem v of None \<Rightarrow> stop Undef
      | Some got \<Rightarrow> bnd (serial_log hw ''Error: loaded image item %s but expected %s'' [VaS got, VaS name]) (\<lambda>_.
          signal_error hw ERROR_IMAGE_CONTENTS))) f) s
    (bnd (when_io (v \<noteq> item_id_value want) (stop (if v \<in> set known_ids then Signal ERROR_IMAGE_CONTENTS else Undef))) g) k Q"
    (is "meets hc ?m s ?p k Q")
proof (cases "v = item_id_value want")
  case True
  have "?m s = f () s" "?p k = g () k" by (simp_all only: True when_io_def bnd_prim_run if_False simp_thms)
  then show ?thesis using assms(4) [OF True] by (rule meets_eq)
next
  case False
  show ?thesis
  proof (cases "stritem v")
    case None
    then have "?m s = (Undef, s)" "?p k = (Undef, k)" using False stritem_known [of v]
      by (simp_all only: when_io_def if_True if_False option.case bnd_prim_run simp_thms)
    then show ?thesis by (simp add: meets_def)
  next
    case (Some got)
    obtain t where t: "serial_log hw ''Error: loaded image item %s but expected %s'' [VaS got, VaS name] s = (Ret (), t)"
      using gives_log_resting [OF assms(1) item_log_ok [OF assms(3) Some] assms(2)] by (auto simp: gives_def)
    have "\<exists>u. ?m s = (Signal ERROR_IMAGE_CONTENTS, u)"
      using False Some t by (simp add: when_io_def bnd_def run_simps)
    moreover have "?p k = (Signal ERROR_IMAGE_CONTENTS, k)" using False Some stritem_known [of v]
      by (simp add: when_io_def bnd_prim_run)
    ultimately show ?thesis by (simp add: meets_def)
  qed
qed

text \<open>What an item that was loaded is known to hold in RAM.\<close>

definition holds_item :: "sd_spec \<Rightarrow> addr \<Rightarrow> u32 \<Rightarrow> ram \<Rightarrow> bool" where
  "holds_item sp a lba m \<longleftrightarrow> item_datasz a m = card_word sp lba 4 \<and> ram_get32 m (a + 8) = card_word sp lba 8 \<and>
     ram_get32 m (a + 0x2c) = card_word sp lba 0x2c \<and> itemsz a m = item_size sp lba"

lemma meets_load_item:
  assumes "pi_like hw view msg sp" and "resting view (known_card sp st) rm s"
  shows "meets (spec_hc sp) (load_item hw want (item_dest want) lba) s (item_spec sp want lba) k
    (\<lambda>a _ t. a = item_dest want \<and> (\<exists>rm. resting view (known_card sp st) rm t \<and> holds_item sp (item_dest want) lba rm))"
proof -
  let ?a = "item_dest want" and ?at = "resting view (known_card sp st)" and ?sz = "item_size sp lba"
  let ?rm = "\<lambda>n. ram_write rm ?a (disk_bytes (spec_disk sp) (512 * unat lba) (512 * n))"
  obtain name where nm: "stritem (item_id_value want) = Some name" by (cases want) (simp_all add: stritem_def)
  have al: "address_aligned ?a 4" unfolding address_aligned_4 by (cases want) (simp_all add: addrmap_defs image_defs)
  have one: "(0 :: nat) < 1" "512 * (1 :: nat) \<le> 2 ^ 32" by simp_all
  note w1 = item_words [OF one, where rm = rm and a = ?a and sp = sp and lba = lba]
  have rest: "meets (spec_hc sp) (bnd (when_io (int SD_BLKSZ < ?sz) (bnd (sd_read_bytes hw ?a lba ?sz)
        (\<lambda>ok. when_io (\<not> ok) (signal_error hw ERROR_SD_READ)))) (\<lambda>_.
      bnd (gets (\<lambda>s. ram_get32 (ram s) (?a + item_datasz_off))) (\<lambda>datasz.
      bnd (serial_log hw ''Successfully loaded %s item, data size %u bytes'' [VaS name, VaU datasz]) (\<lambda>_. ret ?a)))) u
      (when_io (512 < ?sz) (sees lba (nat (bytes_to_blocks ?sz)))) k
      (\<lambda>a _ t. a = ?a \<and> (\<exists>rm. ?at rm t \<and> holds_item sp ?a lba rm))" if at: "?at (?rm 1) u" for u k
  proof (cases "512 < ?sz")
    case True
    let ?n = "nat (bytes_to_blocks ?sz)"
    have lt: "?sz < 2 ^ 31" using sint_lt [of "8 + card_word sp lba 4"] by (simp add: item_size_def)
    have n: "bytes_to_blocks ?sz = int ?n" "0 < ?n" "512 * ?n \<le> 2 ^ 32"
      using bytes_to_blocks_small [of ?sz] bytes_to_blocks_bounds [of ?sz] True lt by auto
    note wn = item_words [OF n(2,3), where rm = "?rm 1" and a = ?a and sp = sp and lba = lba]
    have rd: "sd_read_bytes hw ?a lba ?sz = sd_read_blocks hw ?a lba (int ?n)"
      by (simp only: sd_read_bytes_def Let_def n(1) [symmetric])
    have cond: "int SD_BLKSZ < ?sz" using True by (simp add: SD_BLKSZ_def)
    have "meets (spec_hc sp) (bnd (sd_read_blocks hw ?a lba (int ?n)) (\<lambda>ok. bnd (when_io (\<not> ok) (signal_error hw ERROR_SD_READ)) (\<lambda>_.
        bnd (gets (\<lambda>s. ram_get32 (ram s) (?a + item_datasz_off))) (\<lambda>datasz.
        bnd (serial_log hw ''Successfully loaded %s item, data size %u bytes'' [VaS name, VaU datasz]) (\<lambda>_. ret ?a))))) u
        (bnd (sees lba ?n) ret) k (\<lambda>a _ t. a = ?a \<and> (\<exists>rm. ?at rm t \<and> holds_item sp ?a lba rm))"
      apply (rule meets_sees)
       apply (rule meets_read [OF assms(1) at al n(3)], assumption, rule meets_get, assumption)
       apply (rule meets_log [OF assms(1) log_ok_loaded [OF nm]], assumption, rule meets_ret)
       apply (intro conjI exI, rule refl, assumption, unfold holds_item_def, intro conjI wn)
      apply (intro upward_rules)
      done
    then show ?thesis unfolding meets_unit using True cond by (simp only: when_io_def rd bnd_assoc if_True)
  next
    case False
    then have cond: "\<not> int SD_BLKSZ < ?sz" by (simp add: SD_BLKSZ_def)
    show ?thesis
      using False cond unfolding when_io_def
      apply (simp only: if_False bnd_prim_run)
      apply (rule meets_gives, rule gives_ret, rule at)
      apply (rule meets_get, assumption)
      apply (rule meets_log [OF assms(1) log_ok_loaded [OF nm]], assumption, rule meets_ret)
      apply (intro conjI exI, rule refl, assumption, unfold holds_item_def, intro conjI w1)
      done
  qed
  show ?thesis
    unfolding load_item_def item_spec_def nm option.case Let_def
    apply (rule meets_log [OF assms(1) log_ok_loading [OF nm] assms(2)], rule meets_sees)
     apply (rule meets_read [OF assms(1), where n = 1, unfolded of_nat_1], assumption, rule al, simp, assumption)
     apply (rule meets_get, assumption, unfold w1(1), rule meets_item_id [OF assms(1) _ nm], assumption)
     apply (rule meets_get [where g = "itemsz ?a"], assumption, unfold w1(5), rule rest, assumption)
    apply (intro upward_rules)
    done
qed

lemma holds_itemD:
  assumes "holds_item sp (item_dest want) lba rm"
  shows "item_datasz (item_dest want) rm = card_word sp lba 4" and "itemsz (item_dest want) rm = item_size sp lba"
    and "want = ITEM_ID_KERNEL \<Longrightarrow> ram_get32 rm (KERN_RAM_ADDR + ZIMAGE_MAGIC_OFF) = card_word sp lba 0x2c"
    and "want = ITEM_ID_DEVICE_TREE_BLOB \<Longrightarrow> ram_get32 rm DTB_RAM_ADDR = card_word sp lba 8"
  using assms by (auto simp: holds_item_def addrmap_defs image_defs ZIMAGE_MAGIC_OFF_def)

lemma meets_load_image_items:
  assumes "pi_like hw view msg sp" and "resting view (known_card sp st) rm s"
  shows "meets (spec_hc sp) (load_image_items hw lba) s (items_spec sp lba) k (\<lambda>_ _ t. \<exists>rm. resting view (known_card sp st) rm t)"
proof -
  let ?at = "resting view (known_card sp st)"
  note log = meets_log [OF assms(1)] and chk = meets_check [OF assms(1)] and item = meets_load_item [OF assms(1)]
  have ok: "log_ok ''Successfully validated kernel'' []" "log_ok ''Successfully validated device tree blob'' []" by code_simp+
  have fin: "meets (spec_hc sp) (bnd (load_item hw ITEM_ID_END (item_dest ITEM_ID_END) l) (\<lambda>_. ret ())) u (item_spec sp ITEM_ID_END l) k
      (\<lambda>_ _ t. \<exists>rm. ?at rm t)" if "?at rm u" for l u k rm
    by (rule iffD1 [OF meets_unit], rule meets_bnd, rule item [OF that], intro upward_rules, rule meets_ret, blast)
  have dtb: "meets (spec_hc sp)
      (bnd (gets (\<lambda>s. ram_get32 (ram s) DTB_RAM_ADDR)) (\<lambda>magic.
       bnd (when_io (bswap32 magic \<noteq> DTB_MAGIC)
              (bnd (serial_log hw ''Error: couldn't find device tree blob magic'' []) (\<lambda>_.
               signal_error hw ERROR_IMAGE_CONTENTS))) (\<lambda>_.
       bnd (serial_log hw ''Successfully validated device tree blob'' []) (\<lambda>_.
       bnd (gets (\<lambda>s. l + of_int (bytes_to_blocks (itemsz (item_dest ITEM_ID_DEVICE_TREE_BLOB) (ram s))))) (\<lambda>item_lba.
       bnd (load_item hw ITEM_ID_END (item_dest ITEM_ID_END) item_lba) (\<lambda>_. ret ())))))) u
      (bnd (demand (bswap32 (card_word sp l 8) = DTB_MAGIC) ERROR_IMAGE_CONTENTS) (\<lambda>_.
       item_spec sp ITEM_ID_END (l + of_int (bytes_to_blocks (item_size sp l))))) k (\<lambda>_ _ t. \<exists>rm. ?at rm t)"
    if "?at rm u" "holds_item sp (item_dest ITEM_ID_DEVICE_TREE_BLOB) l rm" for l u k rm
    apply (rule meets_get [OF that(1)], unfold holds_itemD(4) [OF that(2) refl], rule chk, assumption, simp, rule error_log_ok)
    apply (rule log [OF ok(2)], assumption)
    apply (rule meets_get [where g = "\<lambda>m. l + of_int (bytes_to_blocks (itemsz (item_dest ITEM_ID_DEVICE_TREE_BLOB) m))"], assumption)
    apply (unfold holds_itemD(2) [OF that(2)], rule fin, assumption)
    done
  show ?thesis
    unfolding load_image_items_def items_spec_def Let_def item_dest.simps(1-3) [symmetric]
    apply (rule meets_bnd [OF item [OF assms(2)]], intro upward_rules upward_specs, elim conjE exE, simp only:)
    apply (rule meets_get, assumption, simp only: holds_itemD(1))
    apply (rule chk, assumption, simp add: not_le addrmap_defs, rule error_log_ok)
    apply (rule meets_get, assumption, simp only: holds_itemD(3))
    apply (rule chk, assumption, simp, rule error_log_ok)
    apply (rule log [OF ok(1)], assumption)
    apply (rule meets_get [where g = "\<lambda>m. lba + 1 + of_int (bytes_to_blocks (itemsz (item_dest ITEM_ID_KERNEL) m))"], assumption)
    apply (simp only: holds_itemD(2))
    apply (rule meets_bnd [OF item], assumption, intro upward_rules upward_specs, elim conjE exE, simp only:, rule dtb, assumption+)
    done
qed

lemma c_entry_meets:
  assumes "pi_like hw view msg sp" and "take_bit 16 (spec_rca sp) = spec_rca sp"
  shows "meets (spec_hc sp) (c_entry hw cfg) s (boot_spec sp (IMAGE_PARTITION cfg)) 0 (\<lambda>_ _ _. True)"
proof -
  let ?s0 = "s\<lparr>ram := mcopy (vector_table cfg) 0x0 (sint (vector_table_pool_end cfg - vector_table cfg)) (ram s)\<rparr>"
  let ?kc = "known_card sp CARD_STATE_TRANSFER"
  obtain s1 where s1: "init_peripherals hw ?s0 = (Ret (), s1)" "resting view ?kc (ram s1) s1"
    using gives_init_peripherals [OF assms(1,2)] by blast
  have fin: "meets (spec_hc sp) (bnd (reset_peripherals hw) (\<lambda>_. boot_kernel hw)) u
      (stop (Boot \<lparr>reg_r0 = 0, reg_r1 = 0xffffffff, reg_r2 = 0x8000000, reg_pc = 0x2000000\<rparr>)) k (\<lambda>_ _ _. True)"
    if u: "resting view ?kc rm u" for u k rm
  proof -
    obtain v c where v: "reset_peripherals hw u = (Ret (), v)" "all_at view c (?kc\<lparr>cstate := CARD_STATE_IDLE\<rparr>) rm v"
      using gives_reset_peripherals [OF assms(1) u] by (auto simp: gives_def idle_again_def)
    have "log_ok ''Jumping to kernel...'' []" by code_simp
    from gives_log [OF assms(1) this v(2)] obtain t where "serial_log hw ''Jumping to kernel...'' [] v = (Ret (), t)"
      by (auto simp: gives_def)
    then show ?thesis using v(1) by (simp add: meets_def boot_kernel_def bnd_def run_simps addrmap_defs)
  qed
  have "c_entry hw cfg s = bnd (load_mbr hw cfg) (\<lambda>mbr. bnd (load_image_head hw cfg mbr) (\<lambda>lba.
      bnd (load_image_items hw lba) (\<lambda>_. bnd (reset_peripherals hw) (\<lambda>_. boot_kernel hw)))) s1"
    unfolding c_entry_def install_vector_table_def bnd_prim_run by (simp add: bnd_def s1(1))
  moreover have "meets (spec_hc sp) (bnd (load_mbr hw cfg) (\<lambda>mbr. bnd (load_image_head hw cfg mbr) (\<lambda>lba.
      bnd (load_image_items hw lba) (\<lambda>_. bnd (reset_peripherals hw) (\<lambda>_. boot_kernel hw))))) s1
      (boot_spec sp (IMAGE_PARTITION cfg)) 0 (\<lambda>_ _ _. True)"
    unfolding boot_spec_def
    apply (rule meets_bnd [OF meets_load_mbr [OF assms(1) s1(2)]], intro upward_rules upward_specs, elim conjE, simp only:)
    apply (rule meets_bnd, rule meets_load_image_head [OF assms(1)], assumption+, intro upward_rules upward_specs, elim conjE exE, simp only:)
    apply (rule meets_bnd, rule meets_load_image_items [OF assms(1)], assumption, intro upward_rules, elim exE, rule fin, assumption)
    done
  ultimately show ?thesis by (rule meets_eq [OF _ refl])
qed

text \<open>
  C1. The boot refines its specification on disks: on a board that behaves as documented, whatever
  the card holds, \<^verbatim>\<open>c_entry()\<close> ends in the kernel, in an error code or in undefined behaviour
  exactly as \<open>boot_spec\<close> reads off the words of the disk, as long as the blocks it looks at can
  be addressed on the card.
\<close>

theorem boot_refines_spec:
  assumes "pi_like hw view msg sp" and "take_bit 16 (spec_rca sp) = spec_rca sp"
    and "boot_spec sp (IMAGE_PARTITION cfg) 0 = (r, n)" and "within_card (spec_hc sp) n"
  shows "\<exists>t. c_entry hw cfg s = (r, t)"
  using c_entry_meets [OF assms(1,2), of cfg s] assms(3,4) by (cases r) (simp_all add: meets_def)

end
