(* ===== verification/Boot_Properties.thy ===== *)
theory Boot_Properties
  imports Image_Roundtrip Boot_Spec
begin

unbundle bit_operations_syntax

text \<open>
  Properties of the whole boot: what it leaves alone, how it fails, and the cases in which its
  checks go wrong.
\<close>

section \<open>The record of the card\<close>

lemma guar_c_entry:
  assumes "guar R (install_vector_table cfg)" and "guar R (init_peripherals hw)" and "guar R (load_mbr hw cfg)"
    and "\<And>a. guar R (load_image_head hw cfg a)" and "\<And>lba. guar R (load_image_items hw lba)"
    and "guar R (reset_peripherals hw)" and "guar R (boot_kernel hw)" and "run_relation R"
  shows "guar R (c_entry hw cfg)"
  unfolding c_entry_def by (intro run_relation.guar_bnd [OF assms(8)] assms)

lemma keeps_card_wf_boot: "guar keeps_card_wf (c_entry hw cfg)"
proof (rule guar_c_entry)
  show "guar keeps_card_wf (install_vector_table cfg)"
    unfolding install_vector_table_def by (rule keeps_card_wf.guar_modify) (simp add: keeps_card_wf_def)
  show "guar keeps_card_wf (boot_kernel hw)"
    unfolding boot_kernel_def by (intro keeps_card_wf.guar_rules keeps_card_wf.guar_serial_log)
qed (rule keeps_card_wf.guar_peripherals keeps_card_wf.guar_loads keeps_card_wf.run_relation_axioms)+

lemma keeps_card_wfD: "guar keeps_card_wf m \<Longrightarrow> card_wf (sdcard s) \<Longrightarrow> card_wf (sdcard (snd (m s)))"
  by (simp add: guar_def keeps_card_wf_def)

text \<open>
  The driver's record of the card is well typed, whatever the hardware answers and however the
  operations end: the relative card address never outgrows the 16 bits it has in a command,
  and the recorded state is always one of the five from idle to transfer.
\<close>

lemma card_record_typed:
  assumes "card_wf (sdcard s)"
  shows "card_wf (sdcard (snd (sd_init hw s)))" "card_wf (sdcard (snd (sd_read_blocks hw a lba n s)))"
    "card_wf (sdcard (snd (sd_reset hw s)))" "card_wf (sdcard (snd (c_entry hw cfg s)))"
  by (simp_all add: keeps_card_wfD [OF _ assms] keeps_card_wf.guar_reads keeps_card_wf.guar_sd_init
      keeps_card_wf.guar_sd_reset keeps_card_wf_boot)

section \<open>What the boot leaves alone\<close>

lemma mcopy_frame:
  assumes "nat n \<le> unat (x - dest)"
  shows "mcopy src dest n m x = m x"
proof -
  have "k \<le> nat n \<Longrightarrow> fold (\<lambda>i m. m(dest + of_nat i := m (src + of_nat i))) [0..<k] m x = m x" for k
  proof (induction k)
    case (Suc k)
    have "x \<noteq> dest + of_nat k"
    proof
      assume "x = dest + of_nat k"
      then have "unat (x - dest) = take_bit 32 k" by (simp add: unat_of_nat take_bit_eq_mod)
      then show False using Suc.prems assms take_bit_nat_less_eq_self [of 32 k] by linarith
    qed
    then show ?case using Suc by simp
  qed simp
  then show ?thesis by (simp add: mcopy_def)
qed

lemma load_image_items_frame:
  assumes "load_image_items hw lba s = (Ret (), t)" and "unat x < 0x1fffff8"
  shows "ram t x = ram s x"
  using assms(1)
proof (rule load_image_itemsE)
  have keep: "ram v x = ram u x" if "load_item hw want a b u = (Ret c, v)" "0x1fffff8 \<le> unat a" "unat a \<le> 2 ^ 31" for want a b u c v
    using load_item_frame [OF that(1)] that(2,3) assms(2) by (auto intro!: ram_write_below)
  fix s1 s2 s3 s4
  assume k: "load_item hw ITEM_ID_KERNEL kern_item (lba + 1) s = (Ret kern_item, s1)" "ram s2 = ram s1"
    and d: "load_item hw ITEM_ID_DEVICE_TREE_BLOB dtb_item (next_lba (lba + 1) kern_item (ram s1)) s2 = (Ret dtb_item, s3)" "ram s4 = ram s3"
    and e: "load_item hw ITEM_ID_END heap_get_base_address (next_lba (next_lba (lba + 1) kern_item (ram s1)) dtb_item (ram s3)) s4 =
      (Ret heap_get_base_address, t)"
  show ?thesis using keep [OF k(1)] keep [OF d(1)] keep [OF e] k(2) d(2) by (simp add: addrmap_defs image_defs)
qed

text \<open>
  C6. The loader does not overwrite itself: if the VideoCore writes nothing below the property
  buffer, then in a boot that reaches the kernel every byte between the end of the vector table
  and the start of the kernel item, which is where the linker puts the bootloader and the entry code its stacks, is what it was
  at the entry.
\<close>

theorem loader_untouched:
  assumes "c_entry hw cfg s = (Boot k, t)" and "vc_in_heap hw"
    and "sint (vector_table_pool_end cfg - vector_table cfg) \<le> int (unat x)" and "unat x < 0x1fffff8"
  shows "ram t x = ram s x"
  using assms(1)
proof (rule c_entry_bootE)
  fix s1 s2 s3 s4 mbr lba
  let ?s = "s\<lparr>ram := mcopy (vector_table cfg) 0x0 (sint (vector_table_pool_end cfg - vector_table cfg)) (ram s)\<rparr>"
  assume i: "init_peripherals hw ?s = (Ret (), s1)" and m: "load_mbr hw cfg s1 = (Ret mbr, s2)"
    and h: "load_image_head hw cfg mbr s2 = (Ret lba, s3)" and l: "load_image_items hw lba s3 = (Ret (), s4)"
    and t: "ram t = ram s4"
  have "ram s4 x = ram s3 x" by (rule load_image_items_frame [OF l assms(4)])
  also have "ram s3 x = ram s2 x"
    using load_image_head_frame [OF h] assms(4) by (auto intro!: ram_write_below simp: addrmap_defs)
  also have "ram s2 x = ram s1 x"
    using load_mbr_frame [OF m] assms(4) by (auto intro!: ram_write_below simp: addrmap_defs)
  also have "ram s1 x = ram ?s x"
  proof -
    have "same_except heap_area ?s s1"
      by (rule guarD [OF init_relation.guar_peripherals(1) [OF same_except_init [OF assms(2)]] i])
    moreover have "x \<notin> heap_area" using assms(4) by (simp add: heap_area_def HEAP_RAM_ADDR_def)
    ultimately show ?thesis unfolding same_except_def by blast
  qed
  also have "ram ?s x = ram s x" using mcopy_frame [of _ x 0] assms(3) by (simp add: nat_le_iff)
  finally show ?thesis by (simp only: t)
qed

lemma vc_answer_in_heap: "vc_in_heap (pi_board sp fuel)"
proof -
  have "vc_answer m x = m x" if "x \<notin> heap_area" for m x
  proof -
    have x: "unat x < unat (HEAP_RAM_ADDR + of_nat j)" if "j \<le> 20" for j
    proof -
      have "unat (HEAP_RAM_ADDR + of_nat j) = unat HEAP_RAM_ADDR + j"
        using that by (simp add: HEAP_RAM_ADDR_def unat_word_ariths unat_of_nat_lt)
      then show ?thesis using \<open>x \<notin> heap_area\<close> by (simp add: heap_area_def)
    qed
    have len: "length (vc_bytes tid arg) \<le> 20" for tid arg by (simp add: vc_reply_def length_words)
    show ?thesis
      unfolding vc_answer_def Let_def
      using x [of 4] x [of 16] x [of 20] len by (subst ram_write_below, simp, simp add: HEAP_RAM_ADDR_def le_trans [OF len])+ simp
  qed
  then show ?thesis by (simp add: vc_in_heap_def pi_board_def)
qed

lemma tiny_boots:
  "\<exists>k t. c_entry (pi_board tiny_card 1) tiny_build (blank_machine fresh_board) = (Boot k, t)"
proof -
  have e: "replicate 4 tiny_entry ! nat (IMAGE_PARTITION tiny_build - 1) = tiny_entry"
    "part_lba tiny_entry = 1" "part_nblks tiny_entry = 4"
    by (simp_all add: tiny_build_def tiny_entry_def)
  have "take_bit 16 (spec_rca tiny_card) = spec_rca tiny_card" by (simp add: tiny_card_def)
  moreover have "1 \<le> IMAGE_PARTITION tiny_build" "IMAGE_PARTITION tiny_build \<le> 4" by (simp_all add: tiny_build_def)
  moreover have "image_size tiny_kernel tiny_dtb tiny_pad \<le> 512 * unat (4 :: u32)" by (simp add: image_size_def tiny_lengths)
  ultimately show ?thesis
    using c_entry_boots [OF pi_board_like [of 1 tiny_card] _ tiny_partitioned, where cfg = tiny_build and pad = tiny_pad
        and k = tiny_kernel and d = tiny_dtb and e = tiny_pad and s = "blank_machine fresh_board", unfolded e] tiny_bootable
    by auto
qed

theorem loader_untouched_witness:
  "\<exists>k t. c_entry (pi_board tiny_card 1) tiny_build (blank_machine fresh_board) = (Boot k, t) \<and>
    ram t 0x8000 = ram (blank_machine fresh_board) 0x8000"
proof -
  obtain k t where t: "c_entry (pi_board tiny_card 1) tiny_build (blank_machine fresh_board) = (Boot k, t)"
    using tiny_boots by blast
  from loader_untouched [OF this vc_answer_in_heap, of "0x8000"] t show ?thesis by (auto simp: tiny_build_def)
qed

text \<open>The boot of the concrete board.\<close>

theorem boot_only_validated_witness:
  "\<exists>k t. c_entry (pi_board tiny_card 1) tiny_build (blank_machine fresh_board) = (Boot k, t) \<and>
    ram_get32 (ram t) 0x2000024 = 0x016F2818 \<and> cstate (sdcard t) = CARD_STATE_IDLE \<and>
    boot_checks (pi_board tiny_card 1) tiny_build (blank_machine fresh_board) t"
proof -
  obtain k t where t: "c_entry (pi_board tiny_card 1) tiny_build (blank_machine fresh_board) = (Boot k, t)"
    using tiny_boots by blast
  then show ?thesis using boot_only_validated [OF t] by blast
qed

section \<open>How the boot fails\<close>

theorem boot_refines_spec_witness:
  "\<exists>t. c_entry (pi_board (tiny_card\<lparr>spec_disk := \<lambda>_. 0\<rparr>) 1) tiny_build (blank_machine fresh_board) = (Signal ERROR_NO_MBR_MAGIC, t)"
proof -
  let ?sp = "tiny_card\<lparr>spec_disk := \<lambda>_. 0\<rparr>"
  have "boot_spec ?sp (IMAGE_PARTITION tiny_build) 0 = (Signal ERROR_NO_MBR_MAGIC, 1)"
    by (simp add: boot_spec_def mbr_spec_def sees_def demand_def bnd_def run_simps)
  then show ?thesis
    using boot_refines_spec [OF pi_board_like [of 1 ?sp], of tiny_build "Signal ERROR_NO_MBR_MAGIC" 1 "blank_machine fresh_board"]
    by (simp add: tiny_card_def within_card_def)
qed

text \<open>The record and the head of the image are in order: the partition starts at \<open>lba\<close>.\<close>

definition head_found :: "sd_spec \<Rightarrow> int \<Rightarrow> u32 \<Rightarrow> u32 \<Rightarrow> u32 \<Rightarrow> bool" where
  "head_found sp p lba nblks imgsz \<longleftrightarrow>
     spec_disk sp 510 = 0x55 \<and> spec_disk sp 511 = 0xaa \<and> 1 \<le> p \<and> p \<le> 4 \<and>
     card_word sp 0 (446 + 16 * nat (p - 1) + 8) = lba \<and> card_word sp 0 (446 + 16 * nat (p - 1) + 12) = nblks \<and>
     card_word sp lba 0 = IMG_MAGIC \<and> card_word sp lba 4 = imgsz \<and>
     take_bit 16 (spec_rca sp) = spec_rca sp"

lemma boot_spec_head:
  assumes "head_found sp p lba nblks imgsz"
  shows "boot_spec sp p 0 = (if nblks * 512 < imgsz then (Signal ERROR_IMAGE_OVERFLOW, unat lba + 1)
    else bnd (items_spec sp lba) (\<lambda>_. stop (Boot \<lparr>reg_r0 = 0, reg_r1 = 0xffffffff, reg_r2 = 0x8000000, reg_pc = 0x2000000\<rparr>)) (unat lba + 1))"
  using assms
  by (simp add: head_found_def boot_spec_def mbr_spec_def head_spec_def sees_def demand_def bnd_def run_simps not_le)

text \<open>
  C19. The check of the image size against the partition is made in 32 bits, so a partition whose
  size in bytes is a multiple of 4 GiB, 0 modulo \<open>2 ^ 32\<close>, is taken to be empty: the boot ends in
  \<^verbatim>\<open>ERROR_IMAGE_OVERFLOW\<close> whatever image the partition holds.
\<close>

theorem large_partition_refused:
  assumes "pi_like hw view msg sp" and "head_found sp (IMAGE_PARTITION cfg) lba nblks imgsz"
    and "512 * unat nblks mod 2 ^ 32 < unat imgsz" and "within_card (spec_hc sp) (unat lba + 1)"
  shows "\<exists>t. c_entry hw cfg s = (Signal ERROR_IMAGE_OVERFLOW, t)"
proof -
  have "unat (nblks * 512) = 512 * unat nblks mod 2 ^ 32" by (simp add: unat_word_ariths mult.commute)
  then have "nblks * 512 < imgsz" using assms(3) by (simp add: word_less_nat_alt)
  then have "boot_spec sp (IMAGE_PARTITION cfg) 0 = (Signal ERROR_IMAGE_OVERFLOW, unat lba + 1)"
    using boot_spec_head [OF assms(2)] by simp
  then show ?thesis
    using c_entry_meets [OF assms(1), of cfg s] assms(2,4) by (simp add: meets_def head_found_def)
qed

text \<open>
  C20. An item of another kind where the kernel is expected is refused with \<^verbatim>\<open>ERROR_IMAGE_CONTENTS\<close> only
  when its identifier is one the format knows. For every other value the error message asks
  \<^verbatim>\<open>stritem()\<close> for its name, which falls off the end of the function: the behaviour is
  undefined.
\<close>

theorem unknown_item_undefined:
  assumes "pi_like hw view msg sp" and "head_found sp (IMAGE_PARTITION cfg) lba nblks imgsz" and "imgsz \<le> nblks * 512"
    and "within_card (spec_hc sp) (max (unat lba + 1) (unat (lba + 1) + 1))"
    and "card_word sp (lba + 1) 0 = v" and "v \<noteq> item_id_value ITEM_ID_KERNEL"
  shows "\<exists>t. c_entry hw cfg s =
    (if v = item_id_value ITEM_ID_END \<or> v = item_id_value ITEM_ID_DEVICE_TREE_BLOB then Signal ERROR_IMAGE_CONTENTS else Undef, t)"
proof -
  have "boot_spec sp (IMAGE_PARTITION cfg) 0 = (if v \<in> set known_ids then Signal ERROR_IMAGE_CONTENTS else Undef,
      max (unat lba + 1) (unat (lba + 1) + 1))"
    unfolding boot_spec_head [OF assms(2)] using assms(3,5,6)
    by (simp add: items_spec_def item_spec_def Let_def sees_def bnd_def run_simps not_less)
  then show ?thesis
    using c_entry_meets [OF assms(1), of cfg s] assms(2,4,6)
    by (auto simp: meets_def head_found_def known_ids_def split: if_splits)
qed

section \<open>Cards that show it\<close>

lemma partition_words:
  assumes "partitioned sp code entries" and "1 \<le> p" and "p \<le> 4"
  shows "card_word sp 0 (446 + 16 * nat (p - 1) + 8) = part_lba (entries ! nat (p - 1))"
    and "card_word sp 0 (446 + 16 * nat (p - 1) + 12) = part_nblks (entries ! nat (p - 1))"
    and "spec_disk sp 510 = 0x55 \<and> spec_disk sp 511 = 0xaa"
proof -
  have w: "mbr_wf code entries" and d: "disk_bytes (spec_disk sp) 0 512 = mbr_bytes code entries"
    using assms(1) by (simp_all add: partitioned_def)
  note f = mbr_fields [OF w assms(2,3), of heap_get_base_address "\<lambda>_. 0", folded d]
  show "card_word sp 0 (446 + 16 * nat (p - 1) + 8) = part_lba (entries ! nat (p - 1))"
    "card_word sp 0 (446 + 16 * nat (p - 1) + 12) = part_nblks (entries ! nat (p - 1))"
    "spec_disk sp 510 = 0x55 \<and> spec_disk sp 511 = 0xaa"
    using mbr_words(2,3) [OF assms(2,3), of "\<lambda>_. 0" sp] mbr_words(1) [of "\<lambda>_. 0" sp] f by (simp_all only:)
qed

definition card_with :: "u32 \<Rightarrow> u8 list \<Rightarrow> sd_spec" where
  "card_with nblks bs = tiny_card\<lparr>spec_disk :=
     disk_of (mbr_bytes (replicate 446 0) (replicate 4 \<lparr>part_head = replicate 8 0, part_lba = 1, part_nblks = nblks\<rparr>) @ bs)\<rparr>"

lemma card_with_word:
  assumes "take 4 (drop k bs) = bytes32 w" and "k + 4 \<le> length bs"
  shows "disk_word (spec_disk (card_with nblks bs)) (512 + k) = w"
proof -
  have wf: "mbr_wf (replicate 446 0) (replicate 4 \<lparr>part_head = replicate 8 0, part_lba = 1, part_nblks = nblks\<rparr>)"
    by (simp add: mbr_wf_def)
  have "disk_bytes (spec_disk (card_with nblks bs)) (512 + k) 4 = bytes32 w"
    using assms length_mbr [OF wf] by (simp add: card_with_def disk_of_bytes)
  then have "ram_get32 (ram_write (\<lambda>_. 0) 0 (disk_bytes (spec_disk (card_with nblks bs)) (512 + k) 4)) (0 + of_nat 0) = w"
    by (intro ram_get32_within) simp_all
  then show ?thesis using loaded_word [of 0 4 "\<lambda>_. 0" 0 "spec_disk (card_with nblks bs)" "512 + k"] by simp
qed

lemma card_with_head:
  assumes "take 8 bs = bytes32 IMG_MAGIC @ bytes32 imgsz" and "8 \<le> length bs"
  shows "head_found (card_with nblks bs) 1 1 nblks imgsz"
proof -
  let ?es = "replicate 4 \<lparr>part_head = replicate 8 0, part_lba = 1, part_nblks = nblks\<rparr>"
  have wf: "mbr_wf (replicate 446 0) ?es" by (simp add: mbr_wf_def)
  have p: "partitioned (card_with nblks bs) (replicate 446 0) ?es"
    using wf length_mbr [OF wf] by (simp add: partitioned_def card_with_def disk_of_bytes)
  have "take 4 (drop 0 bs) = take 4 (take 8 bs)" "take 4 (drop 4 bs) = drop 4 (take 8 bs)" by (simp_all add: drop_take)
  then have "take 4 (drop 0 bs) = bytes32 IMG_MAGIC" "take 4 (drop 4 bs) = bytes32 imgsz" unfolding assms(1) by simp_all
  from this [THEN card_with_word] assms(2) partition_words [OF p, of 1] show ?thesis
    by (simp add: head_found_def card_word_def card_with_def tiny_card_def)
qed

theorem large_partition_refused_witness:
  "\<exists>t. c_entry (pi_board (card_with 0x800000 (bytes32 IMG_MAGIC @ bytes32 2048)) 1) tiny_build (blank_machine fresh_board) =
    (Signal ERROR_IMAGE_OVERFLOW, t)"
proof -
  let ?sp = "card_with 0x800000 (bytes32 IMG_MAGIC @ bytes32 2048)"
  have "head_found ?sp (IMAGE_PARTITION tiny_build) 1 0x800000 2048"
    using card_with_head [of "bytes32 IMG_MAGIC @ bytes32 2048"] by (simp add: tiny_build_def)
  from large_partition_refused [OF pi_board_like [of 1] this] show ?thesis
    by (simp add: card_with_def tiny_card_def within_card_def)
qed

theorem unknown_item_undefined_witness:
  "\<exists>t. c_entry (pi_board (card_with 4 (bytes32 IMG_MAGIC @ bytes32 2048 @ replicate 504 0 @ bytes32 0xbad)) 1) tiny_build
     (blank_machine fresh_board) = (Undef, t)"
proof -
  let ?bs = "bytes32 IMG_MAGIC @ bytes32 2048 @ replicate 504 0 @ bytes32 0xbad"
  have h: "head_found (card_with 4 ?bs) (IMAGE_PARTITION tiny_build) 1 4 2048"
    using card_with_head [of ?bs] by (simp add: tiny_build_def)
  have "card_word (card_with 4 ?bs) (1 + 1) 0 = 0xbad"
    using card_with_word [of 512 ?bs "0xbad" 4] by (simp add: card_word_def)
  from unknown_item_undefined [OF pi_board_like [of 1] h _ _ this] show ?thesis
    by (simp add: card_with_def tiny_card_def within_card_def)
qed

end
