(* ===== verification/Init_Order.thy ===== *)
theory Init_Order
  imports Frames
begin

unbundle bit_operations_syntax

text \<open>
  The commands that an initialisation gives to the card, in their order and with their
  arguments, whatever the hardware does: the flow of the SD specification from the idle state
  to the transfer state.
\<close>

section \<open>Commands given\<close>

fun written :: "bus_event \<Rightarrow> u32 list" where
  "written (Wr a v) = [v]"
| "written (Rd a v) = []"

text \<open>The words written to the command register, in their order.\<close>

definition commands_given :: "'d machine \<Rightarrow> u32 list" where
  "commands_given s = concat (map written (history {sd_reg CMDTM} s))"

text \<open>The orders: the writes of arguments and of command words, in their order.\<close>

definition order_regs :: "addr set" where
  "order_regs = {sd_reg ARG1, sd_reg CMDTM}"

abbreviation orders :: "'d machine \<Rightarrow> bus_event list" where
  "orders \<equiv> history order_regs"

definition words_of :: "bus_event list \<Rightarrow> u32 list" where
  "words_of es = concat (map written (filter (\<lambda>e. event_addr e = sd_reg CMDTM) es))"

lemma words_of_append [simp]: "words_of (xs @ ys) = words_of xs @ words_of ys"
  by (simp add: words_of_def)

lemma words_of_Nil [simp]: "words_of [] = []"
  by (simp add: words_of_def)

lemma words_of_issue [simp]: "words_of (issue_events idx args) = [command_word idx]"
  by (simp add: words_of_def issue_events_def)

lemma commands_given_orders: "commands_given s = words_of (orders s)"
  by (simp add: commands_given_def words_of_def history_def order_regs_def rev_filter filter_filter conj_commute cong: conj_cong)

lemma orders_cmd_history: "orders s = filter (\<lambda>e. event_addr e \<in> order_regs) (cmd_history s)"
  by (auto simp: history_def cmd_regs_set_def order_regs_def rev_filter intro!: filter_cong)

lemma orders_issue: "filter (\<lambda>e. event_addr e \<in> order_regs) (issue_events idx args) = issue_events idx args"
  by (simp add: issue_events_def order_regs_def)

text \<open>No order is given and the record of the card is kept.\<close>

definition quiet :: "'d machine \<Rightarrow> 'd machine \<Rightarrow> bool" where
  "quiet s t \<longleftrightarrow> orders t = orders s \<and> sdcard t = sdcard s"

lemma sd_reg_order: "sd_reg r \<in> order_regs \<longleftrightarrow> r \<in> {ARG1, CMDTM}"
  by (auto simp: order_regs_def)

interpretation quiet: ram_free_relation quiet hw order_regs for hw :: "'d hw"
  by unfold_locales (auto simp: quiet_def sd_reg_page order_regs_def)

interpretation quiet: host_relation quiet hw order_regs for hw :: "'d hw"
  by unfold_locales (simp_all add: sd_reg_order)

section \<open>Partial correctness\<close>

definition leads :: "('s, 'a) prog \<Rightarrow> 's \<Rightarrow> ('a \<Rightarrow> 's \<Rightarrow> bool) \<Rightarrow> bool" where
  "leads m s Q \<longleftrightarrow> (\<forall>x t. m s = (Ret x, t) \<longrightarrow> Q x t)"

lemma leads_bnd: "leads m s P \<Longrightarrow> (\<And>x t. P x t \<Longrightarrow> leads (f x) t Q) \<Longrightarrow> leads (bnd m f) s Q"
  by (auto simp: leads_def bnd_Ret_iff)

lemma leads_ret: "Q x s \<Longrightarrow> leads (ret x) s Q"
  by (simp add: leads_def run_simps)

lemma leads_if: "(b \<Longrightarrow> leads m s Q) \<Longrightarrow> (\<not> b \<Longrightarrow> leads n s Q) \<Longrightarrow> leads (if b then m else n) s Q"
  by simp

lemma leads_option:
  "(x = None \<Longrightarrow> leads m s Q) \<Longrightarrow> (\<And>y. x = Some y \<Longrightarrow> leads (f y) s Q) \<Longrightarrow> leads (case x of None \<Rightarrow> m | Some y \<Rightarrow> f y) s Q"
  by (cases x) simp_all

lemma leads_stop: "leads (stop r) s Q \<longleftrightarrow> (\<forall>x. r = Ret x \<longrightarrow> Q x s)"
  by (simp add: leads_def run_simps)

text \<open>The orders given so far are \<open>cs\<close>, and the driver's record of the card is \<open>cd\<close>.\<close>

definition told :: "bus_event list \<Rightarrow> card \<Rightarrow> 'd machine \<Rightarrow> bool" where
  "told cs cd s \<longleftrightarrow> orders s = cs \<and> sdcard s = cd"

lemma leads_quiet: "guar quiet m \<Longrightarrow> told cs cd s \<Longrightarrow> leads m s (\<lambda>_. told cs cd)"
  by (auto simp: leads_def told_def dest!: guarD simp: quiet_def)

lemma leads_set_card: "told cs cd s \<Longrightarrow> leads (set_card f) s (\<lambda>_. told cs (f cd))"
  by (simp add: leads_def told_def set_card_def run_simps)

abbreviation no_error :: "bus_event list \<Rightarrow> card \<Rightarrow> cmd_error \<Rightarrow> 'd machine \<Rightarrow> bool" where
  "no_error cs cd \<equiv> \<lambda>e t. e = CMD_ERROR_NONE \<longrightarrow> told cs cd t"

lemma leads_cmd: "told cs cd s \<Longrightarrow> leads (sd_issue_cmd hw idx args) s (no_error (cs @ issue_events idx args) cd)"
  unfolding leads_def
proof (intro allI impI)
  fix e t
  assume s: "told cs cd s" and r: "sd_issue_cmd hw idx args s = (Ret e, t)" and e: "e = CMD_ERROR_NONE"
  have "cmd_history t = cmd_history s @ issue_events idx args"
    using sd_issue_cmd_history [OF r] e by (simp add: refused_def)
  then have "orders t = orders s @ issue_events idx args"
    by (simp add: orders_cmd_history orders_issue)
  moreover have "sdcard t = sdcard s" using guarD [OF same_card.guar_sd_issue_cmd r] by (simp add: same_card_def)
  ultimately show "told (cs @ issue_events idx args) cd t" using s by (simp add: told_def)
qed

text \<open>Logging, reading a register and the timer are quiet.\<close>

lemma quiet_register:
  assumes "r \<notin> {ARG1, CMDTM}"
  shows "guar quiet (register_get hw sd_access r)" "guar quiet (register_get_out hw sd_access r)"
    "guar quiet (register_set hw sd_access r v)" "guar quiet (register_enable_bits hw sd_access r v)"
    "guar quiet (register_disable_bits hw sd_access r v)"
  using assms by (intro quiet.guar_access; simp add: sd_reg_order)+

lemma leads_error: "leads (bnd m (\<lambda>_. ret e)) s (no_error cs cd)" if "e \<noteq> CMD_ERROR_NONE"
  using that by (auto simp: leads_def bnd_Ret_iff run_simps)

abbreviation rca_arg_word :: "u32 \<Rightarrow> u32" where
  "rca_arg_word rca \<equiv> cast_ac_rca_args ((ac_rca_args_of 0)\<lparr>ac_rca := rca\<rparr>)"

definition acmd_events :: "cmd_index \<Rightarrow> u32 \<Rightarrow> u32 \<Rightarrow> bus_event list" where
  "acmd_events idx args rca = issue_events CMD_IDX_APP_CMD (rca_arg_word rca) @ issue_events idx args"

lemma leads_second:
  "told (cs @ issue_events CMD_IDX_APP_CMD (rca_arg_word rca)) cd s \<Longrightarrow>
     leads (sd_issue_cmd hw idx args) s (no_error (cs @ acmd_events idx args rca) cd)"
  using leads_cmd [of "cs @ issue_events CMD_IDX_APP_CMD (rca_arg_word rca)" cd s hw idx args] by (simp add: acmd_events_def)

lemma leads_acmd: "told cs cd s \<Longrightarrow> leads (sd_issue_acmd hw idx args rca) s (no_error (cs @ acmd_events idx args rca) cd)"
  unfolding sd_issue_acmd_def
  apply (rule leads_bnd, erule leads_cmd, rule leads_if, rule leads_ret, simp, simp)
  apply (rule leads_bnd, rule leads_quiet [OF quiet_register(2)], simp, assumption)
  apply (rule leads_if, rule leads_error, simp, rule leads_second, assumption)
  done

lemma leads_cmd8: "told cs cd s \<Longrightarrow> leads (sd_issue_cmd8 hw) s (no_error (cs @ issue_events CMD_IDX_SEND_IF_COND cmd8_args) cd)"
  unfolding sd_issue_cmd8_def
  apply (rule leads_bnd, erule leads_cmd, rule leads_if)
   apply (rule leads_bnd, rule leads_quiet [OF quiet_register(2)], simp, simp)
   apply (rule leads_if, rule leads_error, simp, rule leads_ret, simp)
  apply (rule leads_ret, simp)
  done

text \<open>ACMD41 is given at least twice: once to ask, and then until the card is powered up.\<close>

abbreviation op_conds :: "nat \<Rightarrow> bus_event list" where
  "op_conds n \<equiv> concat (replicate n (acmd_events ACMD_IDX_SD_SEND_OP_COND op_cond_args 0))"

lemma op_conds_snoc: "op_conds n @ acmd_events ACMD_IDX_SD_SEND_OP_COND op_cond_args 0 = op_conds (Suc n)"
  by (induction n) simp_all

definition powered_up :: "bus_event list \<Rightarrow> card \<Rightarrow> cmd_error \<times> bool option \<Rightarrow> 'd machine \<Rightarrow> bool" where
  "powered_up cs cd = (\<lambda>(e, ccs) t. e = CMD_ERROR_NONE \<longrightarrow> (\<exists>n. told (cs @ op_conds (Suc n)) cd t))"

lemma leads_acmd41_loop: "told (cs @ op_conds n) cd s \<Longrightarrow> leads (acmd41_loop hw ts i op_cond_args k) s (powered_up cs cd)"
proof (induction k arbitrary: s n i)
  case (Suc k)
  let ?Q = "powered_up cs cd"
  have nap: "leads (when_io (i \<noteq> 0) (sleep hw 20)) s (\<lambda>_. told (cs @ op_conds n) cd)"
    by (rule leads_quiet [OF _ Suc.prems]) (intro quiet.guar_rules quiet.guar_timer)
  show ?case
    unfolding acmd41_loop.simps
    apply (rule leads_bnd [OF nap], rule leads_bnd, erule leads_acmd, rule leads_if)
     apply (rule leads_ret, simp add: powered_up_def)
    apply (simp only: not_not append_assoc op_conds_snoc simp_thms)
    apply (rule leads_bnd, rule leads_quiet [OF quiet_register(1)], simp, assumption)
    apply (rule leads_if, rule leads_ret, unfold powered_up_def prod.case, blast)
    apply (rule leads_bnd, rule leads_quiet [OF quiet.guar_timer(2)], assumption)
    apply (rule leads_if, unfold powered_up_def [symmetric], erule Suc.IH)
    apply (rule leads_bnd, rule leads_quiet [OF quiet.guar_serial_log], assumption, rule leads_ret, simp add: powered_up_def)
    done
qed (simp add: leads_stop)

lemma leads_acmd41: "told cs cd s \<Longrightarrow> leads (sd_issue_acmd41 hw) s (powered_up (cs @ acmd_events ACMD_IDX_SD_SEND_OP_COND 0 0) cd)"
  unfolding sd_issue_acmd41_def
  apply (rule leads_bnd, erule leads_acmd, rule leads_if, rule leads_ret, simp add: powered_up_def)
  apply (rule leads_bnd, rule leads_quiet [OF quiet_register(1)], simp, simp)
  apply (simp only: simp_thms if_False and_zero_eq Let_def op_cond_args_def [symmetric])
  apply (rule leads_bnd, rule leads_quiet [OF quiet.guar_timer(1)], assumption)
  apply (rule leads_acmd41_loop [where n = 0], simp)
  done

lemma leads_any: "leads m s (\<lambda>_ _. True)"
  by (simp add: leads_def)

definition gave :: "bus_event list \<Rightarrow> card \<Rightarrow> ('a \<Rightarrow> bool) \<Rightarrow> cmd_error \<times> 'a \<Rightarrow> 'd machine \<Rightarrow> bool" where
  "gave cs cd P = (\<lambda>(e, x) t. e = CMD_ERROR_NONE \<longrightarrow> told cs cd t \<and> P x)"

lemma leads_error2: "leads (bnd m (\<lambda>_. ret (e, x))) s (gave cs cd P)" if "e \<noteq> CMD_ERROR_NONE"
  using that by (auto simp: leads_def bnd_Ret_iff run_simps gave_def)

lemma leads_cmd3:
  "told cs cd s \<Longrightarrow> leads (sd_issue_cmd3 hw) s (gave (cs @ issue_events CMD_IDX_SEND_RELATIVE_ADDR 0) cd (\<lambda>r. \<exists>v. r = Some v \<and> take_bit 16 v = v))"
  unfolding sd_issue_cmd3_def
  apply (rule leads_bnd, erule leads_cmd, rule leads_if)
   apply (rule leads_bnd, rule leads_quiet [OF quiet_register(2)], simp, simp)
   apply (rule leads_if, rule leads_error2, simp, rule leads_ret, simp add: gave_def getfld_rca)
  apply (rule leads_ret, simp add: gave_def)
  done

lemma leads_cmd7: "told cs cd s \<Longrightarrow> leads (sd_issue_cmd7 hw rca) s (no_error (cs @ issue_events CMD_IDX_SELECT_CARD (rca_arg_word rca)) cd)"
  unfolding sd_issue_cmd7_def by (rule leads_cmd)

lemma leads_cmd13: "told cs cd s \<Longrightarrow> leads (sd_issue_cmd13 hw rca) s (gave (cs @ issue_events CMD_IDX_SEND_STATUS (rca_arg_word rca)) cd (\<lambda>_. True))"
  unfolding sd_issue_cmd13_def
  apply (rule leads_bnd, erule leads_cmd, rule leads_if)
   apply (rule leads_bnd, rule leads_quiet [OF quiet_register(2)], simp, simp)
   apply (rule leads_ret, simp add: gave_def)
  apply (rule leads_ret, simp add: gave_def)
  done

lemma leads_wait: "told cs cd s \<Longrightarrow> leads (sd_wait_for_interrupt hw m) s (\<lambda>_. told cs cd)"
  by (rule leads_quiet, rule quiet.guar_wait) (simp_all add: sd_reg_order)

lemma leads_acmd51: "told cs cd s \<Longrightarrow> leads (sd_issue_acmd51 hw rca) s (gave (cs @ acmd_events ACMD_IDX_SD_SEND_SCR 0 rca) cd (\<lambda>_. True))"
  unfolding sd_issue_acmd51_def set_blkszcnt_def
  apply (rule leads_bnd, rule leads_quiet [OF quiet_register(3)], simp, assumption)
  apply (rule leads_bnd, erule leads_acmd, rule leads_if, rule leads_ret, simp add: gave_def)
  apply (rule leads_bnd, rule leads_wait, simp, rule leads_if, rule leads_ret, simp add: gave_def)
  apply (rule leads_bnd, rule leads_quiet [OF quiet_register(1)], simp, assumption)+
  apply (rule leads_bnd, erule leads_wait, rule leads_ret, simp add: gave_def)
  done

lemma leads_4bit:
  "told cs cd s \<Longrightarrow> leads (sd_set_4bit_data_bus_width hw rca) s
     (\<lambda>e t. e = SD_INIT_ERROR_NONE \<longrightarrow> told (cs @ acmd_events ACMD_IDX_SET_BUS_WIDTH (fld 0 2 2) rca) cd t)"
  unfolding sd_set_4bit_data_bus_width_def sd_issue_acmd6_def
  apply (rule leads_bnd, rule leads_quiet [OF quiet_register(1)], simp, assumption)
  apply (rule leads_bnd, rule leads_quiet [OF quiet_register(5)], simp, assumption)
  apply (simp only: if_True)
  apply (rule leads_bnd, erule leads_acmd, rename_tac e u)
  apply (case_tac "e = CMD_ERROR_NONE", simp_all)
   apply (rule leads_bnd, rule leads_quiet, rule quiet.guar_when, rule quiet_register(4), simp, assumption)
   apply (rule leads_bnd, rule leads_quiet [OF quiet_register(3)], simp, assumption, rule leads_ret, simp)
  apply (rule leads_bnd, rule leads_any, rule leads_bnd, rule leads_any, rule leads_ret, simp)
  done

section \<open>The flow of an initialisation\<close>

definition identify_events :: "nat \<Rightarrow> bus_event list" where
  "identify_events n = issue_events CMD_IDX_GO_IDLE_STATE 0 @ issue_events CMD_IDX_SEND_IF_COND cmd8_args @
     acmd_events ACMD_IDX_SD_SEND_OP_COND 0 0 @ op_conds (Suc n) @
     issue_events CMD_IDX_ALL_SEND_CID 0 @ issue_events CMD_IDX_SEND_RELATIVE_ADDR 0"

definition transfer_events :: "u32 \<Rightarrow> bool \<Rightarrow> bus_event list" where
  "transfer_events rca four = issue_events CMD_IDX_SELECT_CARD (rca_arg_word rca) @
     issue_events CMD_IDX_SEND_STATUS (rca_arg_word rca) @ acmd_events ACMD_IDX_SD_SEND_SCR 0 rca @
     (if four then acmd_events ACMD_IDX_SET_BUS_WIDTH (fld 0 2 2) rca else [])"

lemma leads_identify:
  assumes "told cs cd s"
  shows "leads (sd_card_init_and_identify hw) s (\<lambda>e t. e = SD_INIT_ERROR_NONE \<longrightarrow>
    (\<exists>n hc rca. take_bit 16 rca = rca \<and>
       told (cs @ identify_events n) (cd\<lparr>sdhc_or_sdxc := hc, card_rca := rca, cstate := CARD_STATE_STANDBY\<rparr>) t))"
proof -
  have fail: "leads (ret e) u (\<lambda>e t. e = SD_INIT_ERROR_NONE \<longrightarrow> Q e t)" if "e \<noteq> SD_INIT_ERROR_NONE" for e u Q
    using that by (intro leads_ret) simp
  show ?thesis
    unfolding sd_card_init_and_identify_def
    apply (rule leads_bnd, rule leads_set_card [OF assms], rule leads_bnd, erule leads_cmd, rule leads_if, rule fail, simp)
    apply (rule leads_bnd, rule leads_cmd8, simp, rule leads_if, rule fail, simp, rule leads_if, rule fail, simp)
    apply (rule leads_bnd, rule leads_acmd41, simp, unfold case_prod_beta, rule leads_if, rule fail, simp)
    apply (rule leads_option, rule fail, simp, rule leads_if, rule fail, simp)
    apply (simp add: powered_up_def split_beta, elim exE)
    apply (rule leads_bnd, erule leads_set_card, rule leads_bnd, erule leads_set_card)
    apply (rule leads_bnd, erule leads_cmd, rule leads_if, rule fail, simp)
    apply (rule leads_bnd, rule leads_set_card, simp)
    apply (rule leads_bnd, erule leads_cmd3, rename_tac n y u w v x t)
    apply (case_tac "fst x = CMD_ERROR_NONE")
     apply (simp add: gave_def split_beta, elim conjE exE, simp)
     apply (rule leads_bnd, erule leads_set_card, rule leads_bnd, erule leads_set_card, rule leads_ret, simp)
     apply (rule exI, rule exI, rule exI, rule conjI, assumption)
     apply (unfold identify_events_def, simp)
    apply (rule leads_bnd, rule leads_any, rule leads_if, rule fail, simp, simp)
    done
qed

lemma leads_init_transfer:
  assumes "told cs cd s"
  shows "leads (sd_init_transfer hw) s (\<lambda>e t. e = SD_INIT_ERROR_NONE \<longrightarrow>
    (\<exists>four c23. told (cs @ transfer_events (card_rca cd) four) (cd\<lparr>cstate := CARD_STATE_TRANSFER, cmd23_supported := c23\<rparr>) t))"
proof -
  have fail: "leads (ret e) u (\<lambda>e t. e = SD_INIT_ERROR_NONE \<longrightarrow> Q e t)" if "e \<noteq> SD_INIT_ERROR_NONE" for e u Q
    using that by (intro leads_ret) simp
  have failed: "leads (bnd m (\<lambda>_. ret e)) u (\<lambda>e t. e = SD_INIT_ERROR_NONE \<longrightarrow> Q e t)" if "e \<noteq> SD_INIT_ERROR_NONE" for e u Q m
    using that by (auto simp: leads_def bnd_Ret_iff run_simps)
  have get: "told cs' cd' u \<Longrightarrow> leads (gets f) u (\<lambda>_. told cs' cd')" for cs' cd' u f by (simp add: leads_def run_simps)
  have rca: "told cs' cd' u \<Longrightarrow> leads (gets (\<lambda>s. card_rca (sdcard s))) u (\<lambda>x t. x = card_rca cd' \<and> told cs' cd' t)"
    for cs' cd' u by (simp add: leads_def told_def run_simps)
  have width: "told cs' cd' u \<Longrightarrow> leads (if b then sd_set_4bit_data_bus_width hw rca else ret SD_INIT_ERROR_NONE) u
      (\<lambda>e t. e = SD_INIT_ERROR_NONE \<longrightarrow> (\<exists>four. told (cs' @ (if four then acmd_events ACMD_IDX_SET_BUS_WIDTH (fld 0 2 2) rca else [])) cd' t))"
    for cs' cd' u b rca
    using leads_4bit [of cs' cd' u hw rca] by (auto simp: leads_def run_simps intro: exI [of _ True] exI [of _ False])
  show ?thesis
    unfolding sd_init_transfer_def sd_enable_transfer_interrupts_def case_prod_beta
    apply (rule leads_bnd, rule leads_quiet [OF quiet.guar_host(3) assms], rule leads_bnd, erule rca)
    apply (elim conjE, hypsubst)
    apply (rule leads_bnd, erule leads_cmd7, rule leads_if, rule fail, simp)
    apply (rule leads_bnd, rule leads_cmd13, simp, rule leads_option, rule fail, simp, rule leads_if, rule fail, simp)
    apply (rule leads_if, rule failed, simp)
    apply (simp add: gave_def split_beta)
    apply (rule leads_bnd, erule leads_set_card, rule leads_bnd, erule leads_quiet [OF quiet.guar_host(4)])
    apply (rule leads_bnd, erule leads_acmd51, rule leads_if, rule fail, simp, simp add: gave_def split_beta split del: if_split)
    apply (rule leads_bnd, erule leads_set_card, rule leads_bnd, erule width, rule leads_if, rule leads_ret, simp)
    apply (simp split del: if_split, elim exE, rule leads_bnd, erule get, rule leads_bnd, erule leads_quiet [OF quiet.guar_serial_log], rule leads_ret)
    apply (rule impI, rule exI, rule exI, unfold transfer_events_def, simp split del: if_split)
    done
qed

lemma leads_sd_init:
  "leads (sd_init hw) s (\<lambda>e t. e = SD_INIT_ERROR_NONE \<longrightarrow> (\<exists>n four. 
     orders t = orders s @ identify_events n @ transfer_events (card_rca (sdcard t)) four \<and>
     cstate (sdcard t) = CARD_STATE_TRANSFER \<and> card_wf (sdcard t)))"
proof -
  have s: "told (orders s) (sdcard s) s" by (simp add: told_def)
  have fail: "leads (ret e) u (\<lambda>e t. e = SD_INIT_ERROR_NONE \<longrightarrow> Q e t)" if "e \<noteq> SD_INIT_ERROR_NONE" for e u Q
    using that by (intro leads_ret) simp
  have weaken: "leads m u P \<Longrightarrow> (\<And>x t. P x t \<Longrightarrow> Q x t) \<Longrightarrow> leads m u Q" for m u P Q by (auto simp: leads_def)
  show ?thesis
    unfolding sd_init_def sd_init_card_def
    apply (rule leads_bnd, rule leads_quiet [OF quiet.guar_serial_log s], rule leads_bnd, erule leads_set_card)
    apply (rule leads_bnd, erule leads_quiet [OF quiet.guar_pre_cmd_init], rule leads_bnd, erule leads_identify)
    apply (rule leads_if, rule fail, simp, simp, elim exE conjE, rule weaken, erule leads_init_transfer)
    apply (clarsimp simp: told_def card_wf_def less_eq_card_state_def, blast)
    done
qed

end
