(* ===== verification/Sd_Properties.thy ===== *)
theory Sd_Properties
  imports Boot_Properties Init_Order
begin

unbundle bit_operations_syntax

text \<open>
  Properties of the SD driver: its conversations with the card on any hardware, and its success on
  a controller and card that follow the reference.
\<close>

section \<open>Initialisation\<close>

lemma tiny_init:
  obtains t where "sd_init (pi_board tiny_card 1) (blank_machine fresh_board) = (Ret SD_INIT_ERROR_NONE, t)"
    and "resting board_ctl (known_card tiny_card CARD_STATE_TRANSFER) (ram t) t"
proof -
  have "take_bit 16 (spec_rca tiny_card) = spec_rca tiny_card" by (simp add: tiny_card_def)
  from gives_sd_init [OF pi_board_like this, of 1 "blank_machine fresh_board"] that card_ready_resting
  show ?thesis by (auto simp: gives_def)
qed

text \<open>
  C18. The initialisation succeeds on a card that follows the specification: the driver's record
  then agrees with the card about its capacity, its address and its support of CMD23, and the card is in the
  transfer state with the controller ready to take commands and data.
\<close>

theorem sd_init_succeeds:
  assumes "pi_like hw view msg sp" and "take_bit 16 (spec_rca sp) = spec_rca sp"
  shows "\<exists>t. sd_init hw s = (Ret SD_INIT_ERROR_NONE, t) \<and> cstate (sdcard t) = CARD_STATE_TRANSFER \<and>
    sdhc_or_sdxc (sdcard t) = spec_hc sp \<and> card_rca (sdcard t) = spec_rca sp \<and>
    cmd23_supported (sdcard t) = bit (spec_scr sp) 1 \<and> c_state (view (dev t)) = CARD_STATE_TRANSFER \<and> at_rest (view (dev t))"
proof -
  obtain t where t: "sd_init hw s = (Ret SD_INIT_ERROR_NONE, t)"
    "card_ready view 0x207 0x007f0023 (known_card sp CARD_STATE_TRANSFER) t"
    using gives_sd_init [OF assms] by (auto simp: gives_def)
  then show ?thesis using card_ready_resting [OF t(2)] by (auto simp: resting_def known_card_def at_rest_def)
qed

theorem sd_init_succeeds_witness:
  "\<exists>t. sd_init (pi_board tiny_card 1) (blank_machine fresh_board) = (Ret SD_INIT_ERROR_NONE, t) \<and>
    card_rca (sdcard t) = 0x1234 \<and> sdhc_or_sdxc (sdcard t)"
proof -
  have "take_bit 16 (spec_rca tiny_card) = spec_rca tiny_card" by (simp add: tiny_card_def)
  from sd_init_succeeds [OF pi_board_like this, of 1 "blank_machine fresh_board"] show ?thesis
    by (auto simp: tiny_card_def)
qed

lemma words_of_acmd: "words_of (acmd_events idx args rca) = [0x371a0000, command_word idx]"
  by (simp add: acmd_events_def command_words)

lemma words_of_op_conds: "words_of (op_conds n) = concat (replicate n [0x371a0000, 0x29020000])"
  by (induction n) (simp_all add: words_of_acmd command_words)

text \<open>
  C4. Whatever the hardware does, an initialisation that reports success has taken the card through
  the states of the specification in their order, with nothing else in between: CMD0, CMD8, the inquiry ACMD41 and
  then ACMD41 until the card was powered up, each announced by CMD55, CMD2, CMD3, CMD7,
  CMD13, ACMD51 and, for a four bit bus, ACMD6.
\<close>

theorem sd_init_command_flow:
  assumes "sd_init hw s = (Ret SD_INIT_ERROR_NONE, t)"
  shows "\<exists>n four. commands_given t = commands_given s @ [0, 0x081a0000] @
      concat (replicate (Suc (Suc n)) [0x371a0000, 0x29020000]) @
      [0x02090000, 0x031a0000, 0x071b0000, 0x0d1a0000, 0x371a0000, 0x333a0010] @
      (if four then [0x371a0000, 0x061a0000] else []) \<and>
    cstate (sdcard t) = CARD_STATE_TRANSFER \<and> card_wf (sdcard t)"
proof -
  have "words_of (identify_events n @ transfer_events r four) = [0, 0x081a0000] @
      concat (replicate (Suc (Suc n)) [0x371a0000, 0x29020000]) @
      [0x02090000, 0x031a0000, 0x071b0000, 0x0d1a0000, 0x371a0000, 0x333a0010] @
      (if four then [0x371a0000, 0x061a0000] else [])" for n four r
    by (cases four) (simp_all add: identify_events_def transfer_events_def words_of_acmd words_of_op_conds command_words)
  then show ?thesis using leads_sd_init [of hw s] assms
    by (fastforce simp: leads_def commands_given_orders simp del: append_assoc)
qed

theorem sd_init_command_flow_witness:
  "\<exists>t n four. sd_init (pi_board tiny_card 1) (blank_machine fresh_board) = (Ret SD_INIT_ERROR_NONE, t) \<and>
    commands_given t = commands_given (blank_machine fresh_board) @ [0, 0x081a0000] @
      concat (replicate (Suc (Suc n)) [0x371a0000, 0x29020000]) @
      [0x02090000, 0x031a0000, 0x071b0000, 0x0d1a0000, 0x371a0000, 0x333a0010] @
      (if four then [0x371a0000, 0x061a0000] else [])"
proof -
  obtain t where t: "sd_init (pi_board tiny_card 1) (blank_machine fresh_board) = (Ret SD_INIT_ERROR_NONE, t)"
    by (rule tiny_init)
  then show ?thesis using sd_init_command_flow [OF t] by blast
qed

text \<open>
  The writes that give commands to the card, each as its argument and its command word.
\<close>

definition order_writes :: "(u32 \<times> u32) list \<Rightarrow> bus_event list" where
  "order_writes os = concat (map (\<lambda>(arg, word). [Wr (sd_reg ARG1) arg, Wr (sd_reg CMDTM) word]) os)"

lemma order_writes_append: "order_writes (xs @ ys) = order_writes xs @ order_writes ys"
  by (simp add: order_writes_def)

lemma order_writes_replicate:
  "concat (replicate n (order_writes os)) = order_writes (concat (replicate n os))"
  by (induction n) (simp_all add: order_writes_def)

lemma rca_arg_push: "rca_arg_word r = push_bit 16 r"
  by (rule bit_word_eqI) (auto simp: cast_ac_rca_args_def ac_rca_args_of_def bit_or_iff bit_fld bit_push_bit_iff
      dest: bit_imp_le_length)

lemma order_literals: "cmd8_args = 0x1aa" "op_cond_args = 0x40ff8000" "fld 0 2 2 = 2"
  by (simp_all add: cmd8_args_def op_cond_args_def OCR_VDD_2V7_TO_3V6_def ACMD41_HOST_CAPACITY_SUPPORT_def BIT_def fld_def)

lemma identify_order_writes:
  "identify_events n = order_writes ([(0, 0), (0x1aa, 0x081a0000), (0, 0x371a0000), (0, 0x29020000)] @
     concat (replicate (Suc n) [(0, 0x371a0000), (0x40ff8000, 0x29020000)]) @ [(0, 0x02090000), (0, 0x031a0000)])"
proof -
  have acmd: "acmd_events ACMD_IDX_SD_SEND_OP_COND v 0 = order_writes [(0, 0x371a0000), (v, 0x29020000)]" for v
    by (simp add: acmd_events_def issue_events_def order_writes_def rca_arg_push command_words)
  show ?thesis
    unfolding identify_events_def acmd order_writes_replicate order_writes_append order_literals
    by (simp add: issue_events_def order_writes_def command_words)
qed

lemma transfer_order_writes:
  "transfer_events r four = order_writes ([(push_bit 16 r, 0x071b0000), (push_bit 16 r, 0x0d1a0000),
     (push_bit 16 r, 0x371a0000), (0, 0x333a0010)] @ (if four then [(push_bit 16 r, 0x371a0000), (2, 0x061a0000)] else []))"
  by (simp add: transfer_events_def acmd_events_def issue_events_def order_writes_def rca_arg_push command_words order_literals)

text \<open>
  C13. The argument that goes with each command of a successful initialisation, whatever the hardware answers:
  CMD8 the check pattern with the supply voltage, the inquiry ACMD41 an empty voltage window and the ones
  after it the full window with the support of high capacity; and CMD7, CMD13 and the CMD55 that announce
  ACMD51 and ACMD6 the relative address, in the upper half of the word, that the driver's record holds at the end,
  where no bit of it has been lost. All other arguments are zero, but for the bus width of ACMD6.
\<close>

theorem sd_init_arguments:
  assumes "sd_init hw s = (Ret SD_INIT_ERROR_NONE, t)"
  defines "rca \<equiv> push_bit 16 (card_rca (sdcard t))"
  shows "drop_bit 16 rca = card_rca (sdcard t) \<and>
    (\<exists>n four. orders t = orders s @ order_writes
      ([(0, 0), (0x1aa, 0x081a0000), (0, 0x371a0000), (0, 0x29020000)] @
       concat (replicate (Suc n) [(0, 0x371a0000), (0x40ff8000, 0x29020000)]) @
       [(0, 0x02090000), (0, 0x031a0000), (rca, 0x071b0000), (rca, 0x0d1a0000), (rca, 0x371a0000), (0, 0x333a0010)] @
       (if four then [(rca, 0x371a0000), (2, 0x061a0000)] else [])))"
proof -
  obtain n four where o: "orders t = orders s @ identify_events n @ transfer_events (card_rca (sdcard t)) four"
    and wf: "take_bit 16 (card_rca (sdcard t)) = card_rca (sdcard t)"
    using leads_sd_init [of hw s] assms(1) by (auto simp: leads_def card_wf_def)
  have "drop_bit 16 rca = take_bit 16 (card_rca (sdcard t))"
    unfolding rca_def rca_arg_push [symmetric] by (rule rca_arg)
  then show ?thesis
    using o unfolding wf identify_order_writes transfer_order_writes order_writes_append [symmetric] rca_def [symmetric] append_assoc
    by auto
qed

theorem sd_init_arguments_witness:
  "\<exists>t n four. sd_init (pi_board tiny_card 1) (blank_machine fresh_board) = (Ret SD_INIT_ERROR_NONE, t) \<and>
    orders t = orders (blank_machine fresh_board) @ order_writes
      ([(0, 0), (0x1aa, 0x081a0000), (0, 0x371a0000), (0, 0x29020000)] @
       concat (replicate (Suc n) [(0, 0x371a0000), (0x40ff8000, 0x29020000)]) @
       [(0, 0x02090000), (0, 0x031a0000), (0x12340000, 0x071b0000), (0x12340000, 0x0d1a0000), (0x12340000, 0x371a0000),
        (0, 0x333a0010)] @
       (if four then [(0x12340000, 0x371a0000), (2, 0x061a0000)] else []))"
proof -
  obtain t where t: "sd_init (pi_board tiny_card 1) (blank_machine fresh_board) = (Ret SD_INIT_ERROR_NONE, t)"
    and "sdcard t = known_card tiny_card CARD_STATE_TRANSFER"
    by (rule tiny_init) (simp add: resting_def)
  then have r: "push_bit 16 (card_rca (sdcard t)) = 0x12340000" by (simp add: known_card_def tiny_card_def)
  show ?thesis using sd_init_arguments [OF t] t unfolding r by blast
qed

section \<open>Commands\<close>

text \<open>
  C11. When a command is refused and what issuing it writes. If the status register says that the
  command line is taken, or the data line for a command that needs it, the error says so and
  nothing is written to the controller; otherwise the argument is written and then the command
  word, each once. RAM and the record of the card are left alone either way.
\<close>

theorem sd_issue_cmd_writes:
  assumes "sd_issue_cmd hw idx args s = (Ret e, t)" and "get_command idx = Some c"
  defines "v \<equiv> dev_read hw (sd_reg STATUS) s"
  shows "(e = CMD_ERROR_COMMAND_INHIBIT_CMD_BIT_SET \<longleftrightarrow> bit v 0) \<and>
    (e = CMD_ERROR_COMMAND_INHIBIT_DAT_BIT_SET \<longleftrightarrow>
       \<not> bit v 0 \<and> bit v 1 \<and> (cmdtype c = CMD_TYPE_ADTC \<or> response c = CMD_RESPONSE_R1B_NORMAL_BUSY)) \<and>
    cmd_history t = cmd_history s @
      (if e = CMD_ERROR_COMMAND_INHIBIT_CMD_BIT_SET \<or> e = CMD_ERROR_COMMAND_INHIBIT_DAT_BIT_SET then []
       else [Wr (sd_reg ARG1) args, Wr (sd_reg CMDTM) (cast_cmdtm (set_cmdtm c))]) \<and>
    ram t = ram s \<and> sdcard t = sdcard s"
proof -
  have c: "c = command_of idx" using assms(2) by (simp add: command_of_def)
  have b: "v AND STATUS_COMMAND_INHIBIT_CMD \<noteq> 0 \<longleftrightarrow> bit v 0" "v AND STATUS_COMMAND_INHIBIT_DAT \<noteq> 0 \<longleftrightarrow> bit v 1"
    by (simp_all add: STATUS_COMMAND_INHIBIT_CMD_def STATUS_COMMAND_INHIBIT_DAT_def and_BIT_eq_0)
  have frame: "ram t = ram s" "sdcard t = sdcard s"
    using guarD [OF same_ram.guar_sd_issue_cmd assms(1)] guarD [OF same_card.guar_sd_issue_cmd assms(1)]
    by (simp_all add: same_ram_def same_card_def)
  from assms(1) show ?thesis
  proof (cases rule: sd_issue_cmdE)
    case cmd
    then show ?thesis using frame b unfolding v_def [symmetric] by simp
  next
    case dat
    then show ?thesis using frame b unfolding v_def [symmetric] c by auto
  next
    case issued
    then show ?thesis using frame b unfolding v_def [symmetric] c by (auto simp: refused_def issue_events_def)
  qed
qed

theorem sd_issue_cmd_writes_witness:
  "\<exists>s t. sd_issue_cmd (pi_board tiny_card 1) CMD_IDX_GO_IDLE_STATE 0 s = (Ret CMD_ERROR_NONE, t) \<and>
    cmd_history t = cmd_history s @ [Wr (sd_reg ARG1) 0, Wr (sd_reg CMDTM) 0]"
proof -
  obtain s where s: "resting board_ctl (known_card tiny_card CARD_STATE_TRANSFER) (ram s) s" by (rule tiny_init)
  then have "takes_cmds (board_ctl (dev s))" "card_next tiny_card (c_state (board_ctl (dev s))) (c_app (board_ctl (dev s)))
      (cmd_number CMD_IDX_GO_IDLE_STATE) 0 = Some CARD_STATE_IDLE"
    by (simp_all add: resting_def at_rest_def card_next_def)
  from reaches_issue [OF pi_board_follows [of tiny_card 1] refl _ this] obtain t where
    t: "sd_issue_cmd (pi_board tiny_card 1) CMD_IDX_GO_IDLE_STATE 0 s = (Ret CMD_ERROR_NONE, t)"
    by (auto simp: pi_board_def elim: reachesE)
  have "get_command CMD_IDX_GO_IDLE_STATE = Some (command_of CMD_IDX_GO_IDLE_STATE)" using get_command_found by simp
  from sd_issue_cmd_writes [OF t this] t show ?thesis by (auto simp: command_words)
qed

text \<open>
  C21. How a wait for an interrupt ends is decided by the flags of one read of the interrupt register: none,
  and it has timed out; the error flag set, an error; another flag than the one waited
  for, unexpected; and success acknowledges exactly the flags that were read, also
  those that nobody has waited for yet.
\<close>

theorem wait_outcome:
  assumes "sd_wait_for_interrupt hw m s = (Ret e, t)"
  shows "\<exists>irpt u. sd_wait_for_any_interrupt hw s = (Ret irpt, u) \<and>
    e = (if irpt = 0 then CMD_ERROR_WAIT_FOR_INTERRUPT_TIMEOUT
         else if bit irpt 15 then CMD_ERROR_INTERRUPT_ERROR
         else if irpt AND m = 0 then CMD_ERROR_EXPECTED_INTERRUPT_NOT_TRIGGERED
         else CMD_ERROR_NONE) \<and>
    (e = CMD_ERROR_NONE \<longrightarrow> t = u \<and>
      (\<exists>v. irpt = dev_read hw (sd_reg INTERRUPT) v \<and>
        t = after_write hw (sd_reg INTERRUPT) irpt (after_read hw (sd_reg INTERRUPT) v)))"
  using assms
proof (rule wait_classifies)
  fix irpt u
  assume w: "sd_wait_for_any_interrupt hw s = (Ret irpt, u)"
    and e: "e = (if irpt = 0 then CMD_ERROR_WAIT_FOR_INTERRUPT_TIMEOUT else if bit irpt 15 then CMD_ERROR_INTERRUPT_ERROR
      else if irpt AND m = 0 then CMD_ERROR_EXPECTED_INTERRUPT_NOT_TRIGGERED else CMD_ERROR_NONE)"
    and t: "e = CMD_ERROR_NONE \<Longrightarrow> t = u"
  have "e = CMD_ERROR_NONE \<longrightarrow> t = u \<and> (\<exists>v. irpt = dev_read hw (sd_reg INTERRUPT) v \<and>
      t = after_write hw (sd_reg INTERRUPT) irpt (after_read hw (sd_reg INTERRUPT) v))"
  proof
    assume n: "e = CMD_ERROR_NONE"
    then have "irpt \<noteq> 0" using e by (auto split: if_splits)
    from wait_any_ends [OF w this] t [OF n] show "t = u \<and> (\<exists>v. irpt = dev_read hw (sd_reg INTERRUPT) v \<and>
      t = after_write hw (sd_reg INTERRUPT) irpt (after_read hw (sd_reg INTERRUPT) v))" by blast
  qed
  then show ?thesis using w e by blast
qed

theorem wait_outcome_witness:
  "\<exists>s t. sd_wait_for_interrupt (pi_board tiny_card 1) INTERRUPT_CMD_COMPLETE s = (Ret CMD_ERROR_NONE, t) \<and>
    (\<exists>irpt u. irpt \<noteq> 0 \<and> \<not> bit irpt 15 \<and>
      sd_wait_for_any_interrupt (pi_board tiny_card 1) s = (Ret irpt, u))"
proof -
  let ?s = "blank_machine ((fst fresh_board)\<lparr>c_irq := 1\<rparr>, snd fresh_board)"
  have "c_irq (board_ctl (dev ?s)) AND INTERRUPT_CMD_COMPLETE \<noteq> 0" "\<not> bit (c_irq (board_ctl (dev ?s))) 15"
    by (simp_all add: blank_machine_def INTERRUPT_CMD_COMPLETE_def BIT_def bit_1_iff)
  from reaches_wait [OF pi_board_follows [of tiny_card 1] refl _ this] obtain t where
    t: "sd_wait_for_interrupt (pi_board tiny_card 1) INTERRUPT_CMD_COMPLETE ?s = (Ret CMD_ERROR_NONE, t)"
    by (auto simp: pi_board_def elim: reachesE)
  from wait_outcome [OF t] t show ?thesis by (auto split: if_splits)
qed

text \<open>
  The loop of ACMD41 succeeds with the last operating conditions read; what it read before does not matter.
\<close>

lemma acmd41_loop_ends:
  "acmd41_loop hw ts i args k s = (Ret (CMD_ERROR_NONE, c), t) \<Longrightarrow>
     \<exists>u. t = after_read hw (sd_reg RESP0) u \<and> bit (dev_read hw (sd_reg RESP0) u) 31 \<and>
       c = Some (bit (dev_read hw (sd_reg RESP0) u) 30)"
proof (induction k arbitrary: s i)
  case (Suc k)
  then show ?case
    by (auto simp: bnd_Ret_iff run_simps OCR_CARD_POWER_UP_STATUS_def OCR_CARD_CAPACITY_STATUS_def and_BIT_eq_0
        split: if_splits)
qed (simp add: run_simps)

text \<open>
  C35. When ACMD41 succeeds, whatever the hardware is: it has given the inquiry and then, at least
  once, the ACMD41 that starts the power up, nothing else; the last thing done was to read the card's
  operating conditions, they say that the card is powered up, and the capacity reported is theirs.
  Their voltage window, for which the inquiry is made, plays no role.
\<close>

theorem acmd41_success:
  assumes "sd_issue_acmd41 hw s = (Ret (CMD_ERROR_NONE, capacity), t)"
  shows "\<exists>u n. t = after_read hw (sd_reg RESP0) u \<and>
    bit (dev_read hw (sd_reg RESP0) u) 31 \<and> capacity = Some (bit (dev_read hw (sd_reg RESP0) u) 30) \<and>
    orders t = orders s @ order_writes ([(0, 0x371a0000), (0, 0x29020000)] @
      concat (replicate (Suc n) [(0, 0x371a0000), (0x40ff8000, 0x29020000)]))"
proof -
  have acmd: "acmd_events ACMD_IDX_SD_SEND_OP_COND v 0 = order_writes [(0, 0x371a0000), (v, 0x29020000)]" for v
    by (simp add: acmd_events_def issue_events_def order_writes_def rca_arg_push command_words)
  have "told (orders s) (sdcard s) s" by (simp add: told_def)
  from leads_acmd41 [OF this, of hw] assms obtain n where
    "orders t = orders s @ acmd_events ACMD_IDX_SD_SEND_OP_COND 0 0 @ op_conds (Suc n)"
    by (auto simp: leads_def powered_up_def told_def)
  then have o: "orders t = orders s @ order_writes ([(0, 0x371a0000), (0, 0x29020000)] @
      concat (replicate (Suc n) [(0, 0x371a0000), (0x40ff8000, 0x29020000)]))"
    unfolding acmd order_writes_replicate order_writes_append order_literals .
  have "\<exists>u. t = after_read hw (sd_reg RESP0) u \<and> bit (dev_read hw (sd_reg RESP0) u) 31 \<and>
      capacity = Some (bit (dev_read hw (sd_reg RESP0) u) 30)"
    using assms unfolding sd_issue_acmd41_def
    by (auto simp: bnd_Ret_iff run_simps Let_def split: if_splits dest!: acmd41_loop_ends)
  with o show ?thesis by blast
qed

text \<open>A card whose operating conditions name no voltage but 3.2 to 3.4 V, and a board where it has just been reset.\<close>

definition narrow_card :: sd_spec where
  "narrow_card = tiny_card\<lparr>spec_ocr := 0\<rparr>"

theorem acmd41_success_witness:
  "\<exists>s t u. sd_issue_acmd41 (pi_board narrow_card 1) s = (Ret (CMD_ERROR_NONE, Some True), t) \<and>
    t = after_read (pi_board narrow_card 1) (sd_reg RESP0) u \<and> bit (dev_read (pi_board narrow_card 1) (sd_reg RESP0) u) 31 \<and>
    dev_read (pi_board narrow_card 1) (sd_reg RESP0) u AND OCR_VDD_2V7_TO_3V6 \<noteq> OCR_VDD_2V7_TO_3V6"
proof -
  let ?hw = "pi_board narrow_card 1"
  let ?s = "blank_machine ((fst fresh_board)\<lparr>c_ctl0 := 0x100, c_ctl1 := 5, c_mask := 1, c_state := CARD_STATE_IDLE\<rparr>, snd fresh_board)"
  have "live 5 1" by (simp add: live_def CONTROL1_INT_CLK_EN_def CONTROL1_CLK_EN_def INTERRUPT_CMD_COMPLETE_def BIT_def)
  moreover have "card_at board_ctl 5 1 CARD_STATE_IDLE False 0 0 (sdcard ?s) ?s"
    by (simp add: card_at_def blank_machine_def fresh_board_def)
  ultimately obtain t where t: "sd_issue_acmd41 ?hw ?s = (Ret (CMD_ERROR_NONE, Some (spec_hc narrow_card)), t)"
    and at: "card_at board_ctl 5 1 CARD_STATE_READY False 41 op_cond_args (sdcard ?s) t"
    using gives_acmd41 [OF pi_board_follows [of narrow_card 1]] pi_likeD(4) [OF pi_board_like [of 1 narrow_card]]
    by (fastforce simp: gives_def)
  from acmd41_success [OF t] obtain u where u: "t = after_read ?hw (sd_reg RESP0) u" "bit (dev_read ?hw (sd_reg RESP0) u) 31" by blast
  have "c_idx (board_ctl (dev u)) = 41"
    using at u(1) followsD [OF pi_board_follows [of narrow_card 1]] by (simp add: card_at_def ctl_read_def Let_def)
  then have "dev_read ?hw (sd_reg RESP0) u = 0xc0300000"
    using followsD [OF pi_board_follows [of narrow_card 1]]
    by (simp add: ctl_value_def card_resp_def narrow_card_def tiny_card_def)
  then have "dev_read ?hw (sd_reg RESP0) u AND OCR_VDD_2V7_TO_3V6 \<noteq> OCR_VDD_2V7_TO_3V6"
    by (simp add: OCR_VDD_2V7_TO_3V6_def)
  moreover have hc: "spec_hc narrow_card = True" by (simp add: narrow_card_def tiny_card_def)
  ultimately show ?thesis using t [unfolded hc] u by blast
qed

section \<open>Reads\<close>

text \<open>
  C5. A read refines copying a slice of the disk: on a controller and card that follow the reference, for every
  number of blocks that the card can address, in however many chunks and with whichever commands they are
  read, the read succeeds, RAM is changed by exactly the bytes of the blocks, and the
  controller is at rest again.
\<close>

theorem sd_read_refines_copy:
  assumes "follows hw view sp" and "0 < poll_fuel hw" and "sdhc_or_sdxc (sdcard s) = spec_hc sp" and "at_rest (view (dev s))"
    and "unat a mod 4 = 0" and "512 * n \<le> 2 ^ 32" and "within_card (spec_hc sp) (unat lba + n)"
  shows "\<exists>t. sd_read_blocks hw a lba (int n) s = (Ret True, t) \<and>
    ram t = ram_write (ram s) a (disk_bytes (spec_disk sp) (512 * unat lba) (512 * n)) \<and>
    sdcard t = sdcard s \<and> at_rest (view (dev t))"
proof -
  have "address_aligned a 4" using assms(5) unfolding address_aligned_4 .
  from read_blocks_ctl [OF assms(1-4) this assms(6,7)] show ?thesis unfolding sd_read_blocks_def reads_to_def .
qed

theorem sd_read_refines_copy_witness:
  "\<exists>s t. sd_read_blocks (pi_board tiny_card 1) 0x100000 1 4 s = (Ret True, t) \<and>
    ram t = ram_write (ram s) 0x100000 (disk_bytes tiny_disk 512 2048)"
proof -
  obtain s where "resting board_ctl (known_card tiny_card CARD_STATE_TRANSFER) (ram s) s" by (rule tiny_init)
  then have "sdhc_or_sdxc (sdcard s) = spec_hc tiny_card" "at_rest (board_ctl (dev s))"
    by (simp_all add: resting_def known_card_def)
  from sd_read_refines_copy [OF pi_board_follows [of tiny_card 1] _ this, of "0x100000" 4 1]
  have "\<exists>t. sd_read_blocks (pi_board tiny_card 1) 0x100000 1 4 s = (Ret True, t) \<and>
      ram t = ram_write (ram s) 0x100000 (disk_bytes (spec_disk tiny_card) 512 2048)"
    by (auto simp: pi_likeD(4) [OF pi_board_like] tiny_card_def within_card_def)
  then show ?thesis by (auto simp: tiny_card_def)
qed

text \<open>
  C17. What a read that reports success has done, whatever the hardware is: its conversation with the card is the
  planned one, CMD17 for one block, CMD23 and CMD18 for many or CMD17 for each where CMD23 is not supported, at most 65535 blocks
  at a time, and the words that were read from the data register, 128 for each block, are what RAM holds from the destination
  on, in their order; nothing else of RAM and nothing of the record of the card has changed.
\<close>

theorem sd_read_conversation:
  assumes "sd_read_blocks hw a lba (int n) s = (Ret True, t)" and "512 * n \<le> 2 ^ 32"
  shows "\<exists>ws. length ws = 128 * n \<and> cmd_history t = cmd_history s @ read_plan (sdcard s) lba n ws \<and>
    ram t = ram_write (ram s) a (words_bytes ws) \<and> sdcard t = sdcard s"
  using read_blocks_load [OF assms(1) [unfolded sd_read_blocks_def] assms(2)] unfolding loaded_def by blast

theorem sd_read_conversation_witness:
  "\<exists>s t ws. sd_read_blocks (pi_board tiny_card 1) 0x100000 1 4 s = (Ret True, t) \<and> length ws = 512 \<and>
    ram t = ram_write (ram s) 0x100000 (words_bytes ws)"
proof -
  obtain s where "resting board_ctl (known_card tiny_card CARD_STATE_TRANSFER) (ram s) s" by (rule tiny_init)
  from gives_read [OF pi_board_like this, of 1 "0x100000" 4 1] obtain t where
    t: "sd_read_blocks (pi_board tiny_card 1) 0x100000 1 (int 4) s = (Ret True, t)"
    by (auto simp: gives_def tiny_card_def within_card_def address_aligned_4)
  from sd_read_conversation [OF t] t show ?thesis by auto
qed

text \<open>
  A read writes to RAM nowhere but in the \<open>512 * n\<close> bytes from its destination on, even if it
  fails half way: the frame of each operation, for a set \<open>X\<close> of addresses that covers them.
\<close>

lemma confined_read_data: "(\<And>j. j < 4 * n \<Longrightarrow> a + of_nat j \<in> X) \<Longrightarrow> guar (same_except X) (read_data hw a n)"
proof (induction n arbitrary: a)
  case (Suc n)
  have word: "a \<in> X" "a + 1 \<in> X" "a + 2 \<in> X" "a + 3 \<in> X"
    using Suc.prems [of 0] Suc.prems [of 1] Suc.prems [of 2] Suc.prems [of 3] by simp_all
  have "a + 4 + of_nat j \<in> X" if "j < 4 * n" for j
    using Suc.prems [of "4 + j"] that by (simp add: add.assoc)
  moreover have "guar (same_except X) (modify (\<lambda>s. s\<lparr>ram := ram_set32 (ram s) a w\<rparr>))" for w
    using word by (intro same_except.guar_modify) (auto simp: same_except_def ram_set32_def)
  ultimately show ?case
    unfolding read_data.simps by (intro same_except.guar_bnd same_except.guar_bus Suc.IH) simp_all
qed (simp add: same_except.guar_rules)

lemma read_data_next: "returns (read_data hw a n) (\<lambda>b. b = a + of_nat (4 * n))"
proof (induction n arbitrary: a)
  case (Suc n)
  show ?case
    unfolding returns_def
  proof (intro allI impI)
    fix s b t assume "read_data hw a (Suc n) s = (Ret b, t)"
    then obtain u where "read_data hw (a + 4) n u = (Ret b, t)" by (auto simp: bnd_Ret_iff run_simps)
    then show "b = a + of_nat (4 * Suc n)" using Suc.IH [of "a + 4"] by (auto simp: returns_def algebra_simps)
  qed
qed (simp add: returns_def run_simps)

lemma confined_blocks_loop:
  "(\<And>j. j < 512 * n \<Longrightarrow> a + of_nat j \<in> X) \<Longrightarrow> guar (same_except X) (read_blocks_loop hw a n)"
proof (induction n arbitrary: a)
  case 0
  then show ?case by (simp add: same_except.guar_wait)
next
  case (Suc n)
  have "a + 512 + of_nat j \<in> X" if "j < 512 * n" for j
    using Suc.prems [of "512 + j"] that by (simp add: add.assoc)
  then have rest: "guar (same_except X) (read_blocks_loop hw b n)" if "b = a + of_nat (4 * (SD_BLKSZ div 4))" for b
    using Suc.IH [of "a + 512"] that by (simp add: SD_BLKSZ_def)
  have block: "guar (same_except X) (read_data hw a (SD_BLKSZ div 4))"
    using Suc.prems by (intro confined_read_data) (simp add: SD_BLKSZ_def)
  show ?case
    unfolding read_blocks_loop.simps
    by (intro same_except.guar_bnd same_except.guar_wait same_except.guar_if same_except.guar_ret
        same_except.guar_bnd_returns [OF block read_data_next] rest) simp_all
qed

lemma confined_read_cmd:
  assumes "\<And>j. j < 512 * n \<Longrightarrow> a + of_nat j \<in> X"
  shows "guar (same_except X) (sd_issue_read_cmd hw idx a src n)"
  unfolding sd_issue_read_cmd_def
  by (intro same_except.guar_rules same_except.guar_set_blkszcnt same_except.guar_sd_issue_cmd confined_blocks_loop assms)

lemma confined_single_reads:
  "(\<And>j. j < 512 * n \<Longrightarrow> a + of_nat j \<in> X) \<Longrightarrow> guar (same_except X) (single_block_reads hw hc a src n)"
proof (induction n arbitrary: a src)
  case (Suc n)
  have "a + of_nat SD_BLKSZ + of_nat j \<in> X" if "j < 512 * n" for j
    using Suc.prems [of "512 + j"] that by (simp add: add.assoc SD_BLKSZ_def)
  moreover have "a + of_nat j \<in> X" if "j < 512 * 1" for j using Suc.prems [of j] that by simp
  ultimately show ?case
    unfolding single_block_reads.simps sd_issue_cmd17_def
    by (intro same_except.guar_rules confined_read_cmd Suc.IH)
qed (simp add: same_except.guar_rules)

lemma confined_chunk:
  assumes "\<And>j. j < 512 * unat n \<Longrightarrow> a + of_nat j \<in> X"
  shows "guar (same_except X) (sd_read_blocks_card_16 hw a lba n)"
proof -
  have "guar (same_except X) (transfer_blocks hw c a src n)" for c src
  proof (cases "n = 1")
    case True
    then have "guar (same_except X) (sd_issue_read_cmd hw idx a src 1)" for idx src
      using assms by (intro confined_read_cmd) simp
    then show ?thesis unfolding transfer_blocks_def sd_issue_cmd17_def True if_True simp_thms
      by (intro same_except.guar_rules)
  next
    case False
    show ?thesis
      unfolding transfer_blocks_def sd_issue_cmd18_def if_not_P [OF False]
      by (intro same_except.guar_rules same_except.guar_sd_issue_cmd confined_read_cmd [OF assms] confined_single_reads [OF assms])
  qed
  then show ?thesis
    unfolding sd_read_blocks_card_16_def Let_def case_prod_beta
    by (intro same_except.guar_rules same_except.guar_serial_log)
qed

lemma confined_blocks:
  "(\<And>j. j < 512 * nat n \<Longrightarrow> a + of_nat j \<in> X) \<Longrightarrow> guar (same_except X) (sd_read_blocks_card hw a lba n)"
proof (induction hw a lba n rule: sd_read_blocks_card.induct)
  case (1 hw a lba n)
  show ?case
  proof (cases "0 < n")
    case True
    let ?k = "if n < UINT16_MAX then n else UINT16_MAX"
    obtain m where m: "?k = int m" "m \<le> 65535" "m \<le> nat n"
      using True by (intro that [of "nat ?k"]) (auto simp: UINT16_MAX_def)
    then have "unat (of_int ?k :: u16) = m" by (simp add: unat_of_nat take_bit_nat_eq_self)
    with m(3) have "guar (same_except X) (sd_read_blocks_card_16 hw a lba (of_int ?k))"
      by (intro confined_chunk "1.prems") simp
    moreover have "guar (same_except X) (sd_read_blocks_card hw (a + of_int (int SD_BLKSZ * UINT16_MAX))
        (lba + of_int UINT16_MAX) (n - UINT16_MAX))"
    proof (rule "1.IH" [OF True, where x = True])
      fix j assume "j < 512 * nat (n - UINT16_MAX)"
      then show "a + of_int (int SD_BLKSZ * UINT16_MAX) + of_nat j \<in> X"
        using "1.prems" [of "512 * 65535 + j"] by (simp add: UINT16_MAX_def SD_BLKSZ_def add.assoc nat_diff_distrib)
    qed simp
    ultimately show ?thesis
      unfolding sd_read_blocks_card.simps [of hw a lba n] by (intro same_except.guar_rules)
  qed (simp add: sd_read_blocks_card.simps same_except.guar_rules)
qed

text \<open>
  C27. A read is confined, whatever the hardware does and however the read ends, also when it
  fails half way or never returns: no byte of RAM outside the blocks at its destination is written and
  the driver's record of the card is kept. And a read to an address that is not aligned to
  words, or of no blocks, does not bother the card and writes nothing: the first is refused, the second is trivially done.
\<close>

theorem sd_read_confined:
  fixes hw :: "'d hw"
  assumes "sd_read_blocks hw a lba n s = (r, t)"
  shows "(\<forall>x. 512 * n \<le> int (unat (x - a)) \<longrightarrow> ram t x = ram s x) \<and> sdcard t = sdcard s \<and>
    (unat a mod 4 \<noteq> 0 \<or> n \<le> 0 \<longrightarrow>
       cmd_history t = cmd_history s \<and> ram t = ram s \<and> (\<forall>ok. r = Ret ok \<longrightarrow> ok = (n \<le> 0)))"
proof (intro conjI allI impI)
  fix x assume x: "512 * n \<le> int (unat (x - a))"
  let ?X = "{y. int (unat (y - a)) < 512 * n}"
  have "int (unat (of_nat j :: addr)) < 512 * n" if "j < 512 * nat n" for j
    using that take_bit_nat_less_eq_self [of 32 j] by (simp add: unat_of_nat)
  then have "guar (same_except ?X) (sd_read_blocks_card hw a lba n)" by (intro confined_blocks) simp
  from guarD [OF this] assms x show "ram t x = ram s x" by (auto simp: sd_read_blocks_def same_except_def)
next
  show "sdcard t = sdcard s" using guarD [OF same_card.guar_reads(1) assms] by (simp add: same_card_def)
next
  assume d: "unat a mod 4 \<noteq> 0 \<or> n \<le> 0"
  have "cmd_history t = cmd_history s \<and> ram t = ram s \<and> (\<forall>ok. r = Ret ok \<longrightarrow> ok = (n \<le> 0))"
  proof (cases "0 < n")
    case False
    then show ?thesis using assms by (auto simp: sd_read_blocks_def sd_read_blocks_card.simps run_simps)
  next
    case True
    then have "\<not> address_aligned a 4" using d unfolding address_aligned_4 by simp
    then have u: "sd_read_blocks_card_16 hw a lba k = bnd (serial_log hw ''SD read error: RAM destination address %08x not 4-byte aligned'' [VaU a])
        (\<lambda>_. ret False)" for k
      by (simp only: sd_read_blocks_card_16_def if_True simp_thms)
    have rf: "bnd (ret False) f = f False" for f :: "bool \<Rightarrow> ('d, bool) io" by (rule ext) (simp add: bnd_prim_run)
    let ?m = "serial_log hw ''SD read error: RAM destination address %08x not 4-byte aligned'' [VaU a]"
    have "bnd ?m (\<lambda>_. ret False) s = (r, t)"
      using assms True unfolding sd_read_blocks_def sd_read_blocks_card.simps [of hw a lba n] u
      by (simp only: if_True True bnd_assoc rf simp_thms)
    moreover obtain q v where q: "?m s = (q, v)" by (cases "?m s")
    ultimately show ?thesis using True log_same [OF q] by (cases q) (auto simp: bnd_def ret_run)
  qed
  then show "cmd_history t = cmd_history s" "ram t = ram s" "\<And>ok. r = Ret ok \<Longrightarrow> ok = (n \<le> 0)" by blast+
qed

lemma log_ok_unaligned: "log_ok ''SD read error: RAM destination address %08x not 4-byte aligned'' [VaU a]"
proof -
  let ?h = "field_spec (CHR ''0'') 8 (uint_to_hexstr a)"
  have "fmt_spec ''SD read error: RAM destination address %08x not 4-byte aligned'' [VaU a] =
      Some (''SD read error: RAM destination address 0x'' @ ?h @ '' not 4-byte aligned'')"
    by (auto simp: fmt_field_def is_digit_def specifier_supports_field_width_def conv_spec_def
        char_digit_to_int_def)
  moreover have "NUL \<notin> set ?h" "length ?h \<le> 8"
    using digit_strings_chars(2) [of a] length_uint_to_hexstr [of a] by (auto simp: field_spec_def)
  ultimately show ?thesis by (auto simp: log_ok_def)
qed

theorem sd_read_confined_witness:
  "\<exists>t. sd_read_blocks (pi_board tiny_card 1) 0x100002 1 4 (blank_machine fresh_board) = (Ret False, t) \<and>
    cmd_history t = cmd_history (blank_machine fresh_board) \<and> ram t = ram (blank_machine fresh_board)"
proof -
  let ?hw = "pi_board tiny_card 1" and ?s = "blank_machine fresh_board"
  have "uart_ready ?hw" by (rule pi_likeD(3) [OF pi_board_like]) simp
  from serial_log_returns [OF this log_ok_unaligned] obtain t where
    "serial_log ?hw ''SD read error: RAM destination address %08x not 4-byte aligned'' [VaU 0x100002] ?s = (Ret (), t)" by blast
  moreover have "\<not> address_aligned 0x100002 4" unfolding address_aligned_4 by simp
  ultimately have "sd_read_blocks_card_16 ?hw 0x100002 1 k ?s = (Ret False, t)" for k
    by (simp only: sd_read_blocks_card_16_def if_True simp_thms bnd_def prod.case res.case ret_run)
  then have r: "sd_read_blocks ?hw 0x100002 1 4 ?s = (Ret False, t)"
    unfolding sd_read_blocks_def sd_read_blocks_card.simps [of ?hw "0x100002" 1 4] by (simp add: bnd_def ret_run)
  have "unat (0x100002 :: addr) mod 4 \<noteq> 0" by simp
  with sd_read_confined [OF r] r show ?thesis by blast
qed

text \<open>
  The number of blocks for a number of bytes is rounded up.
\<close>

lemma bytes_to_blocks_ceiling:
  assumes "0 \<le> n"
  shows "bytes_to_blocks n = (n + 511) div 512"
proof -
  define q where "q = bytes_to_blocks n"
  have "n \<le> 512 * q" "512 * q < n + 512" using bytes_to_blocks_bounds [OF assms] by (simp_all add: q_def)
  then have "(n + 511) div 512 = q" by (intro int_div_pos_eq [of _ _ _ "n + 511 - 512 * q"]) simp_all
  then show ?thesis by (simp only: q_def)
qed

section \<open>The clock\<close>

lemma divisor_loop_spec:
  assumes "0 \<le> base" and "0 < d" and "base div (d * 2 ^ k) \<le> target"
  shows "\<exists>j\<le>k. divisor_loop (Suc k) base target d = Some (d * 2 ^ j) \<and> base div (d * 2 ^ j) \<le> target \<and>
    (\<forall>i<j. target < base div (d * 2 ^ i))"
  using assms(2,3)
proof (induction k arbitrary: d)
  case 0
  then show ?case using assms(1) by simp
next
  case (Suc k)
  show ?case
  proof (cases "target < base div d")
    case False
    then show ?thesis using Suc.prems assms(1) by (intro exI [of _ 0]) simp
  next
    case True
    have "base div (d * 2 * 2 ^ k) \<le> target" using Suc.prems(2) by (simp add: mult.assoc)
    with Suc.IH [of "d * 2"] Suc.prems(1) obtain j where
      j: "j \<le> k" "divisor_loop (Suc k) base target (d * 2) = Some (d * 2 * 2 ^ j)" "base div (d * 2 * 2 ^ j) \<le> target"
        "\<forall>i<j. target < base div (d * 2 * 2 ^ i)" by auto
    have "target < base div (d * 2 ^ i)" if "i < Suc j" for i
      using that True j(4) by (cases i) (simp_all add: mult.assoc)
    then show ?thesis using j(1-3) True Suc.prems(1) assms(1)
      by (intro exI [of _ "Suc j"]) (simp_all add: mult.assoc)
  qed
qed

text \<open>
  C34. The clock divider is half the least power of two that brings the base clock down to the target, in whole
  hertz, and the search for it never overflows an \<^verbatim>\<open>int\<close>.
\<close>

theorem clock_divider_least:
  assumes "0 \<le> base" and "base < 2 ^ 31" and "0 < target"
  shows "\<exists>j\<le>30. sd_8bit_clock_divider base target = Some (2 ^ j div 2) \<and> base div 2 ^ j \<le> target \<and>
    (\<forall>i<j. target < base div 2 ^ i)"
proof -
  have "base div 2 ^ 30 \<le> (2 ^ 31 - 1) div 2 ^ 30" using assms(2) by (intro zdiv_mono1) simp_all
  then have "base div (1 * 2 ^ 30) \<le> target" using assms(3) by simp
  from divisor_loop_spec [OF assms(1) _ this] obtain j where
    "j \<le> 30" "divisor_loop (Suc 30) base target 1 = Some (2 ^ j)" "base div 2 ^ j \<le> target" "\<forall>i<j. target < base div 2 ^ i"
    by auto
  then show ?thesis by (intro exI [of _ j]) (simp add: sd_8bit_clock_divider_def del: divisor_loop.simps)
qed

theorem clock_divider_least_witness: "\<exists>j\<le>30. sd_8bit_clock_divider 100000000 400000 = Some (2 ^ j div 2)"
  using clock_divider_least [of 100000000 400000] by auto

end
