(* ===== verification/Support_Properties.thy ===== *)
theory Support_Properties
  imports Sd_Properties Imager_Facts
begin

unbundle bit_operations_syntax

text \<open>
  Properties of what the boot is built on: the log, the waits, the partition table, and the
  refusals and paddings of the imager.
\<close>

section \<open>The log\<close>

text \<open>
  C28. A log line is transmitted in full, in order and with nothing else: the time in seven
  columns, the text that the format and its arguments mean, and a line end, when the UART
  takes characters and the text fits the buffers.
\<close>

theorem log_line_transmitted:
  assumes "uart_ready hw" and "log_ok fmt ap" and "fmt_spec fmt ap = Some msg"
  shows "\<exists>t. serial_log hw fmt ap s = (Ret (), t) \<and>
    uart_output t = uart_output s @ map (\<lambda>c. ucast (of_char c :: u8)) (log_text (dev_read hw CLO_addr s) msg)"
  using assms by (rule serial_log_output)

theorem log_line_transmitted_witness:
  "\<exists>t. serial_log (pi_board tiny_card 1) ''card %u'' [VaU 42] (blank_machine fresh_board) = (Ret (), t) \<and>
    uart_output t = map (\<lambda>c. ucast (of_char c :: u8)) (log_text 0 ''card 42'')"
proof -
  have "uart_ready (pi_board tiny_card 1)" by (rule pi_likeD(3) [OF pi_board_like]) simp
  moreover have f: "fmt_spec ''card %u'' [VaU 42] = Some ''card 42''" by code_simp
  moreover have "log_ok ''card %u'' [VaU 42]" unfolding log_ok_def f by simp
  moreover have "dev_read (pi_board tiny_card 1) CLO_addr (blank_machine fresh_board) = 0"
    using steady_clockD(1) [OF pi_board_steady, of tiny_card 1 "blank_machine fresh_board"]
    by (simp add: fresh_board_def)
  moreover have "uart_output (blank_machine fresh_board) = []" by (simp add: uart_output_def)
  ultimately show ?thesis
    using log_line_transmitted [of "pi_board tiny_card 1" "''card %u''" "[VaU 42]" "''card 42''" "blank_machine fresh_board"]
    by simp
qed

section \<open>Waits\<close>

text \<open>
  C26. Every polled wait of the program ends, by the condition or by the error for an infinite
  loop: the resets of the controller and the stabilisation of its clock, the two mailboxes, and the
  transmitter of the UART, as long as the clock runs and its low word does not overflow
  before the timeout.
\<close>

theorem polled_waits_end:
  assumes "steady_clock hw clk B" and "0 \<le> ms" and "now clk s + 1000 * nat ms + 2 * B < 2 ^ 32"
    and "1000 * nat ms < poll_fuel hw"
  shows "c \<in> {sd_sw_reset_hc_bit_set hw, sd_internal_clock_not_stable hw, mbox0_status_empty_flag_set hw,
      mbox1_status_full_flag_set hw, uart_lsr_transmitter_not_empty hw} \<longrightarrow>
    fst (while_cond_timeout_infinite hw c ms s) \<in> {Ret (), Signal ERROR_INFINITE_LOOP}"
  using sd_reset_wait.while_cond_ends [OF assms] sd_clock_wait.while_cond_ends [OF assms]
    mbox0_wait.while_cond_ends [OF assms] mbox1_wait.while_cond_ends [OF assms] uart_wait.while_cond_ends [OF assms]
  by auto

theorem polled_waits_end_witness:
  "fst (while_cond_timeout_infinite (tick_board 3000) (uart_lsr_transmitter_not_empty (tick_board 3000)) 2 (blank_machine 7))
     \<in> {Ret (), Signal ERROR_INFINITE_LOOP}"
  using polled_waits_end [OF tick_board_steady [of 3000], of 2 "blank_machine 7" "uart_lsr_transmitter_not_empty (tick_board 3000)"]
  by (simp add: tick_board_def)

lemma wait_any_loop_Suc:
  "wait_any_loop hw ts (Suc k) s =
     (let irpt = dev_read hw (sd_reg INTERRUPT) s; s1 = after_read hw (sd_reg INTERRUPT) s in
      if irpt \<noteq> 0 then (Ret irpt, after_write hw (sd_reg INTERRUPT) irpt s1)
      else bnd (usleep hw 50) (\<lambda>_. bnd (timer_poll_done hw ts) (\<lambda>done_b.
        if done_b then ret irpt else wait_any_loop hw ts k)) s1)"
  by (simp add: Let_def run_simps)

lemma wait_any_loop_returns:
  assumes "steady_clock hw clk B" and "B \<le> 50" and "e + 8 * B + 100 < 2 ^ 32" and "50 < poll_fuel hw"
    and "now clk s \<le> e + B" and "e < now clk s + k" and "0 < k"
  shows "\<exists>irpt t. wait_any_loop hw (of_nat e) k s = (Ret irpt, t) \<and> now clk t \<le> e + 50 + 5 * B \<and>
    (irpt = 0 \<longrightarrow> e < now clk t)"
  using assms(5-7)
proof (induction k arbitrary: s)
  case (Suc k)
  note c = steady_clockD [OF assms(1)]
  let ?a = "sd_reg INTERRUPT"
  let ?s1 = "after_read hw ?a s"
  have n1: "now clk s \<le> now clk ?s1" "now clk ?s1 \<le> now clk s + B" by (rule c(3,4))+
  show ?case
  proof (cases "dev_read hw ?a s = 0")
    case False
    have "now clk (after_write hw ?a (dev_read hw ?a s) ?s1) \<le> e + 50 + 5 * B"
      using c(6) [of ?a "dev_read hw ?a s" ?s1] n1 Suc.prems(1) by linarith
    then show ?thesis using False by (simp add: wait_any_loop_Suc Let_def del: wait_any_loop.simps)
  next
    case True
    have "now clk ?s1 + nat 50 + B < 2 ^ 32" using n1 Suc.prems(1) assms(2,3) by simp
    then obtain u where u: "usleep hw 50 ?s1 = (Ret (), u)" "now clk ?s1 + 50 < now clk u" "now clk u \<le> now clk ?s1 + 50 + 2 * B"
      using usleep_waits [OF assms(1), of 50 ?s1] assms(2,4) by auto
    let ?u = "after_read hw CLO_addr u"
    have n2: "now clk u < now clk ?u" "now clk ?u \<le> now clk u + B" by (rule c(2), rule c(4))
    have lt: "now clk u < 2 ^ 32" "e < 2 ^ 32" using u(3) n1 Suc.prems(1) assms(3) by linarith+
    have d: "(of_nat e \<le> dev_read hw CLO_addr u) = (e \<le> now clk u)"
      unfolding c(1) by (rule of_nat_le32 [OF lt(2,1)])
    have bu: "bnd (usleep hw 50) f ?s1 = f () u" for f :: "unit \<Rightarrow> ('a, u32) io" by (simp add: bnd_def u(1))
    have st: "wait_any_loop hw (of_nat e) (Suc k) s = (if e \<le> now clk u then (Ret 0, ?u) else wait_any_loop hw (of_nat e) k ?u)"
      using True by (simp add: wait_any_loop_Suc bu bnd_timer_run d ret_run del: wait_any_loop.simps)
    show ?thesis
    proof (cases "e \<le> now clk u")
      case True
      moreover have "now clk ?u \<le> e + 50 + 5 * B" "e < now clk ?u" using True n1 n2 u(3) Suc.prems(1) by linarith+
      ultimately show ?thesis unfolding st by simp
    next
      case False
      have "now clk ?u \<le> e + B" "e < now clk ?u + k" "0 < k" using False n1 n2 u(2) Suc.prems by linarith+
      from Suc.IH [OF this] show ?thesis unfolding st using False by simp
    qed
  qed
qed simp

text \<open>
  C22. The wait for an interrupt of the controller returns, and it gives up only after more than half
  a second; the polls that it makes, one every fifty microseconds, end at most a few bus accesses
  and a poll later.
\<close>

theorem interrupt_wait_ends:
  assumes "steady_clock hw clk B" and "B \<le> 50" and "now clk s + 501000 < 2 ^ 32" and "500000 < poll_fuel hw"
  shows "\<exists>irpt t. sd_wait_for_any_interrupt hw s = (Ret irpt, t) \<and> now clk t \<le> now clk s + 500050 + 5 * B \<and>
    (irpt = 0 \<longrightarrow> now clk s + 500000 < now clk t)"
proof -
  let ?s = "after_read hw CLO_addr s" and ?e = "now clk s + 500000"
  note c = steady_clockD [OF assms(1)]
  have e: "dev_read hw CLO_addr s + of_int (ms_to_us 500) = of_nat ?e"
    using c(1) [of s] by (simp add: ms_to_us_def COUNTER_CLK_CPMS_def)
  have "?e + 8 * B + 100 < 2 ^ 32" "50 < poll_fuel hw" "now clk ?s \<le> ?e + B" "?e < now clk ?s + poll_fuel hw" "0 < poll_fuel hw"
    using c(2) [of s] c(4) [of CLO_addr s] assms(2-4) by linarith+
  from wait_any_loop_returns [OF assms(1,2) this] show ?thesis
    by (simp add: sd_wait_for_any_interrupt_def bnd_timer_run e add_ac del: of_nat_add)
qed

theorem interrupt_wait_ends_witness:
  "\<exists>irpt t. sd_wait_for_any_interrupt (tick_board 600000) (blank_machine 0) = (Ret irpt, t) \<and> dev t \<le> 500055"
  using interrupt_wait_ends [OF tick_board_steady [of 600000], of "blank_machine 0"]
  by (auto simp: tick_board_def)

section \<open>The partition table\<close>

text \<open>
  C29. What a partitioning program has written as the table of a disk is what the boot reads back from
  it: the first block and the number of blocks of each of the four partitions, whatever the
  code area and the other fields of the entries hold, and wherever in RAM the block is.
\<close>

theorem partition_table_roundtrip:
  assumes "mbr_wf code entries" and "mbr_partition_valid p"
  shows "mbr_magic a (ram_write m a (mbr_bytes code entries)) \<and>
    mbr_get_partition_lba a p (ram_write m a (mbr_bytes code entries)) = part_lba (entries ! nat (p - 1)) \<and>
    mbr_get_partition_nblks a p (ram_write m a (mbr_bytes code entries)) = part_nblks (entries ! nat (p - 1))"
proof -
  have "1 \<le> p" "p \<le> 4" using assms(2) by (simp_all add: mbr_partition_valid_def mbr_defs)
  then show ?thesis using mbr_fields [OF assms(1), of p a m] by simp
qed

theorem partition_table_roundtrip_witness:
  "mbr_get_partition_nblks 0x8000 2 (ram_write (\<lambda>_. 0xff) 0x8000 (mbr_bytes (replicate 446 7) [tiny_entry, wide_entry, tiny_entry, tiny_entry])) = 8"
proof -
  have "mbr_wf (replicate 446 7) [tiny_entry, wide_entry, tiny_entry, tiny_entry]" "mbr_partition_valid 2"
    by (simp_all add: mbr_wf_def tiny_entry_def wide_entry_def mbr_partition_valid_def mbr_defs)
  from partition_table_roundtrip [OF this] show ?thesis by (simp add: wide_entry_def)
qed

section \<open>The imager\<close>

text \<open>
  The padding of an item is the least that makes the item with its header whole blocks, as long as the
  sizes stay within an \<^verbatim>\<open>int\<close>.
\<close>

lemma padding_least:
  assumes "n + 1024 < 2 ^ 31"
  shows "\<exists>p. datasz_after_pad (int n) = int p \<and> n \<le> p \<and> (8 + p) mod 512 = 0 \<and>
    (\<forall>q. n \<le> q \<and> (8 + q) mod 512 = 0 \<longrightarrow> p \<le> q)"
proof -
  obtain p where p: "datasz_after_pad (int n) = int p" "n \<le> p" "p < n + 512" "(8 + p) mod 512 = 0"
    by (rule datasz_after_pad_spec [OF assms])
  have "p \<le> q" if q: "n \<le> q" "(8 + q) mod 512 = 0" for q
  proof (rule ccontr)
    assume "\<not> p \<le> q"
    then have "512 dvd (8 + p) - (8 + q)" using p(4) q(2) by (intro dvd_diff_nat) (simp_all add: mod_eq_0_iff_dvd)
    then show False using \<open>\<not> p \<le> q\<close> p(3) q(1) by (auto dest: dvd_imp_le)
  qed
  then show ?thesis using p(1,2,4) by (intro exI [of _ p] conjI allI impI; (elim conjE)?)
qed

text \<open>
  C23. The imager never touches the partition when it cannot make the image: with the wrong number of
  arguments, or when the kernel or the device tree blob cannot be opened, it does not report success,
  and nothing that only opening a file for writing and writing to it can change has changed.
\<close>

theorem imager_refuses:
  assumes "spares os obs" and "imager_main os argv s = (r, t)" and "\<not> any_arg_is_help argv"
    and "length argv \<noteq> 4 \<or> unreadable os (argv ! 2) \<or> unreadable os (argv ! 3)"
  shows "r \<noteq> Ret EXIT_SUCCESS \<and> obs t = obs s"
proof (cases "length argv = 4")
  case False
  then show ?thesis using assms(2,3) by (auto simp: imager_main_def ret_run)
next
  case True
  let ?b = "build_image os (argv ! 2) (argv ! 3)"
  have n: "returns ?b (\<lambda>x. x = None)" using build_image_unreadable assms(4) True by blast
  have m: "imager_main os argv = bnd ?b (\<lambda>img. case img of None \<Rightarrow> ret EXIT_FAILURE
      | Some img \<Rightarrow> bnd (file_write os (argv ! 1) img (sint (get_word 4 img))) (\<lambda>ok. ret (if ok then EXIT_SUCCESS else EXIT_FAILURE)))"
    using True assms(3) unfolding imager_main_def Let_def by (simp only: not_False_eq_True if_False if_True simp_thms)
  have "returns (imager_main os argv) (\<lambda>x. x \<noteq> EXIT_SUCCESS)"
    unfolding m by (rule returns_bnd [OF n]) (simp add: returns_ret)
  moreover have "guar (same_obs obs) (imager_main os argv)"
    unfolding m by (rule same_obs.guar_bnd_returns [OF guar_build_image [OF assms(1)] n]) (simp add: same_obs.guar_ret)
  ultimately show ?thesis using assms(2) by (auto simp: returns_def guar_def same_obs_def dest: spec [of _ s])
qed

theorem imager_refuses_witness:
  "\<exists>r t. imager_main (desk_os desk_files 10000) [''rpi-img'', ''part'', ''kernel'', ''no-dtb''] \<lparr>desk_unread = \<lambda>_. [], desk_written = \<lambda>_. [7], desk_next = 3\<rparr> = (r, t) \<and>
    r \<noteq> Ret EXIT_SUCCESS \<and> desk_written t 3 = [7]"
proof -
  let ?os = "desk_os desk_files 10000" and ?s = "\<lparr>desk_unread = \<lambda>_. [], desk_written = \<lambda>_. [7], desk_next = 3\<rparr>"
    and ?args = "[''rpi-img'', ''part'', ''kernel'', ''no-dtb'']"
  have "spares ?os desk_written" by (auto simp: spares_def desk_os_def Let_def split: option.split)
  moreover obtain r t where m: "imager_main ?os ?args ?s = (r, t)" by force
  moreover have "\<not> any_arg_is_help ?args" by (simp add: any_arg_is_help_def)
  moreover have "unreadable ?os ''no-dtb''" by (simp add: unreadable_def desk_os_def desk_files_def)
  ultimately show ?thesis using imager_refuses [of ?os desk_written ?args ?s r t] by auto
qed

end
