(* ===== verification/Sd_Driver.thy ===== *)
theory Sd_Driver
  imports Boot_Properties Init_Order
begin

text \<open>
  The SD driver as the rest of the program sees it: a state machine whose steps are calls of the
  interface of \<^verbatim>\<open>src/bld/sd/sd.h\<close>. The record of the card is a static variable of the
  driver, so nothing but these calls changes it. An automaton over the calls and their results
  says what the record must hold, and every run of the driver, on any hardware, is
  simulated by it.
\<close>

section \<open>Runs of the driver\<close>

datatype sd_call = Init_call | Read_call addr u32 int | Reset_call

inductive driver_step :: "'d hw \<Rightarrow> 'd machine \<Rightarrow> sd_call \<Rightarrow> bool \<Rightarrow> 'd machine \<Rightarrow> bool" for hw where
  step_init: "sd_init hw s = (Ret e, t) \<Longrightarrow> driver_step hw s Init_call (e = SD_INIT_ERROR_NONE) t"
| step_read: "sd_read_blocks hw a lba n s = (Ret ok, t) \<Longrightarrow> driver_step hw s (Read_call a lba n) ok t"
| step_reset: "sd_reset hw s = (Ret ok, t) \<Longrightarrow> driver_step hw s Reset_call ok t"

inductive_cases init_stepE: "driver_step hw s Init_call ok t"
inductive_cases read_stepE: "driver_step hw s (Read_call a lba n) ok t"
inductive_cases reset_stepE: "driver_step hw s Reset_call ok t"

text \<open>A run from \<open>s\<close> to \<open>t\<close>, with its calls and their results; between them the program does anything that leaves the record alone.\<close>

inductive driver_run :: "'d hw \<Rightarrow> 'd machine \<Rightarrow> (sd_call \<times> bool) list \<Rightarrow> 'd machine \<Rightarrow> bool" for hw and s where
  run_start: "driver_run hw s [] s"
| run_call: "driver_run hw s cs t \<Longrightarrow> driver_step hw t c ok u \<Longrightarrow> driver_run hw s (cs @ [(c, ok)]) u"
| run_rest: "driver_run hw s cs t \<Longrightarrow> sdcard u = sdcard t \<Longrightarrow> driver_run hw s cs u"

section \<open>The automaton\<close>

text \<open>
  What the calls and their results say about the recorded state: a successful initialisation leaves the transfer
  state, a successful reset the idle state; a read and a reset that failed change nothing, and after an initialisation that
  failed the state depends on where it failed.
\<close>

fun after_call :: "sd_call \<times> bool \<Rightarrow> card_state option \<Rightarrow> card_state option" where
  "after_call (Init_call, ok) st = (if ok then Some CARD_STATE_TRANSFER else None)"
| "after_call (Read_call a lba n, ok) st = st"
| "after_call (Reset_call, ok) st = (if ok then Some CARD_STATE_IDLE else st)"

definition agrees :: "card_state option \<Rightarrow> card \<Rightarrow> bool" where
  "agrees st c \<longleftrightarrow> card_wf c \<and> (\<forall>x. st = Some x \<longrightarrow> cstate c = x)"

lemma driver_step_agrees:
  assumes "driver_step hw s c ok t" and "agrees st (sdcard s)"
  shows "agrees (after_call (c, ok) st) (sdcard t)"
proof (cases c)
  case Init_call
  from assms(1)[unfolded Init_call] obtain e where
    e: "sd_init hw s = (Ret e, t)" "ok = (e = SD_INIT_ERROR_NONE)" by (rule init_stepE)
  have "card_wf (sdcard t)" using keeps_card_wfD [OF keeps_card_wf.guar_sd_init, of s hw] assms(2) e(1) by (simp add: agrees_def)
  moreover have "e = SD_INIT_ERROR_NONE \<Longrightarrow> cstate (sdcard t) = CARD_STATE_TRANSFER"
    using leads_sd_init [of hw s] e(1) by (auto simp: leads_def)
  ultimately show ?thesis using Init_call e(2) by (simp add: agrees_def)
next
  case (Read_call a lba n)
  from assms(1)[unfolded Read_call] have "sd_read_blocks hw a lba n s = (Ret ok, t)" by (rule read_stepE)
  then have "sdcard t = sdcard s" using guarD [OF same_card.guar_reads(1)] by (simp add: same_card_def)
  then show ?thesis using Read_call assms(2) by simp
next
  case Reset_call
  from assms(1)[unfolded Reset_call] have "sd_reset hw s = (Ret ok, t)" by (rule reset_stepE)
  from sd_reset_frame [OF this] assms(2) Reset_call show ?thesis
    by (auto simp: agrees_def card_wf_def less_eq_card_state_def split: if_splits)
qed

text \<open>
  C9. However the driver is called and whatever the hardware answers, its record of the card is what the
  automaton over the calls and their results says: well formed always, in the transfer state after an initialisation
  that succeeded and until a reset does, whatever is read in between, and in the idle state from then on.
\<close>

theorem driver_run_agrees:
  assumes "driver_run hw s cs t" and "sdcard s = zero_card"
  shows "agrees (fold after_call cs (Some CARD_STATE_IDLE)) (sdcard t)"
  using assms(1)
proof induction
  case run_start
  then show ?case using assms(2) by (simp add: agrees_def card_wf_def zero_card_def less_eq_card_state_def)
next
  case (run_call cs t c ok u)
  then show ?case using driver_step_agrees [OF run_call(2,3)] by simp
next
  case (run_rest cs t u)
  then show ?case by simp
qed

theorem driver_run_agrees_witness:
  "\<exists>t. driver_run (pi_board tiny_card 1) ((blank_machine fresh_board)\<lparr>sdcard := zero_card\<rparr>)
      [(Init_call, True), (Read_call 0x100000 1 0, True)] t \<and> cstate (sdcard t) = CARD_STATE_TRANSFER"
proof -
  let ?hw = "pi_board tiny_card 1" and ?s = "(blank_machine fresh_board)\<lparr>sdcard := zero_card\<rparr>"
  have "take_bit 16 (spec_rca tiny_card) = spec_rca tiny_card" by (simp add: tiny_card_def)
  from gives_sd_init [OF pi_board_like this, of 1 ?s] obtain t where
    t: "sd_init ?hw ?s = (Ret SD_INIT_ERROR_NONE, t)" by (auto simp: gives_def)
  have r: "sd_read_blocks ?hw 0x100000 1 0 t = (Ret True, t)"
    by (simp add: sd_read_blocks_def sd_read_blocks_card.simps run_simps)
  have "driver_run ?hw ?s (([] @ [(Init_call, SD_INIT_ERROR_NONE = SD_INIT_ERROR_NONE)]) @ [(Read_call 0x100000 1 0, True)]) t"
    by (rule run_call [OF run_call [OF run_start step_init [OF t]] step_read [OF r]])
  then have "driver_run ?hw ?s [(Init_call, True), (Read_call 0x100000 1 0, True)] t" by simp
  from driver_run_agrees [OF this] this show ?thesis by (auto simp: agrees_def)
qed

end
