(* ===== verification/Entry.thy ===== *)
theory Entry
  imports Boot
begin

unbundle bit_operations_syntax

text \<open>
  \<^verbatim>\<open>src/bld/entry.S\<close>: the code before \<^verbatim>\<open>c_entry()\<close>, the vector table, and the two exception
  handlers. The instructions that the file uses are a datatype, their meaning is that of the ARM architecture, and the
  file is the two lists of instructions below. The registers are banked by processor mode, as the
  architecture banks them; where the assembler puts the C functions is a parameter.
\<close>

section \<open>The processor\<close>

definition CPSR_MODE :: u32 where "CPSR_MODE = BITS 4 0"
definition CPSR_MODE_IRQ :: u32 where "CPSR_MODE_IRQ = 0b10010"
definition CPSR_MODE_SVC :: u32 where "CPSR_MODE_SVC = 0b10011"
definition VBAR :: u32 where "VBAR = 0x0"

text \<open>The mode of a hypervisor, which the file does not name.\<close>

definition mode_hyp :: u32 where "mode_hyp = 0b11010"

record arm =
  gpr :: "nat \<Rightarrow> u32"
  sp_of :: "u32 \<Rightarrow> addr"
  lr_of :: "u32 \<Rightarrow> addr"
  spsr_of :: "u32 \<Rightarrow> u32"
  psr :: u32
  elr_hyp :: addr
  hvbar :: addr
  pc :: addr
  mem :: ram

definition mode :: "arm \<Rightarrow> u32" where
  "mode s = psr s AND CPSR_MODE"

datatype instr =
    Mov nat u32 | Mov_sp addr | Mcr_hvbar nat
  | Mrs_cpsr nat | Bic nat u32 | Orr nat u32 | Msr_cpsr nat
  | Msr_spsr_hyp nat | Msr_elr_hyp_pc | Eret
  | Bl addr | Bx nat | Ldr_pc addr | Nop
  | Push "nat list" | Pop "nat list" | Subs_pc_lr u32

text \<open>The stores and loads of \<^verbatim>\<open>push\<close> and \<^verbatim>\<open>pop\<close>, the lowest register at the lowest address.\<close>

primrec store_words :: "addr \<Rightarrow> u32 list \<Rightarrow> ram \<Rightarrow> ram" where
  "store_words a [] m = m"
| "store_words a (w # ws) m = ram_set32 (store_words (a + 4) ws m) a w"

primrec load_regs :: "ram \<Rightarrow> addr \<Rightarrow> nat list \<Rightarrow> (nat \<Rightarrow> u32) \<Rightarrow> nat \<Rightarrow> u32" where
  "load_regs m a [] r = r"
| "load_regs m a (n # ns) r = load_regs m (a + 4) ns (r(n := ram_get32 m a))"

text \<open>
  One instruction at \<open>pc\<close>. Reading \<^verbatim>\<open>pc\<close> gives the address of the instruction plus 8. The lists of
  \<^verbatim>\<open>push\<close> and \<^verbatim>\<open>pop\<close> are the registers before \<^verbatim>\<open>lr\<close>, which is the last in both.
\<close>

fun exec :: "instr \<Rightarrow> arm \<Rightarrow> arm" where
  "exec (Mov d v) s = s\<lparr>gpr := (gpr s)(d := v), pc := pc s + 4\<rparr>"
| "exec (Mov_sp a) s = s\<lparr>sp_of := (sp_of s)(mode s := a), pc := pc s + 4\<rparr>"
| "exec (Mcr_hvbar n) s = s\<lparr>hvbar := gpr s n, pc := pc s + 4\<rparr>"
| "exec (Mrs_cpsr d) s = s\<lparr>gpr := (gpr s)(d := psr s), pc := pc s + 4\<rparr>"
| "exec (Bic d v) s = s\<lparr>gpr := (gpr s)(d := gpr s d AND NOT v), pc := pc s + 4\<rparr>"
| "exec (Orr d v) s = s\<lparr>gpr := (gpr s)(d := gpr s d OR v), pc := pc s + 4\<rparr>"
| "exec (Msr_cpsr n) s = s\<lparr>psr := gpr s n, pc := pc s + 4\<rparr>"
| "exec (Msr_spsr_hyp n) s = s\<lparr>spsr_of := (spsr_of s)(mode_hyp := gpr s n), pc := pc s + 4\<rparr>"
| "exec Msr_elr_hyp_pc s = s\<lparr>elr_hyp := pc s + 8, pc := pc s + 4\<rparr>"
| "exec Eret s = s\<lparr>psr := spsr_of s mode_hyp, pc := elr_hyp s\<rparr>"
| "exec (Bl a) s = s\<lparr>lr_of := (lr_of s)(mode s := pc s + 4), pc := a\<rparr>"
| "exec (Bx n) s = s\<lparr>pc := gpr s n\<rparr>"
| "exec (Ldr_pc a) s = s\<lparr>pc := a\<rparr>"
| "exec Nop s = s\<lparr>pc := pc s + 4\<rparr>"
| "exec (Push ns) s =
     (let a = sp_of s (mode s) - 4 * of_nat (length ns + 1)
      in s\<lparr>mem := store_words a (map (gpr s) ns @ [lr_of s (mode s)]) (mem s),
           sp_of := (sp_of s)(mode s := a), pc := pc s + 4\<rparr>)"
| "exec (Pop ns) s =
     (let a = sp_of s (mode s)
      in s\<lparr>gpr := load_regs (mem s) a ns (gpr s),
           lr_of := (lr_of s)(mode s := ram_get32 (mem s) (a + 4 * of_nat (length ns))),
           sp_of := (sp_of s)(mode s := a + 4 * of_nat (length ns + 1)), pc := pc s + 4\<rparr>)"
| "exec (Subs_pc_lr n) s = s\<lparr>psr := spsr_of s (mode s), pc := lr_of s (mode s) - n\<rparr>"

text \<open>What the processor does when it takes an interrupt between two instructions, and for \<^verbatim>\<open>hvc\<close>.\<close>

definition take_irq :: "arm \<Rightarrow> arm" where
  "take_irq s = s\<lparr>lr_of := (lr_of s)(CPSR_MODE_IRQ := pc s + 4), spsr_of := (spsr_of s)(CPSR_MODE_IRQ := psr s),
     psr := (psr s AND NOT CPSR_MODE) OR CPSR_MODE_IRQ OR CPSR_I, pc := VBAR + 0x18\<rparr>"

definition take_hvc :: "arm \<Rightarrow> arm" where
  "take_hvc s = s\<lparr>elr_hyp := pc s + 4, spsr_of := (spsr_of s)(mode_hyp := psr s),
     psr := (psr s AND NOT CPSR_MODE) OR mode_hyp OR CPSR_I, pc := hvbar s + 0x14\<rparr>"

section \<open>The code\<close>

record linkage =
  c_entry_addr :: addr
  irq_function_addr :: addr

text \<open>The start of the section \<^verbatim>\<open>.init\<close>, the first in the memory of \<^verbatim>\<open>src/boot.ld\<close>.\<close>

definition init_section :: addr where "init_section = 0x8000"

definition set_stack :: "u32 \<Rightarrow> addr \<Rightarrow> instr list" where
  "set_stack cpsr_mode stack_start_addr =
     [Mrs_cpsr 0, Bic 0 CPSR_MODE, Orr 0 cpsr_mode, Msr_cpsr 0, Mov_sp stack_start_addr]"

definition asm_entry :: "linkage \<Rightarrow> instr list" where
  "asm_entry lk =
     [Mov 0 VBAR, Mcr_hvbar 0,
      Mrs_cpsr 0, Bic 0 CPSR_MODE, Orr 0 CPSR_MODE_SVC, Msr_spsr_hyp 0, Msr_elr_hyp_pc, Eret] @
     set_stack CPSR_MODE_IRQ IRQ_STACK_START_ADDR @
     set_stack CPSR_MODE_SVC SVC_STACK_START_ADDR @
     [Bl (c_entry_addr lk)]"

definition asm_boot_kernel :: "instr list" where
  "asm_boot_kernel = [Mov 0 0, Mov 1 (NOT 0), Mov 2 DTB_RAM_ADDR, Bx 3]"

definition irq_exception_handler :: "linkage \<Rightarrow> instr list" where
  "irq_exception_handler lk =
     [Push [0, 1, 2, 3, 12], Bl (irq_function_addr lk), Pop [0, 1, 2, 3, 12], Subs_pc_lr 4]"

definition boot_kernel_addr :: addr where "boot_kernel_addr = init_section + 4 * 19"
definition irq_handler_addr :: addr where "irq_handler_addr = init_section + 4 * 23"

definition asm_vector_table :: "instr list" where
  "asm_vector_table = [Nop, Nop, Nop, Nop, Nop, Ldr_pc boot_kernel_addr, Ldr_pc irq_handler_addr, Nop]"

text \<open>The code in memory once \<^verbatim>\<open>c_entry()\<close> has moved the vector table to address 0.\<close>

definition code_at :: "linkage \<Rightarrow> addr \<Rightarrow> instr option" where
  "code_at lk a =
     (let code = asm_entry lk @ asm_boot_kernel @ irq_exception_handler lk;
          k = unat (a - init_section) div 4; v = unat a div 4
      in if unat a mod 4 \<noteq> 0 then None
         else if v < length asm_vector_table then Some (asm_vector_table ! v)
         else if init_section \<le> a \<and> k < length code then Some (code ! k)
         else None)"

text \<open>A run executes the code of the file; a call of the C handler is one step, by the parameter \<open>h\<close>.\<close>

primrec arm_run :: "linkage \<Rightarrow> (arm \<Rightarrow> arm) \<Rightarrow> nat \<Rightarrow> arm \<Rightarrow> arm option" where
  "arm_run lk h 0 s = Some s"
| "arm_run lk h (Suc n) s =
     (case code_at lk (pc s) of
        Some i \<Rightarrow> arm_run lk h n (exec i s)
      | None \<Rightarrow> if pc s = irq_function_addr lk then arm_run lk h n (h s) else None)"

lemmas arm_defs = CPSR_MODE_IRQ_def CPSR_MODE_SVC_def VBAR_def mode_hyp_def mode_def
  init_section_def boot_kernel_addr_def irq_handler_addr_def

lemma CPSR_MODE_eq [simp]: "CPSR_MODE = 31"
  by (simp add: CPSR_MODE_def BITS_def)

lemmas mode_numbers = CPSR_MODE_IRQ_def CPSR_MODE_SVC_def mode_hyp_def

lemma with_mode [simp]:
  "(x AND - 32 OR 18) AND 31 = (18 :: u32)" "(x AND - 32 OR 19) AND 31 = (19 :: u32)" "(x AND - 32 OR 26) AND 31 = (26 :: u32)"
  "(x AND - 32 OR 146) AND 31 = (18 :: u32)" "(x AND - 32 OR 154) AND 31 = (26 :: u32)"
  "(x AND - 32 OR 18) AND - 32 = x AND (- 32 :: u32)" "(x AND - 32 OR 19) AND - 32 = x AND (- 32 :: u32)"
  by (simp_all add: word_ao_dist word_bw_assocs)

lemma arm_run_numeral:
  "arm_run lk h (numeral k) s =
     (case code_at lk (pc s) of
        Some i \<Rightarrow> arm_run lk h (pred_numeral k) (exec i s)
      | None \<Rightarrow> if pc s = irq_function_addr lk then arm_run lk h (pred_numeral k) (h s) else None)"
  by (simp add: numeral_eq_Suc)

lemma code_at_simps:
  "code_at lk 0x14 = Some (Ldr_pc boot_kernel_addr)" "code_at lk 0x18 = Some (Ldr_pc irq_handler_addr)"
  "code_at lk 0x8000 = Some (Mov 0 0)" "code_at lk 0x8004 = Some (Mcr_hvbar 0)" "code_at lk 0x8008 = Some (Mrs_cpsr 0)"
  "code_at lk 0x800c = Some (Bic 0 31)" "code_at lk 0x8010 = Some (Orr 0 19)" "code_at lk 0x8014 = Some (Msr_spsr_hyp 0)"
  "code_at lk 0x8018 = Some Msr_elr_hyp_pc" "code_at lk 0x801c = Some Eret"
  "code_at lk 0x8020 = Some (Mrs_cpsr 0)" "code_at lk 0x8024 = Some (Bic 0 31)" "code_at lk 0x8028 = Some (Orr 0 18)"
  "code_at lk 0x802c = Some (Msr_cpsr 0)" "code_at lk 0x8030 = Some (Mov_sp IRQ_STACK_START_ADDR)"
  "code_at lk 0x8034 = Some (Mrs_cpsr 0)" "code_at lk 0x8038 = Some (Bic 0 31)" "code_at lk 0x803c = Some (Orr 0 19)"
  "code_at lk 0x8040 = Some (Msr_cpsr 0)" "code_at lk 0x8044 = Some (Mov_sp SVC_STACK_START_ADDR)"
  "code_at lk 0x8048 = Some (Bl (c_entry_addr lk))"
  "code_at lk 0x804c = Some (Mov 0 0)" "code_at lk 0x8050 = Some (Mov 1 (NOT 0))" "code_at lk 0x8054 = Some (Mov 2 DTB_RAM_ADDR)"
  "code_at lk 0x8058 = Some (Bx 3)"
  "code_at lk 0x805c = Some (Push [0, 1, 2, 3, 12])" "code_at lk 0x8060 = Some (Bl (irq_function_addr lk))"
  "code_at lk 0x8064 = Some (Pop [0, 1, 2, 3, 12])" "code_at lk 0x8068 = Some (Subs_pc_lr 4)"
  by (simp_all add: code_at_def asm_vector_table_def asm_entry_def set_stack_def asm_boot_kernel_def irq_exception_handler_def
      arm_defs)

lemmas arm_eval = arm_run_numeral code_at_simps init_section_def boot_kernel_addr_def irq_handler_addr_def mode_def mode_numbers VBAR_def

end
