(* ===== verification/Entry_Facts.thy ===== *)
theory Entry_Facts
  imports Entry Boot_Facts
begin

unbundle bit_operations_syntax

text \<open>
  The assembly code around the C code: the way in, the way out to the kernel, and an interrupt in between.
\<close>

section \<open>Entry and exit\<close>

lemma exit_run:
  assumes "hvbar u = 0" and "boot_kernel hw m = (Boot k, m')"
  shows "\<exists>v. arm_run lk h 5 (take_hvc (exec (Mov 3 KERN_RAM_ADDR) u)) = Some v \<and> mode v = mode_hyp \<and> mem v = mem u \<and>
    k = \<lparr>reg_r0 = gpr v 0, reg_r1 = gpr v 1, reg_r2 = gpr v 2, reg_pc = pc v\<rparr>"
proof -
  have "k = \<lparr>reg_r0 = 0, reg_r1 = NOT 0, reg_r2 = DTB_RAM_ADDR, reg_pc = KERN_RAM_ADDR\<rparr>"
    using assms(2) unfolding boot_kernel_def ends_serial_log [OF subset_refl, THEN bnd_Boot_ends] by (auto simp: stop_run)
  then show ?thesis using assms(1) by (simp add: arm_eval take_hvc_def CPSR_I_def BIT_def)
qed

text \<open>
  C15. The code before \<^verbatim>\<open>c_entry()\<close> and the code after it. Started in any mode at the start of the image, the entry
  code reaches \<^verbatim>\<open>c_entry()\<close> in supervisor mode, with the two stacks where the address map has them, the exception
  mask bits as they were, and RAM untouched; and when \<^verbatim>\<open>boot_kernel()\<close> makes its hypervisor call, in any later state
  in which the hypervisor's vector base is still the one the entry code has set, the kernel is
  jumped to in hypervisor mode with exactly the registers that the model of the boot announces.
\<close>

theorem entry_and_exit:
  assumes "pc s = init_section"
  shows "\<exists>t. arm_run lk h 19 s = Some t \<and> pc t = c_entry_addr lk \<and> mode t = CPSR_MODE_SVC \<and>
    sp_of t CPSR_MODE_SVC = SVC_STACK_START_ADDR \<and> sp_of t CPSR_MODE_IRQ = IRQ_STACK_START_ADDR \<and>
    psr t AND NOT CPSR_MODE = psr s AND NOT CPSR_MODE \<and> mem t = mem s \<and>
    (\<forall>u hw m k m'. hvbar u = hvbar t \<and> boot_kernel hw m = (Boot k, m') \<longrightarrow>
      (\<exists>v. arm_run lk h 5 (take_hvc (exec (Mov 3 KERN_RAM_ADDR) u)) = Some v \<and> mode v = mode_hyp \<and> mem v = mem u \<and>
        k = \<lparr>reg_r0 = gpr v 0, reg_r1 = gpr v 1, reg_r2 = gpr v 2, reg_pc = pc v\<rparr>))"
proof -
  have "\<exists>t. arm_run lk h 19 s = Some t \<and> pc t = c_entry_addr lk \<and> mode t = CPSR_MODE_SVC \<and>
    sp_of t CPSR_MODE_SVC = SVC_STACK_START_ADDR \<and> sp_of t CPSR_MODE_IRQ = IRQ_STACK_START_ADDR \<and>
    psr t AND NOT CPSR_MODE = psr s AND NOT CPSR_MODE \<and> mem t = mem s \<and> hvbar t = 0"
    using assms by (simp add: arm_eval)
  then obtain t where t: "arm_run lk h 19 s = Some t" "pc t = c_entry_addr lk" "mode t = CPSR_MODE_SVC"
    "sp_of t CPSR_MODE_SVC = SVC_STACK_START_ADDR" "sp_of t CPSR_MODE_IRQ = IRQ_STACK_START_ADDR"
    "psr t AND NOT CPSR_MODE = psr s AND NOT CPSR_MODE" "mem t = mem s" "hvbar t = 0" by blast
  have "\<exists>v. arm_run lk h 5 (take_hvc (exec (Mov 3 KERN_RAM_ADDR) u)) = Some v \<and> mode v = mode_hyp \<and> mem v = mem u \<and>
      k = \<lparr>reg_r0 = gpr v 0, reg_r1 = gpr v 1, reg_r2 = gpr v 2, reg_pc = pc v\<rparr>"
    if "hvbar u = hvbar t \<and> boot_kernel hw m = (Boot k, m')" for u hw m k m'
    by (rule exit_run [OF _ conjunct2 [OF that]]) (use that t(8) in simp)
  with t show ?thesis by blast
qed

section \<open>Interrupts\<close>

text \<open>
  What the procedure call standard asks of the C function that handles interrupts: it returns, in the same mode and with the same
  stack, and keeps the registers that belong to its caller and what its caller has on the stack.
\<close>

definition aapcs :: "(arm \<Rightarrow> arm) \<Rightarrow> bool" where
  "aapcs h \<longleftrightarrow> (\<forall>s. pc (h s) = lr_of s (mode s) \<and> mode (h s) = mode s \<and> sp_of (h s) = sp_of s \<and> spsr_of (h s) = spsr_of s \<and>
     (\<forall>n \<in> {4..11}. gpr (h s) n = gpr s n) \<and> (\<forall>x. x \<noteq> mode s \<longrightarrow> lr_of (h s) x = lr_of s x) \<and>
     (\<forall>i < 24. mem (h s) (sp_of s (mode s) + of_nat i) = mem s (sp_of s (mode s) + of_nat i)))"

lemma store_words_write:
  "4 * length ws \<le> 2 ^ 32 \<Longrightarrow> store_words a ws m = ram_write m a (concat (map bytes32 ws))"
proof (induction ws arbitrary: a)
  case (Cons w ws)
  have l: "length (concat (map bytes32 ws)) = 4 * length ws" by (induction ws) simp_all
  show ?case using Cons ram_write_prepend [of "bytes32 w" "concat (map bytes32 ws)" m a] l by (simp add: ram_set32_write)
qed simp

lemma store_words_get:
  assumes "i < length ws" and "length ws \<le> 6" and "\<And>j. j < 24 \<Longrightarrow> m' (a + of_nat j) = store_words a ws m (a + of_nat j)"
  shows "ram_get32 m' (a + of_nat (4 * i)) = ws ! i"
proof -
  let ?bs = "concat (map bytes32 ws)"
  have l: "length ?bs = 4 * length ws" by (simp add: length_concat comp_def sum_list_triv)
  have "take 4 (drop (4 * i) ?bs) = bytes32 (ws ! i)"
    using drop_concat_blocks [of "map bytes32 ws" 4 i] assms(1) by (simp add: mult.commute)
  then have w: "ram_get32 (store_words a ws m) (a + of_nat (4 * i)) = ws ! i"
    using ram_get32_within [of "4 * i" ?bs "ws ! i" m a] assms(1,2) l by (simp add: store_words_write)
  have "m' (a + of_nat (4 * i + k)) = store_words a ws m (a + of_nat (4 * i + k))" if "k < 4" for k
    using that assms(1,2) by (intro assms(3)) simp
  from this [of 0] this [of 1] this [of 2] this [of 3]
  have "ram_get32 m' (a + of_nat (4 * i)) = ram_get32 (store_words a ws m) (a + of_nat (4 * i))"
    by (simp add: ram_get32_def add.assoc) (simp add: add_ac)
  with w show ?thesis by simp
qed

text \<open>What the handler finds when it is called, on its way in from the vector.\<close>

definition irq_called :: "linkage \<Rightarrow> arm \<Rightarrow> arm" where
  "irq_called lk s =
     (let a = sp_of s CPSR_MODE_IRQ - 24
      in (take_irq s)\<lparr>mem := store_words a [gpr s 0, gpr s 1, gpr s 2, gpr s 3, gpr s 12, pc s + 4] (mem s),
           sp_of := (sp_of s)(CPSR_MODE_IRQ := a), lr_of := (lr_of s)(CPSR_MODE_IRQ := 0x8064), pc := irq_function_addr lk\<rparr>)"

lemma irq_call: "arm_run lk h 3 (take_irq s) = Some (irq_called lk s)"
  by (simp add: arm_eval take_irq_def irq_called_def CPSR_I_def BIT_def Let_def)

lemma arm_run_add: "arm_run lk h (m + n) s = Option.bind (arm_run lk h m s) (arm_run lk h n)"
  by (induction m arbitrary: s) (simp_all split: option.split)

text \<open>The way back, when the registers that were pushed are still on the stack.\<close>

lemma irq_return:
  assumes "pc u = 0x8064" and "mode u = 18" and "sp_of u = f(18 := f 18 - 24)"
    and "ram_get32 (mem u) (f 18 - 24) = r0" and "ram_get32 (mem u) (f 18 - 24 + 4) = r1" and "ram_get32 (mem u) (f 18 - 24 + 8) = r2"
    and "ram_get32 (mem u) (f 18 - 24 + 12) = r3" and "ram_get32 (mem u) (f 18 - 24 + 16) = r12" and "ram_get32 (mem u) (f 18 - 24 + 20) = a + 4"
  shows "\<exists>t. arm_run lk h 2 u = Some t \<and> pc t = a \<and> psr t = spsr_of u 18 \<and>
    gpr t = (gpr u)(0 := r0, 1 := r1, 2 := r2, 3 := r3, 12 := r12) \<and> sp_of t = f \<and> (\<forall>x. x \<noteq> 18 \<longrightarrow> lr_of t x = lr_of u x)"
proof -
  have m: "psr u AND 31 = 18" using assms(2) by (simp add: mode_def)
  have "sp_of u 18 = f 18 - 24" using assms(3) by simp
  then show ?thesis using assms(3-9) by (simp add: arm_run_numeral assms(1) code_at_simps mode_def m Let_def add.assoc)
qed

text \<open>
  C14. An interrupt is invisible to the code it interrupts: from the vector through the C function and back, six steps restore the
  program counter, the status register, all the general registers and the stack pointers and link registers of
  the other modes, for every C function that respects the procedure call standard and wherever it is.
\<close>

theorem irq_transparent:
  assumes "aapcs h" and "code_at lk (irq_function_addr lk) = None"
  shows "\<exists>t. arm_run lk h 6 (take_irq s) = Some t \<and> pc t = pc s \<and> psr t = psr s \<and> (\<forall>n \<le> 12. gpr t n = gpr s n) \<and>
    sp_of t = sp_of s \<and> (\<forall>x. x \<noteq> CPSR_MODE_IRQ \<longrightarrow> lr_of t x = lr_of s x)"
proof -
  let ?c = "irq_called lk s" and ?u = "h (irq_called lk s)" and ?a = "sp_of s 18 - 24"
  let ?ws = "[gpr s 0, gpr s 1, gpr s 2, gpr s 3, gpr s 12, pc s + 4]"
  have c: "mode ?c = 18" "pc ?c = irq_function_addr lk" "lr_of ?c 18 = 0x8064" "sp_of ?c = (sp_of s)(18 := ?a)"
    "spsr_of ?c 18 = psr s" "mem ?c = store_words ?a ?ws (mem s)" "gpr ?c = gpr s" "\<forall>x. x \<noteq> 18 \<longrightarrow> lr_of ?c x = lr_of s x"
    by (simp_all add: irq_called_def take_irq_def mode_def mode_numbers CPSR_I_def BIT_def Let_def)
  have u: "pc ?u = 0x8064" "mode ?u = 18" "sp_of ?u = (sp_of s)(18 := ?a)" "spsr_of ?u 18 = psr s"
    "\<forall>n \<in> {4..11}. gpr ?u n = gpr s n" "\<forall>x. x \<noteq> 18 \<longrightarrow> lr_of ?u x = lr_of s x"
    and m: "\<And>i. i < 24 \<Longrightarrow> mem ?u (?a + of_nat i) = store_words ?a ?ws (mem s) (?a + of_nat i)"
    using assms(1) [unfolded aapcs_def, rule_format, of ?c] c by (auto simp: mode_numbers)
  have g: "ram_get32 (mem ?u) (?a + of_nat (4 * i)) = ?ws ! i" if "i < 6" for i
    using that m by (intro store_words_get) simp_all
  from g [of 0] g [of 1] g [of 2] g [of 3] g [of 4] g [of 5]
  have w: "ram_get32 (mem ?u) ?a = gpr s 0" "ram_get32 (mem ?u) (?a + 4) = gpr s 1" "ram_get32 (mem ?u) (?a + 8) = gpr s 2"
    "ram_get32 (mem ?u) (?a + 12) = gpr s 3" "ram_get32 (mem ?u) (?a + 16) = gpr s 12" "ram_get32 (mem ?u) (?a + 20) = pc s + 4"
    by simp_all
  have "arm_run lk h 3 ?c = arm_run lk h 2 ?u"
    using assms(2) c(2) by (simp add: arm_run_numeral)
  moreover have "arm_run lk h 6 (take_irq s) = Option.bind (arm_run lk h 3 (take_irq s)) (arm_run lk h 3)"
    using arm_run_add [of lk h 3 3 "take_irq s"] by simp
  ultimately have "arm_run lk h 6 (take_irq s) = arm_run lk h 2 ?u" by (simp add: irq_call)
  moreover from irq_return [OF u(1-3) w] obtain t where t: "arm_run lk h 2 ?u = Some t" "pc t = pc s" "psr t = spsr_of ?u 18"
    "gpr t = (gpr ?u)(0 := gpr s 0, 1 := gpr s 1, 2 := gpr s 2, 3 := gpr s 3, 12 := gpr s 12)" "sp_of t = sp_of s"
    "\<forall>x. x \<noteq> 18 \<longrightarrow> lr_of t x = lr_of ?u x" by blast
  moreover have "gpr t n = gpr s n" if "n \<le> 12" for n
  proof -
    have "n \<in> {0, 1, 2, 3, 12} \<or> n \<in> {4..11}" using that by auto
    then show ?thesis using t(4) u(5) by auto
  qed
  ultimately show ?thesis using u(4,6) by (simp add: mode_numbers)
qed

definition idle_arm :: arm where
  "idle_arm = \<lparr>gpr = (\<lambda>n. of_nat n), sp_of = (\<lambda>_. IRQ_STACK_START_ADDR), lr_of = (\<lambda>_. 0), spsr_of = (\<lambda>_. 0),
     psr = CPSR_MODE_SVC, elr_hyp = 0, hvbar = 0, pc = init_section, mem = (\<lambda>_. 0)\<rparr>"

definition idle_linkage :: linkage where
  "idle_linkage = \<lparr>c_entry_addr = 0x9000, irq_function_addr = 0xa000\<rparr>"

theorem entry_and_exit_witness:
  "\<exists>t. arm_run idle_linkage id 19 idle_arm = Some t \<and> pc t = 0x9000 \<and> sp_of t CPSR_MODE_SVC = SVC_STACK_START_ADDR"
proof -
  have "pc idle_arm = init_section" by (simp add: idle_arm_def)
  from entry_and_exit [OF this, of idle_linkage id] show ?thesis by (auto simp: idle_linkage_def)
qed

theorem irq_transparent_witness:
  "\<exists>t. arm_run idle_linkage (\<lambda>s. s\<lparr>gpr := (gpr s)(0 := 7, 12 := 8), pc := lr_of s (mode s)\<rparr>) 6 (take_irq (idle_arm\<lparr>pc := 0x9000\<rparr>)) = Some t \<and>
    pc t = 0x9000 \<and> gpr t 0 = 0 \<and> gpr t 12 = 12"
proof -
  let ?h = "\<lambda>s. s\<lparr>gpr := (gpr s)(0 := 7, 12 := 8), pc := lr_of s (mode s)\<rparr>" and ?s = "idle_arm\<lparr>pc := 0x9000\<rparr>"
  have "aapcs ?h" by (simp add: aapcs_def mode_def)
  moreover have "code_at idle_linkage (irq_function_addr idle_linkage) = None"
    by (simp add: code_at_def idle_linkage_def asm_vector_table_def asm_entry_def set_stack_def asm_boot_kernel_def
        irq_exception_handler_def init_section_def)
  ultimately obtain t where "arm_run idle_linkage ?h 6 (take_irq ?s) = Some t" "pc t = pc ?s" "\<forall>n \<le> 12. gpr t n = gpr ?s n"
    using irq_transparent [of ?h idle_linkage ?s] by blast
  then show ?thesis by (auto simp: idle_arm_def)
qed

end
