(* ===== verification/Spec2Isabelle.thy ===== *)
theory Spec2Isabelle
  imports Boot Imager Support_Properties Sd_Driver Entry_Facts
begin

text \<open>
  A verification development for \<^verbatim>\<open>rpibld\<close>, a bootloader for the Raspberry Pi 4 that reads a kernel
  and a device tree blob from an image on the SD card and starts the kernel, and for
  \<^verbatim>\<open>rpi-img\<close>, the program that writes the image. All the C code under \<^verbatim>\<open>src/bld\<close>,
  \<^verbatim>\<open>src/img\<close> and \<^verbatim>\<open>src/include\<close> is modelled, function by function and with the names of the
  sources, and so is the assembly of \<^verbatim>\<open>src/bld/entry.S\<close>.

  \<^bold>\<open>How programs are modelled\<close>

  A bootloader function is a state passing program \<open>('d, 'a) io\<close> (\<open>Machine\<close>) over a record of RAM, the
  static variables, the interrupt mask of the CPU, the state \<open>'d\<close> of the peripherals, and the history of
  bus accesses. It returns a value, or ends for good: \<open>Signal\<close> in the endless loop of
  \<^verbatim>\<open>signal_error()\<close>, \<open>Boot\<close> at the jump to the kernel with the registers there, \<open>Undef\<close>
  where C leaves the behaviour undefined, \<open>Hang\<close> when a polling loop has used up its fuel. Hardware is the
  parameter \<open>hw\<close>: arbitrary functions that read and write registers and answer the mailbox, over an
  arbitrary state. The initial contents of an uninitialised object and the number of polls that a loop is given
  are parts of \<open>hw\<close> as well. Machine integers are words of their width; a C \<^verbatim>\<open>int\<close> whose overflow matters
  is an \<open>int\<close> with the overflow written out, and no result where the overflow is undefined
  (\<open>c_int_fits\<close>, \<^verbatim>\<open>str_to_int()\<close>). The imager (\<open>Imager\<close>) uses the same programs over an
  arbitrary state of the operating system, with the system calls as a parameter.

  \<^bold>\<open>Parts of the program and their theories\<close>

  \<^item> \<open>Prelude\<close>: \<^verbatim>\<open>bld/type.h\<close>, little-endian words and blocks of RAM; \<open>Machine\<close>: state, outcomes,
    \<^verbatim>\<open>enum error_code\<close>, \<^verbatim>\<open>struct card\<close>, sequencing; \<open>Total\<close>: total correctness.
  \<^item> \<open>Helpers\<close>: \<^verbatim>\<open>bld/help.c\<close>, \<^verbatim>\<open>bld/bits.h\<close>, \<^verbatim>\<open>bld/addrmap.h\<close>, \<^verbatim>\<open>bld/heap.c\<close>; \<open>Polling\<close>: the
    wait of \<^verbatim>\<open>bld/help.c\<close> with its timeout; \<open>Mmio\<close>: \<^verbatim>\<open>bld/mmio.c\<close>.
  \<^item> \<open>Timer\<close>: \<^verbatim>\<open>bld/timer.c\<close>; \<open>Ic\<close>: \<^verbatim>\<open>bld/ic.c\<close>, \<^verbatim>\<open>bld/int.c\<close>; \<open>Gpio\<close>: \<^verbatim>\<open>bld/gpio.c\<close>,
    \<^verbatim>\<open>bld/led.c\<close>, \<^verbatim>\<open>bld/error.c\<close>; \<open>Uart\<close>, \<open>Uart_Init\<close>: \<^verbatim>\<open>bld/uart.c\<close>.
  \<^item> \<open>Format\<close>, \<open>Debug\<close>: \<^verbatim>\<open>bld/debug.c\<close>, the string functions, \<^verbatim>\<open>Vsnprintf()\<close> and the log.
  \<^item> \<open>Vcmailbox\<close>, \<open>Tag\<close>: \<^verbatim>\<open>bld/vcmailbox.c\<close>, \<^verbatim>\<open>bld/tag.c\<close>.
  \<^item> \<open>Sd_Reg\<close>, \<open>Sd_Cmd\<close>, \<open>Sd\<close>: \<^verbatim>\<open>bld/sd/reg.h\<close>, \<^verbatim>\<open>bld/sd/cmd.c\<close>, \<^verbatim>\<open>bld/sd/sd.c\<close>.
  \<^item> \<open>Mbr\<close>: \<^verbatim>\<open>bld/mbr.c\<close>; \<open>Image\<close>: \<^verbatim>\<open>include/img.h\<close>; \<open>Boot\<close>: \<^verbatim>\<open>bld/boot.c\<close>; \<open>Imager\<close>:
    \<^verbatim>\<open>img/img.c\<close>.
  \<^item> \<open>Entry\<close>: \<^verbatim>\<open>bld/entry.S\<close> as lists of instructions over a processor with banked registers.

  \<^bold>\<open>Interfaces\<close>

  What an operation leaves alone is proved once for every relation that the accesses below it respect. The
  locales build on each other as the components do: \<open>run_relation\<close> (programs), \<open>access_relation\<close> (register
  accesses, and with it timer, GPIO, polling, UART and log), \<open>sd_relation\<close> (commands),
  \<open>ram_free_relation\<close> and \<open>mailbox_relation\<close> (mailbox requests), \<open>host_relation\<close> (the host
  controller), \<open>read_relation\<close>, \<open>init_relation\<close> and \<open>log_relation\<close> (the stages of the boot). They are interpreted on
  the relations the properties need: equal RAM, equal RAM outside an area, equal record of the card, a well
  formed record, no command or argument written, accesses kept to a page, a history that grows. \<open>polled_condition\<close> is the contract of a
  condition that \<^verbatim>\<open>while_cond_timeout_infinite()\<close> waits for, interpreted on the five conditions of the program.

  \<^bold>\<open>Specifications\<close>

  \<^item> \<open>Format_Spec\<close>: the text that a format and its arguments mean, without buffers.
  \<^item> \<open>Sd_Card\<close>, \<open>Sd_Controller\<close>: a host controller with a card after the SD specifications, as a reference;
    \<open>Vc_Reference\<close>: the VideoCore's answers. Hardware follows them when its registers behave like theirs,
    whatever the rest of its state is; \<open>Pi_Board\<close> is concrete hardware that does.
  \<^item> \<open>Image_Spec\<close>: the image format, shared by the imager and the loader.
  \<^item> \<open>Boot_Spec\<close>: how the boot of a disk has to end, as a function of the disk alone.
  \<^item> \<open>Sd_Driver\<close>: the runs of the driver, and the automaton that its record of the card follows.

  \<^bold>\<open>What the lemmas show\<close>

  \<^item> For every hardware: \<open>Outcomes\<close> gives the ways each operation can end, \<open>Sd_Cmd_Facts\<close> and \<open>Sd_Facts\<close> the
    conversation with the card and the words that reach RAM, \<open>Init_Order\<close> the commands of an
    initialisation and their arguments, \<open>Frames\<close> what the stages leave alone, \<open>Boot_Facts\<close> what has been checked when the
    kernel is started, \<open>Boot_Properties\<close> that the loader is not overwritten and the record of the card stays well
    typed, \<open>Sd_Driver\<close> that every run of the driver follows its automaton.
  \<^item> For hardware that follows the references: \<open>Reference\<close>, \<open>Reference_Init\<close> and \<open>Reference_Boot\<close> that
    each stage returns, so that a well-formed card boots; \<open>Boot_Spec\<close> that the boot of any card refines the
    specification on disks; \<open>Boot_Properties\<close> the cards on which the checks of the code go wrong.
  \<^item> For an operating system that works as its manual says: \<open>Imager_Facts\<close> that the imager writes the image of
    \<open>Image_Spec\<close>, and \<open>Image_Roundtrip\<close> that such an image boots.
  \<^item> \<open>Sd_Properties\<close> and \<open>Support_Properties\<close> hold the properties of the driver and of what the boot is built
    on; \<open>Entry_Facts\<close> those of the assembly code. Properties of one component are at the end of its theory.

  \<^bold>\<open>Fuel\<close>

  A loop that polls hardware may run for ever, and takes \<open>poll_fuel\<close> rounds at most here. Statements about
  a returned value hold for any fuel. On hardware that follows the references one round is enough for every
  loop. On a clock that only runs, one poll for each microsecond of the timeout is enough, because every poll takes a tick at least;
  the statements that loops end have this bound as a hypothesis. The imager's loops move at least one byte a round,
  so fuel beyond the sizes of the files is enough. All other loops are total functions.

  \<^bold>\<open>Not modelled\<close>

  \<^item> Memory barriers and \<^verbatim>\<open>volatile\<close>: accesses happen in program order. Concurrency of interrupts with the C code:
    the program polls (\<^verbatim>\<open>ENABLE_GIC\<close>), and what an interrupt would do is shown to be invisible to the
    registers of the code it interrupts.
  \<^item> The loop on \<^verbatim>\<open>wfi\<close> that is compiled only without \<^verbatim>\<open>ENABLE_GIC\<close>; the encoding of the instructions in
    memory; the other cores, which stay in the firmware.
  \<^item> The sums of a counter value and a delay in \<^verbatim>\<open>timer_poll_start()\<close> and \<^verbatim>\<open>timer_queue_irq()\<close> are sums of
    \<^verbatim>\<open>int\<close>s, undefined in C when they cross \<open>2 ^ 31\<close>; the model takes them modulo \<open>2 ^ 32\<close>, as the
    addition instruction of the unoptimised build does. Strings and buffers are shorter than
    \<open>2 ^ 31\<close> bytes, as the memory of the board is, so that their lengths are \<^verbatim>\<open>int\<close>s.
  \<^item> Messages of the imager to the terminal, and \<^verbatim>\<open>free()\<close>. Build files and the firmware's configuration.
\<close>

end
